(* ===== verification/Prelude.thy ===== *)
theory Prelude
  imports Main "HOL-Library.Finite_Map" "HOL-Library.Word"
begin

text \<open>
  Shared vocabulary of the development: Go values as HOL values, and the generic lemmas
  the component theories rely on.

  \<^item> A Go \<^verbatim>\<open>string\<close> is a byte sequence, hence \<^typ>\<open>string\<close> (a \<^typ>\<open>char list\<close> with one
    \<^typ>\<open>char\<close> per byte).
  \<^item> A Go \<^verbatim>\<open>map\<close> is a finite map \<^typ>\<open>('k, 'v) fmap\<close>; a \<^verbatim>\<open>range\<close> loop over a map takes the
    iteration order as an argument, any list of the map's keys (\<open>range_order\<close>), because the
    language leaves the order open.
  \<^item> A Go \<^verbatim>\<open>error\<close> is a value of the datatype \<open>error\<close>; \<^verbatim>\<open>nil\<close> is \<^const>\<open>None\<close> where a function
    returns only an error, and a result with an error is a sum, \<^const>\<open>Inl\<close> the error.
  \<^item> \<^verbatim>\<open>time.Time\<close> and \<^verbatim>\<open>time.Duration\<close> count nanoseconds as \<^typ>\<open>int\<close>; the arithmetic that
    could overflow goes through \<open>i64\<close>, which wraps like Go's 64-bit integers.
  \<^item> The step relations of the concurrent components share \<open>reachable\<close> and the locale
    \<open>inductive_invariant\<close>.
\<close>

named_theorems go_defs \<open>definitions of the Go model that proofs unfold together\<close>
named_theorems go_err \<open>equations for Go error values\<close>

section \<open>Errors\<close>

text \<open>
  \<open>New i m\<close> is a value made by \<^verbatim>\<open>errors.New\<close>: \<open>i\<close> names the package variable that holds it
  (the identity \<^verbatim>\<open>errors.Is\<close> compares; empty for an error built inline, which no code
  compares against) and \<open>m\<close> is its text. \<open>Wrapf p e s\<close> is \<^verbatim>\<open>fmt.Errorf\<close> with one
  \<^verbatim>\<open>%w\<close> verb for \<open>e\<close>, the text \<open>p\<close> before it and \<open>s\<close> after it.
\<close>

datatype error = New string string | Wrapf string error string

fun error_text :: "error \<Rightarrow> string" where
  "error_text (New i m) = m"
| "error_text (Wrapf p e s) = p @ error_text e @ s"

text \<open>\<^verbatim>\<open>errors.Is(err, target)\<close>: walk the chain of wrapped errors.\<close>

fun errors_is :: "error \<Rightarrow> error \<Rightarrow> bool" where
  "errors_is (New i m) t = (New i m = t)"
| "errors_is (Wrapf p e s) t = (Wrapf p e s = t \<or> errors_is e t)"

text \<open>An error built inline, with no identity of its own.\<close>

abbreviation anon :: "string \<Rightarrow> error" where
  "anon m \<equiv> New [] m"

lemma errors_is_refl [simp, go_err]: "errors_is e e"
  by (cases e) auto

lemma errors_is_Wrapf_New [simp, go_err]:
  "errors_is (Wrapf p e s) (New i m) \<longleftrightarrow> errors_is e (New i m)"
  by simp

text \<open>\<^verbatim>\<open>if err != nil { return err }\<close> and then go on: no error means neither had one.\<close>

lemma err_then_None_iff [simp]:
  "(case x of None \<Rightarrow> y | Some e \<Rightarrow> Some e) = None \<longleftrightarrow> x = None \<and> y = None"
  by (cases x) auto

text \<open>\<^verbatim>\<open>for _, x := range xs { if err := f(x); err != nil { return err } }\<close>\<close>

fun first_error :: "('a \<Rightarrow> error option) \<Rightarrow> 'a list \<Rightarrow> error option" where
  "first_error f [] = None"
| "first_error f (x # xs) = (case f x of Some e \<Rightarrow> Some e | None \<Rightarrow> first_error f xs)"

lemma first_error_None_iff [simp]: "first_error f xs = None \<longleftrightarrow> (\<forall>x \<in> set xs. f x = None)"
  by (induction xs) (auto split: option.split)

lemma first_error_SomeD: "first_error f xs = Some e \<Longrightarrow> \<exists>x \<in> set xs. f x = Some e"
  by (induction xs) (auto split: option.splits)

section \<open>Go maps and the order of a range loop\<close>

definition range_order :: "('k, 'v) fmap \<Rightarrow> 'k list \<Rightarrow> bool" where
  "range_order m ks \<longleftrightarrow> distinct ks \<and> set ks = fset (fmdom m)"

definition map_len :: "('k, 'v) fmap \<Rightarrow> nat" where
  "map_len m = fcard (fmdom m)"

text \<open>The pairs a range loop visits, in the order \<open>ks\<close>.\<close>

definition range_pairs :: "('k, 'v) fmap \<Rightarrow> 'k list \<Rightarrow> ('k \<times> 'v) list" where
  "range_pairs m ks = map (\<lambda>k. (k, the (fmlookup m k))) ks"

lemma range_order_length: "range_order m ks \<Longrightarrow> length ks = map_len m"
  by (simp add: range_order_def map_len_def distinct_card [symmetric] fcard.rep_eq)

lemma range_order_mem: "range_order m ks \<Longrightarrow> k \<in> set ks \<longleftrightarrow> fmlookup m k \<noteq> None"
  by (simp add: range_order_def fmlookup_dom_iff)

lemma range_pairs_mem:
  "range_order m ks \<Longrightarrow> (k, v) \<in> set (range_pairs m ks) \<longleftrightarrow> fmlookup m k = Some v"
  by (auto simp: range_pairs_def range_order_def fmlookup_dom_iff)

lemma map_len_empty [simp]: "map_len fmempty = 0"
  by (simp add: map_len_def)

lemma map_len_0_iff [simp]: "map_len m = 0 \<longleftrightarrow> m = fmempty"
proof -
  have "fmdom m = {||} \<longleftrightarrow> m = fmempty"
    by (metis fmdom_empty fmrestrict_fset_dom fmrestrict_fset_null)
  then show ?thesis by (simp add: map_len_def)
qed

lemma map_len_upd:
  "map_len (fmupd k v m) = (if fmlookup m k = None then Suc (map_len m) else map_len m)"
proof (cases "fmlookup m k")
  case None
  then have "k |\<notin>| fmdom m" by (simp add: fmlookup_dom_iff)
  with None show ?thesis by (simp add: map_len_def fcard_finsert_if)
next
  case (Some w)
  then have "k |\<in>| fmdom m" by (simp add: fmlookup_dom_iff)
  with Some show ?thesis by (simp add: map_len_def finsert_absorb)
qed

section \<open>Machine integers\<close>

text \<open>Reading an unbounded result at Go's 64-bit width: two's complement wrap-around.\<close>

definition i64 :: "int \<Rightarrow> int" where
  "i64 x = (x + 2 ^ 63) mod 2 ^ 64 - 2 ^ 63"

lemma i64_id: "- (2 ^ 63) \<le> x \<Longrightarrow> x < 2 ^ 63 \<Longrightarrow> i64 x = x"
  by (simp add: i64_def)

lemma i64_range: "- (2 ^ 63) \<le> i64 x \<and> i64 x < 2 ^ 63"
  by (simp add: i64_def)

text \<open>A \<^verbatim>\<open>time.Time\<close>: nanoseconds since its zero value, the first of January of year 1.\<close>

type_synonym Time = int

abbreviation second :: int where
  "second \<equiv> 1000000000"

section \<open>The strings package\<close>

fun has_prefix :: "string \<Rightarrow> string \<Rightarrow> bool" where
  "has_prefix s [] = True"
| "has_prefix [] (p # ps) = False"
| "has_prefix (c # cs) (p # ps) = (c = p \<and> has_prefix cs ps)"

definition trim_prefix :: "string \<Rightarrow> string \<Rightarrow> string" where
  "trim_prefix s p = (if has_prefix s p then drop (length p) s else s)"

definition has_suffix :: "string \<Rightarrow> string \<Rightarrow> bool" where
  "has_suffix s p = has_prefix (rev s) (rev p)"

definition trim_suffix :: "string \<Rightarrow> string \<Rightarrow> string" where
  "trim_suffix s p = (if has_suffix s p then take (length s - length p) s else s)"

lemma has_prefix_iff: "has_prefix s p \<longleftrightarrow> (\<exists>t. s = p @ t)"
  by (induction s p rule: has_prefix.induct) auto

lemma has_prefix_append [simp]: "has_prefix (p @ t) p"
  by (auto simp: has_prefix_iff)

lemma trim_prefix_append [simp]: "trim_prefix (p @ t) p = t"
  by (simp add: trim_prefix_def)

lemma has_suffix_iff: "has_suffix s p \<longleftrightarrow> (\<exists>t. s = t @ p)"
  unfolding has_suffix_def has_prefix_iff
  by (metis rev_append rev_rev_ident)

lemma trim_suffix_append [simp]: "trim_suffix (t @ p) p = t"
proof -
  have "has_suffix (t @ p) p" by (auto simp: has_suffix_iff)
  then show ?thesis by (simp add: trim_suffix_def)
qed

text \<open>
  \<^verbatim>\<open>strings.TrimSpace\<close> removes the white space of the Unicode property from both ends. The
  runes in question, in UTF-8: the six ASCII spaces, U+0085, U+00A0, U+1680, U+2000 to
  U+200A, U+2028, U+2029, U+202F, U+205F and U+3000.
\<close>

definition space_seqs :: "string list" where
  "space_seqs =
     [[CHR 0x09], [CHR 0x0A], [CHR 0x0B], [CHR 0x0C], [CHR 0x0D], [CHR 0x20],
      [CHR 0xC2, CHR 0x85], [CHR 0xC2, CHR 0xA0], [CHR 0xE1, CHR 0x9A, CHR 0x80],
      [CHR 0xE2, CHR 0x80, CHR 0x80], [CHR 0xE2, CHR 0x80, CHR 0x81],
      [CHR 0xE2, CHR 0x80, CHR 0x82], [CHR 0xE2, CHR 0x80, CHR 0x83],
      [CHR 0xE2, CHR 0x80, CHR 0x84], [CHR 0xE2, CHR 0x80, CHR 0x85],
      [CHR 0xE2, CHR 0x80, CHR 0x86], [CHR 0xE2, CHR 0x80, CHR 0x87],
      [CHR 0xE2, CHR 0x80, CHR 0x88], [CHR 0xE2, CHR 0x80, CHR 0x89],
      [CHR 0xE2, CHR 0x80, CHR 0x8A], [CHR 0xE2, CHR 0x80, CHR 0xA8],
      [CHR 0xE2, CHR 0x80, CHR 0xA9], [CHR 0xE2, CHR 0x80, CHR 0xAF],
      [CHR 0xE2, CHR 0x81, CHR 0x9F], [CHR 0xE3, CHR 0x80, CHR 0x80]]"

text \<open>One leading occurrence of a sequence of \<open>ps\<close> removed, if there is one.\<close>

definition strip_one :: "string list \<Rightarrow> string \<Rightarrow> string option" where
  "strip_one ps s =
     (case find (has_prefix s) ps of None \<Rightarrow> None | Some p \<Rightarrow> Some (drop (length p) s))"

fun strip_fuel :: "string list \<Rightarrow> nat \<Rightarrow> string \<Rightarrow> string" where
  "strip_fuel ps 0 s = s"
| "strip_fuel ps (Suc n) s =
     (case strip_one ps s of None \<Rightarrow> s | Some s' \<Rightarrow> strip_fuel ps n s')"

text \<open>
  Every sequence is non-empty, so a string of \<open>n\<close> bytes is stripped at most \<open>n\<close> times:
  its length is enough fuel.
\<close>

definition strip_left :: "string list \<Rightarrow> string \<Rightarrow> string" where
  "strip_left ps s = strip_fuel ps (length s) s"

definition trim_left_space :: "string \<Rightarrow> string" where
  "trim_left_space s = strip_left space_seqs s"

definition trim_right_space :: "string \<Rightarrow> string" where
  "trim_right_space s = rev (strip_left (map rev space_seqs) (rev s))"

definition trim_space :: "string \<Rightarrow> string" where
  "trim_space s = trim_right_space (trim_left_space s)"

text \<open>A string that starts and ends with no white space.\<close>

definition untrimmed :: "string \<Rightarrow> bool" where
  "untrimmed s \<longleftrightarrow>
     strip_one space_seqs s = None \<and> strip_one (map rev space_seqs) (rev s) = None"

lemma strip_one_Some:
  "strip_one ps s = Some s' \<Longrightarrow> \<exists>p \<in> set ps. s = p @ s'"
  by (auto simp: strip_one_def find_Some_iff has_prefix_iff split: option.splits)

lemma strip_one_None: "strip_one ps s = None \<longleftrightarrow> (\<forall>p \<in> set ps. \<not> has_prefix s p)"
  by (auto simp: strip_one_def find_None_iff find_Some_iff split: option.splits)

lemma strip_fuel_suffix: "\<exists>t. s = t @ strip_fuel ps n s"
proof (induction n arbitrary: s)
  case 0
  show ?case by simp
next
  case (Suc n)
  show ?case
  proof (cases "strip_one ps s")
    case None
    then show ?thesis by simp
  next
    case (Some s')
    from strip_one_Some [OF Some] obtain p where "s = p @ s'" by blast
    moreover from Suc.IH obtain t where "s' = t @ strip_fuel ps n s'" by blast
    ultimately have "s = (p @ t) @ strip_fuel ps n s'" by simp
    with Some show ?thesis by auto
  qed
qed

lemma strip_fuel_enough:
  assumes "[] \<notin> set ps"
  shows "length s \<le> n \<Longrightarrow> strip_one ps (strip_fuel ps n s) = None"
proof (induction n arbitrary: s)
  case 0
  with assms show ?case by (auto simp: strip_one_None has_prefix_iff)
next
  case (Suc n)
  show ?case
  proof (cases "strip_one ps s")
    case None
    then show ?thesis by simp
  next
    case (Some s')
    from strip_one_Some [OF Some] obtain p where "p \<in> set ps" "s = p @ s'" by blast
    with assms have "length s' < length s" by (cases p) auto
    with Suc.prems have "length s' \<le> n" by simp
    with Some Suc.IH show ?thesis by simp
  qed
qed

lemma space_seqs_nonempty: "[] \<notin> set space_seqs" "[] \<notin> set (map rev space_seqs)"
  by (simp_all add: space_seqs_def)

lemma strip_left_none: "[] \<notin> set ps \<Longrightarrow> strip_one ps (strip_left ps s) = None"
  by (simp add: strip_left_def strip_fuel_enough)

lemma strip_left_id: "strip_one ps s = None \<Longrightarrow> strip_left ps s = s"
  by (cases "length s") (simp_all add: strip_left_def)

text \<open>\<^verbatim>\<open>TrimSpace\<close> leaves no white space at either end, and trimming twice is trimming once.\<close>

lemma untrimmed_trim_space [simp]: "untrimmed (trim_space s)"
proof -
  let ?l = "trim_left_space s"
  have left: "strip_one space_seqs ?l = None"
    by (simp add: trim_left_space_def strip_left_none space_seqs_nonempty)
  obtain t where t: "rev ?l = t @ strip_left (map rev space_seqs) (rev ?l)"
    using strip_fuel_suffix unfolding strip_left_def by blast
  then have "?l = trim_space s @ rev t"
    unfolding trim_space_def trim_right_space_def by (metis rev_append rev_rev_ident)
  with left have "strip_one space_seqs (trim_space s) = None"
    by (metis append.assoc has_prefix_iff strip_one_None)
  moreover have "strip_one (map rev space_seqs) (rev (trim_space s)) = None"
    by (simp add: trim_space_def trim_right_space_def strip_left_none space_seqs_nonempty del: set_map)
  ultimately show ?thesis by (simp add: untrimmed_def)
qed

lemma trim_space_untrimmed [simp]: "untrimmed s \<Longrightarrow> trim_space s = s"
  by (simp add: untrimmed_def trim_space_def trim_right_space_def trim_left_space_def strip_left_id)

lemma trim_space_idem [simp]: "trim_space (trim_space s) = trim_space s"
  by simp

lemma untrimmed_Nil [simp]: "untrimmed []"
  by (simp add: untrimmed_def strip_one_def space_seqs_def)

section \<open>Step relations\<close>

text \<open>
  A concurrent component is a labelled step relation; a label says which goroutine moved and
  what its environment answered. \<open>run step s es t\<close>: the labels \<open>es\<close> lead from \<open>s\<close> to \<open>t\<close>.
\<close>

inductive run :: "('s \<Rightarrow> 'e \<Rightarrow> 's \<Rightarrow> bool) \<Rightarrow> 's \<Rightarrow> 'e list \<Rightarrow> 's \<Rightarrow> bool"
  for step where
  run_Nil: "run step s [] s"
| run_Cons: "step s e t \<Longrightarrow> run step t es u \<Longrightarrow> run step s (e # es) u"

inductive_cases run_NilE [elim!]: "run step s [] t"
inductive_cases run_ConsE: "run step s (e # es) t"

definition reachable :: "('s \<Rightarrow> 'e \<Rightarrow> 's \<Rightarrow> bool) \<Rightarrow> 's \<Rightarrow> 's \<Rightarrow> bool" where
  "reachable step s0 s \<longleftrightarrow> (\<exists>es. run step s0 es s)"

lemma run_Nil_iff [simp]: "run step s [] t \<longleftrightarrow> s = t"
  by (auto intro: run_Nil)

lemma run_Cons_iff: "run step s (e # es) u \<longleftrightarrow> (\<exists>t. step s e t \<and> run step t es u)"
  by (auto intro: run_Cons elim: run_ConsE)

lemma run_append:
  "run step s (es @ fs) u \<longleftrightarrow> (\<exists>t. run step s es t \<and> run step t fs u)"
  by (induction es arbitrary: s) (auto simp: run_Cons_iff)

lemma reachableI: "run step s0 es s \<Longrightarrow> reachable step s0 s"
  by (auto simp: reachable_def)

lemma reachable_refl [simp]: "reachable step s s"
  by (rule reachableI [OF run_Nil])

lemma reachable_step: "reachable step s0 s \<Longrightarrow> step s e t \<Longrightarrow> reachable step s0 t"
  unfolding reachable_def by (metis run_Cons run_Nil run_append)

text \<open>A component given by an executable step function: running a list of labels.\<close>

fun run_exec :: "('s \<Rightarrow> 'e \<Rightarrow> 's option) \<Rightarrow> 's \<Rightarrow> 'e list \<Rightarrow> 's option" where
  "run_exec exec s [] = Some s"
| "run_exec exec s (e # es) = (case exec s e of None \<Rightarrow> None | Some t \<Rightarrow> run_exec exec t es)"

lemma run_exec_iff: "run (\<lambda>s e t. exec s e = Some t) s es t \<longleftrightarrow> run_exec exec s es = Some t"
  by (induction es arbitrary: s) (auto simp: run_Cons_iff split: option.splits)

text \<open>
  The contract of an invariant: it holds in the initial state and every step keeps it. The
  components interpret this locale with their own step relations and invariants.
\<close>

locale inductive_invariant =
  fixes step :: "'s \<Rightarrow> 'e \<Rightarrow> 's \<Rightarrow> bool"
    and s0 :: 's
    and inv :: "'s \<Rightarrow> bool"
  assumes inv_init: "inv s0"
    and inv_step: "inv s \<Longrightarrow> step s e t \<Longrightarrow> inv t"
begin

lemma run_inv: "run step s es t \<Longrightarrow> inv s \<Longrightarrow> inv t"
  by (induction rule: run.induct) (auto intro: inv_step)

lemma reachable_inv: "reachable step s0 s \<Longrightarrow> inv s"
  using run_inv inv_init by (auto simp: reachable_def)

end

text \<open>
  The contract of a refinement: under an invariant every concrete step is one step of an
  abstract machine or none at all. \<open>act\<close> names the abstract action of a step.
\<close>

locale simulation = inductive_invariant step s0 inv
  for step :: "'s \<Rightarrow> 'e \<Rightarrow> 's \<Rightarrow> bool" and s0 :: 's and inv :: "'s \<Rightarrow> bool" +
  fixes astep :: "'a \<Rightarrow> 'l \<Rightarrow> 'a \<Rightarrow> bool"
    and abs :: "'s \<Rightarrow> 'a"
    and act :: "'s \<Rightarrow> 'e \<Rightarrow> 'l option"
  assumes sim: "inv s \<Longrightarrow> step s e t \<Longrightarrow>
    (case act s e of None \<Rightarrow> abs t = abs s | Some l \<Rightarrow> astep (abs s) l (abs t))"
begin

lemma run_simulated:
  "run step s es t \<Longrightarrow> inv s \<Longrightarrow> \<exists>ls. run astep (abs s) ls (abs t) \<and> length ls \<le> length es"
proof (induction rule: run.induct)
  case (run_Nil s)
  then show ?case by (intro exI [of _ "[]"]) simp
next
  case (run_Cons s e t es u)
  then obtain ls where ls: "run astep (abs t) ls (abs u)" "length ls \<le> length es" using inv_step by blast
  note step = sim [OF run_Cons.prems run_Cons.hyps(1)]
  show ?case
  proof (cases "act s e")
    case None
    with step ls show ?thesis by (intro exI [of _ ls]) simp
  next
    case (Some l)
    with step ls show ?thesis by (intro exI [of _ "l # ls"]) (auto intro: run.run_Cons)
  qed
qed

lemma trace_inclusion: "run step s0 es t \<Longrightarrow> \<exists>ls. run astep (abs s0) ls (abs t) \<and> length ls \<le> length es"
  using run_simulated inv_init by blast

end

text \<open>
  The contract of a part of a larger system: every step of the whole is a step of the part
  or leaves it alone, so what holds in all reachable states of the part holds in the whole.
\<close>

locale projection =
  fixes step :: "'s \<Rightarrow> 'e \<Rightarrow> 's \<Rightarrow> bool"
    and s0 :: 's
    and pstep :: "'p \<Rightarrow> 'l \<Rightarrow> 'p \<Rightarrow> bool"
    and p0 :: 'p
    and part :: "'s \<Rightarrow> 'p"
  assumes part_init: "part s0 = p0"
    and part_step: "step s e t \<Longrightarrow> part t = part s \<or> (\<exists>l. pstep (part s) l (part t))"
begin

lemma run_part: "run step s es t \<Longrightarrow> reachable pstep p0 (part s) \<Longrightarrow> reachable pstep p0 (part t)"
proof (induction rule: run.induct)
  case (run_Cons s e t es u)
  with part_step show ?case by (metis reachable_step)
qed simp

lemma reachable_part: "reachable step s0 s \<Longrightarrow> reachable pstep p0 (part s)"
  using run_part [of s0] by (auto simp: reachable_def [of step] part_init)

end

section \<open>Registries\<close>

text \<open>
  Several components keep a map behind a mutex and offer the same contract: registering a
  key replaces what was there, looking a key up afterwards finds it, and other keys are
  left alone. A removable registry also forgets a key.
\<close>

locale registry =
  fixes put :: "'k \<Rightarrow> 'v \<Rightarrow> 'r \<Rightarrow> 'r"
    and get :: "'k \<Rightarrow> 'r \<Rightarrow> 'v option"
    and empty :: 'r
  assumes get_empty: "get k empty = None"
    and get_put: "get k (put k' v r) = (if k = k' then Some v else get k r)"
begin

lemma get_put_same [simp]: "get k (put k v r) = Some v"
  by (simp add: get_put)

lemma put_replaces: "get k (put k v (put k w r)) = get k (put k v r)"
  by (simp add: get_put)

lemma put_commute: "k \<noteq> k' \<Longrightarrow> get j (put k v (put k' w r)) = get j (put k' w (put k v r))"
  by (auto simp: get_put)

text \<open>After any sequence of registrations the last one for a key wins.\<close>

lemma get_fold_put:
  "get k (fold (\<lambda>(k, v). put k v) kvs r) =
     (case map_of (rev kvs) k of Some v \<Rightarrow> Some v | None \<Rightarrow> get k r)"
  by (induction kvs arbitrary: r)
     (auto simp: get_put map_add_def map_of_append split: option.splits)

end

locale removable_registry = registry put get empty
  for put :: "'k \<Rightarrow> 'v \<Rightarrow> 'r \<Rightarrow> 'r" and get :: "'k \<Rightarrow> 'r \<Rightarrow> 'v option" and empty :: 'r +
  fixes del :: "'k \<Rightarrow> 'r \<Rightarrow> 'r"
  assumes get_del: "get k (del k' r) = (if k = k' then None else get k r)"
begin

lemma del_put: "get j (del k (put k v r)) = get j (del k r)"
  by (simp add: get_del get_put)

lemma del_absent: "get k r = None \<Longrightarrow> get j (del k r) = get j r"
  by (simp add: get_del)

end

end
