(* ===== verification/Go_Text.thy ===== *)
theory Go_Text
  imports Prelude
begin

text \<open>
  The text functions of Go's standard library that the program calls: quoting for
  \<^verbatim>\<open>%q\<close>, decimal conversion (\<^verbatim>\<open>strconv.Itoa\<close>, \<^verbatim>\<open>FormatUint\<close>, \<^verbatim>\<open>Atoi\<close>), \<^verbatim>\<open>strings.Cut\<close>,
  \<^verbatim>\<open>strings.ToLower\<close>, \<^verbatim>\<open>hex.EncodeToString\<close> and \<^verbatim>\<open>url.PathEscape\<close>, with the facts their callers
  rely on.
\<close>

section \<open>Quoting\<close>

text \<open>
  \<^verbatim>\<open>%q\<close> on ASCII: what is printable is kept, the quote and the backslash are escaped, and so are
  the control characters.
\<close>

definition hex_digit :: "nat \<Rightarrow> char" where
  "hex_digit n = ''0123456789abcdef'' ! n"

definition hex_escape :: "nat \<Rightarrow> string" where
  "hex_escape n = [CHR 0x5C, CHR ''x'', hex_digit (n div 16), hex_digit (n mod 16)]"

definition quote_char :: "char \<Rightarrow> string" where
  "quote_char c =
     (let n = of_char c :: nat in
      if c = CHR 0x22 then [CHR 0x5C, CHR 0x22]
      else if c = CHR 0x5C then [CHR 0x5C, CHR 0x5C]
      else if n = 7 then [CHR 0x5C, CHR ''a'']
      else if n = 8 then [CHR 0x5C, CHR ''b'']
      else if n = 9 then [CHR 0x5C, CHR ''t'']
      else if n = 10 then [CHR 0x5C, CHR ''n'']
      else if n = 11 then [CHR 0x5C, CHR ''v'']
      else if n = 12 then [CHR 0x5C, CHR ''f'']
      else if n = 13 then [CHR 0x5C, CHR ''r'']
      else if n < 32 \<or> n = 127
      then hex_escape n
      else [c])"

section \<open>Decimal numbers\<close>

definition digit_char :: "nat \<Rightarrow> char" where
  "digit_char n = char_of (48 + n)"

fun dec_nat :: "nat \<Rightarrow> string" where
  "dec_nat n = (if n < 10 then [digit_char n] else dec_nat (n div 10) @ [digit_char (n mod 10)])"

declare dec_nat.simps [simp del]

text \<open>\<^verbatim>\<open>strconv.Itoa\<close>\<close>

definition itoa :: "int \<Rightarrow> string" where
  "itoa i = (if i < 0 then CHR ''-'' # dec_nat (nat (- i)) else dec_nat (nat i))"

definition is_digit :: "char \<Rightarrow> bool" where
  "is_digit c \<longleftrightarrow> 48 \<le> (of_char c :: nat) \<and> (of_char c :: nat) \<le> 57"

definition digits_value :: "string \<Rightarrow> nat" where
  "digits_value s = foldl (\<lambda>n c. 10 * n + (of_char c - 48)) 0 s"

text \<open>
  \<^verbatim>\<open>strconv.Atoi\<close> on a 64-bit platform, its value and whether it also reports an error: an
  optional sign and at least one decimal digit; anything else is a syntax error with value
  0, and a number out of range is an error whose value is the nearest bound.
\<close>

definition atoi_body :: "string \<Rightarrow> nat option" where
  "atoi_body s = (if s \<noteq> [] \<and> list_all is_digit s then Some (digits_value s) else None)"

definition clamp64 :: "int \<Rightarrow> int \<times> bool" where
  "clamp64 i =
     (if i < - (2 ^ 63) then (- (2 ^ 63), False)
      else if 2 ^ 63 \<le> i then (2 ^ 63 - 1, False)
      else (i, True))"

definition atoi :: "string \<Rightarrow> int \<times> bool" where
  "atoi s =
     (let (neg, body) =
        (case s of
           [] \<Rightarrow> (False, [])
         | c # cs \<Rightarrow> if c = CHR ''-'' then (True, cs)
                     else if c = CHR ''+'' then (False, cs) else (False, s))
      in case atoi_body body of
           None \<Rightarrow> (0, False)
         | Some n \<Rightarrow> clamp64 (if neg then - int n else int n))"

lemma of_char_digit_char: "n < 10 \<Longrightarrow> (of_char (digit_char n) :: nat) = 48 + n"
  by (simp add: digit_char_def)

lemma is_digit_digit_char [simp]: "n < 10 \<Longrightarrow> is_digit (digit_char n)"
  by (simp add: is_digit_def of_char_digit_char)

lemma dec_nat_digits: "dec_nat n \<noteq> [] \<and> list_all is_digit (dec_nat n)"
proof (induction n rule: dec_nat.induct)
  case (1 n)
  then show ?case
    by (cases "n < 10") (simp_all add: dec_nat.simps [of n])
qed

lemma digits_value_snoc: "digits_value (s @ [c]) = 10 * digits_value s + (of_char c - 48)"
  by (simp add: digits_value_def)

lemma digits_value_dec_nat [simp]: "digits_value (dec_nat n) = n"
proof (induction n rule: dec_nat.induct)
  case (1 n)
  show ?case
  proof (cases "n < 10")
    case True
    then show ?thesis
      by (simp add: dec_nat.simps [of n] digits_value_def of_char_digit_char)
  next
    case False
    with 1 show ?thesis
      by (simp add: dec_nat.simps [of n] digits_value_snoc of_char_digit_char)
  qed
qed

lemma atoi_body_dec_nat [simp]: "atoi_body (dec_nat n) = Some n"
  by (simp add: atoi_body_def dec_nat_digits)

lemma is_digit_not_sign: "is_digit c \<Longrightarrow> c \<noteq> CHR ''-'' \<and> c \<noteq> CHR ''+''"
  by (auto simp: is_digit_def)

lemma dec_nat_Cons: "\<exists>c cs. dec_nat n = c # cs \<and> c \<noteq> CHR ''-'' \<and> c \<noteq> CHR ''+''"
  using dec_nat_digits [of n] is_digit_not_sign by (cases "dec_nat n") auto

lemma atoi_dec_nat: "atoi (dec_nat n) = clamp64 (int n)"
proof -
  obtain c cs where "dec_nat n = c # cs" "c \<noteq> CHR ''-''" "c \<noteq> CHR ''+''"
    using dec_nat_Cons [of n] by blast
  moreover have "atoi_body (c # cs) = Some n"
    using calculation by (metis atoi_body_dec_nat)
  ultimately show ?thesis by (simp add: atoi_def)
qed

text \<open>A decimal rendering of a 64-bit integer reads back as that integer.\<close>

lemma atoi_itoa:
  assumes "- (2 ^ 63) \<le> i" "i < 2 ^ 63"
  shows "atoi (itoa i) = (i, True)"
proof (cases "i < 0")
  case True
  with assms show ?thesis by (simp add: itoa_def atoi_def clamp64_def)
next
  case False
  with assms show ?thesis by (simp add: itoa_def atoi_dec_nat clamp64_def)
qed

section \<open>Splitting, case and escapes\<close>

text \<open>\<^verbatim>\<open>strings.Cut\<close> with a one-byte separator: before, after, found.\<close>

fun cut :: "char \<Rightarrow> string \<Rightarrow> string \<times> string \<times> bool" where
  "cut sep [] = ([], [], False)"
| "cut sep (c # cs) =
     (if c = sep then ([], cs, True)
      else case cut sep cs of (b, a, f) \<Rightarrow> (c # b, a, f))"

lemma cut_found: "sep \<notin> set b \<Longrightarrow> cut sep (b @ sep # a) = (b, a, True)"
  by (induction b) auto

lemma cut_not_found: "sep \<notin> set s \<Longrightarrow> cut sep s = (s, [], False)"
  by (induction s) auto

text \<open>
  \<^verbatim>\<open>strings.ToLower\<close>: the ASCII letters, and the two runes outside ASCII whose lower case is
  ASCII (U+0130 to \<^verbatim>\<open>i\<close>, U+212A to \<^verbatim>\<open>k\<close>). Other bytes are kept: such a rune stays outside ASCII
  in lower case, which is all a comparison with ASCII constants sees.
\<close>

definition lower_char :: "char \<Rightarrow> char" where
  "lower_char c =
     (let n = of_char c :: nat in if 65 \<le> n \<and> n \<le> 90 then char_of (n + 32) else c)"

fun to_lower :: "string \<Rightarrow> string" where
  "to_lower [] = []"
| "to_lower (c # cs) =
     (if c = CHR 0xC4 then
        (case cs of d # ds \<Rightarrow> if d = CHR 0xB0 then CHR ''i'' # to_lower ds else c # to_lower cs
         | [] \<Rightarrow> [c])
      else if c = CHR 0xE2 then
        (case cs of
           d # e # es \<Rightarrow> if d = CHR 0x84 \<and> e = CHR 0xAA then CHR ''k'' # to_lower es
                         else c # to_lower cs
         | _ \<Rightarrow> c # to_lower cs)
      else lower_char c # to_lower cs)"

text \<open>\<^verbatim>\<open>hex.EncodeToString\<close>\<close>

definition hex_encode :: "string \<Rightarrow> string" where
  "hex_encode bs =
     concat (map (\<lambda>b. [hex_digit (of_char b div 16), hex_digit (of_char b mod 16)]) bs)"

lemma length_hex_encode: "length (hex_encode bs) = 2 * length bs"
  by (induction bs) (auto simp: hex_encode_def)

text \<open>
  \<^verbatim>\<open>url.PathEscape\<close>: letters, digits and \<^verbatim>\<open>-_.~$&+=:@\<close> are kept, every other byte becomes
  \<^verbatim>\<open>%XX\<close>.
\<close>

definition path_keep :: "char \<Rightarrow> bool" where
  "path_keep c =
     (let n = of_char c :: nat in
      (65 \<le> n \<and> n \<le> 90) \<or> (97 \<le> n \<and> n \<le> 122) \<or> (48 \<le> n \<and> n \<le> 57) \<or>
      List.member ''-_.~$&+=:@'' c)"

definition upper_hex :: "nat \<Rightarrow> char" where
  "upper_hex n = ''0123456789ABCDEF'' ! n"

definition path_escape :: "string \<Rightarrow> string" where
  "path_escape s =
     concat (map (\<lambda>c. if path_keep c then [c]
                     else [CHR ''%'', upper_hex (of_char c div 16), upper_hex (of_char c mod 16)]) s)"

end
