(* ===== verification/Go_UTF8.thy ===== *)
theory Go_UTF8
  imports Go_Text
begin

text \<open>
  UTF-8 as Go's \<^verbatim>\<open>unicode/utf8\<close> package decodes and encodes it, on strings of bytes. A \<^verbatim>\<open>range\<close>
  loop over a string, and every loop of \<^verbatim>\<open>encoding/json\<close>, walks over runes; a byte that starts
  no well-formed sequence counts as a rune of its own, the replacement character.
\<close>

section \<open>Decoding\<close>

abbreviation byte :: "char \<Rightarrow> nat" where
  "byte c \<equiv> of_char c"

definition byte_in :: "nat \<times> nat \<Rightarrow> char \<Rightarrow> bool" where
  "byte_in r c \<longleftrightarrow> fst r \<le> byte c \<and> byte c \<le> snd r"

text \<open>The ranges a first byte asks of the bytes after it; none for a byte that starts no sequence.\<close>

definition accept_ranges :: "nat \<Rightarrow> (nat \<times> nat) list option" where
  "accept_ranges b =
     (if b < 0x80 then Some []
      else if b < 0xC2 then None
      else if b < 0xE0 then Some [(0x80, 0xBF)]
      else if b = 0xE0 then Some [(0xA0, 0xBF), (0x80, 0xBF)]
      else if b = 0xED then Some [(0x80, 0x9F), (0x80, 0xBF)]
      else if b < 0xF0 then Some [(0x80, 0xBF), (0x80, 0xBF)]
      else if b = 0xF0 then Some [(0x90, 0xBF), (0x80, 0xBF), (0x80, 0xBF)]
      else if b < 0xF4 then Some [(0x80, 0xBF), (0x80, 0xBF), (0x80, 0xBF)]
      else if b = 0xF4 then Some [(0x80, 0x8F), (0x80, 0xBF), (0x80, 0xBF)]
      else None)"

text \<open>
  The length of the well-formed sequence at the start of a string; 0 where
  \<^verbatim>\<open>utf8.DecodeRune\<close> reports an error.
\<close>

fun rune_size :: "string \<Rightarrow> nat" where
  "rune_size [] = 0"
| "rune_size (c # cs) =
     (case accept_ranges (byte c) of
        None \<Rightarrow> 0
      | Some rs \<Rightarrow> if list_all2 byte_in rs (take (length rs) cs) then Suc (length rs) else 0)"

text \<open>The pieces a loop over the runes of a string visits.\<close>

declare rune_size.simps [simp del]

fun runes :: "string \<Rightarrow> string list" where
  "runes [] = []"
| "runes (c # cs) =
     (let n = rune_size (c # cs) - 1 in (c # take n cs) # runes (drop n cs))"

definition well_formed :: "string \<Rightarrow> bool" where
  "well_formed r \<longleftrightarrow> r \<noteq> [] \<and> rune_size r = length r"

text \<open>\<^verbatim>\<open>utf8.ValidString\<close>\<close>

definition valid_utf8 :: "string \<Rightarrow> bool" where
  "valid_utf8 s \<longleftrightarrow> list_all well_formed (runes s)"

definition replacement :: string where
  "replacement = [CHR 0xEF, CHR 0xBF, CHR 0xBD]"

text \<open>A string with every byte that is not part of a well-formed sequence replaced.\<close>

definition coerce_utf8 :: "string \<Rightarrow> string" where
  "coerce_utf8 s = concat (map (\<lambda>r. if well_formed r then r else replacement) (runes s))"

section \<open>Encoding\<close>

text \<open>\<^verbatim>\<open>utf8.AppendRune\<close>; surrogates and values beyond the last code point give the replacement.\<close>

definition encode_rune :: "nat \<Rightarrow> string" where
  "encode_rune r =
     (if r < 0x80 then [char_of r]
      else if r < 0x800 then [char_of (0xC0 + r div 64), char_of (0x80 + r mod 64)]
      else if 0xD800 \<le> r \<and> r \<le> 0xDFFF \<or> 0x10FFFF < r then replacement
      else if r < 0x10000
      then [char_of (0xE0 + r div 4096), char_of (0x80 + r div 64 mod 64), char_of (0x80 + r mod 64)]
      else [char_of (0xF0 + r div 262144), char_of (0x80 + r div 4096 mod 64),
            char_of (0x80 + r div 64 mod 64), char_of (0x80 + r mod 64)])"

section \<open>Facts\<close>

lemma rune_size_le: "rune_size s \<le> length s"
  by (cases s) (auto simp: rune_size.simps dest: list_all2_lengthD split: option.split)

lemma rune_size_take:
  assumes "rune_size s \<noteq> 0"
  shows "rune_size (take (rune_size s) s @ t) = rune_size s"
proof (cases s)
  case (Cons c cs)
  with assms obtain rs where "accept_ranges (byte c) = Some rs" "list_all2 byte_in rs (take (length rs) cs)"
    by (auto simp: rune_size.simps split: option.splits if_splits)
  moreover from this have "length rs \<le> length cs" by (auto dest: list_all2_lengthD)
  ultimately show ?thesis using Cons by (simp add: rune_size.simps)
qed (use assms in \<open>simp add: rune_size.simps\<close>)

lemma rune_size_prefix: "well_formed r \<Longrightarrow> rune_size (r @ t) = length r"
  using rune_size_take [of r t] by (auto simp: well_formed_def)

lemma accept_ranges_ascii: "accept_ranges (byte c) = Some [] \<longleftrightarrow> byte c < 0x80"
  by (auto simp: accept_ranges_def)

lemma accept_ranges_continuation: "accept_ranges b = Some rs \<Longrightarrow> r \<in> set rs \<Longrightarrow> 0x80 \<le> b \<and> 0x80 \<le> fst r"
  by (auto simp: accept_ranges_def split: if_splits)

lemma well_formed_ascii [simp]: "well_formed [c] \<longleftrightarrow> byte c < 0x80"
  using accept_ranges_ascii [of c] by (auto simp: well_formed_def rune_size.simps split: option.split)

text \<open>All bytes of a longer sequence are outside ASCII.\<close>

lemma not_ascii_in_rune:
  assumes "well_formed r" and "1 < length r" and "c \<in> set r"
  shows "0x80 \<le> byte c"
proof -
  obtain d ds rs where r: "r = d # ds" and rs: "accept_ranges (byte d) = Some rs"
      and all: "list_all2 byte_in rs ds"
    using assms(1) by (cases r) (auto simp: well_formed_def rune_size.simps split: option.splits if_splits)
  have "0x80 \<le> byte c" if "c \<in> set ds"
  proof -
    from all that obtain a where "a \<in> set rs" "byte_in a c"
      by (metis in_set_conv_nth list_all2_conv_all_nth)
    with accept_ranges_continuation [OF rs] show ?thesis unfolding byte_in_def by (meson le_trans)
  qed
  moreover from all assms(2) r obtain a as where "rs = a # as" by (cases rs) auto
  with accept_ranges_continuation [OF rs, of a] have "0x80 \<le> byte d" by simp
  ultimately show ?thesis using assms(3) r by auto
qed

lemma runes_Nil_iff [simp]: "runes s = [] \<longleftrightarrow> s = []"
  by (cases s) (auto simp: Let_def)

lemma concat_runes [simp]: "concat (runes s) = s"
  by (induction s rule: runes.induct) (auto simp: Let_def)

lemma runes_well_formed:
  assumes "well_formed r"
  shows "runes (r @ t) = r # runes t"
proof -
  obtain c cs where r: "r = c # cs" using assms by (cases r) (auto simp: well_formed_def)
  have "rune_size (c # cs @ t) = Suc (length cs)" using rune_size_prefix [OF assms, of t] r by simp
  then show ?thesis unfolding r by (simp add: Let_def)
qed

lemma runes_ill_formed: "rune_size (c # cs) = 0 \<Longrightarrow> runes (c # cs) = [c] # runes cs"
  by (simp add: Let_def)

text \<open>A string is empty, or starts with a well-formed rune, or starts with a byte that is none.\<close>

lemma runes_cases [case_names Nil rune bad]:
  obtains "s = []" | r t where "s = r @ t" "well_formed r" "runes s = r # runes t"
    | c t where "s = c # t" "rune_size (c # t) = 0" "runes s = [c] # runes t" "\<not> well_formed [c]"
proof (cases s)
  case (Cons c cs)
  show thesis
  proof (cases "rune_size s = 0")
    case True
    moreover have "\<not> byte c < 0x80" using True Cons accept_ranges_ascii [of c] by (auto simp: rune_size.simps)
    ultimately show thesis using that(3) [of c cs] Cons runes_ill_formed by simp
  next
    case False
    let ?r = "take (rune_size s) s"
    have "well_formed ?r"
      using rune_size_take [OF False, of "[]"] rune_size_le [of s] False by (auto simp: well_formed_def min_def)
    with runes_well_formed [OF this, of "drop (rune_size s) s"] that(2) [of ?r "drop (rune_size s) s"]
    show thesis by simp
  qed
qed (use that in simp)

lemma runes_induct [case_names Nil rune bad]:
  assumes "P []" and "\<And>r t. well_formed r \<Longrightarrow> P t \<Longrightarrow> P (r @ t)"
    and "\<And>c t. rune_size (c # t) = 0 \<Longrightarrow> \<not> well_formed [c] \<Longrightarrow> P t \<Longrightarrow> P (c # t)"
  shows "P s"
proof (induction s rule: length_induct)
  case (1 s)
  show ?case
  proof (cases rule: runes_cases [of s])
    case Nil
    with assms(1) show ?thesis by simp
  next
    case (rune r t)
    then have "length t < length s" by (auto simp: well_formed_def)
    with 1 rune assms(2) show ?thesis by simp
  next
    case (bad c t)
    with 1 assms(3) show ?thesis by simp
  qed
qed

lemma valid_utf8_Nil [simp]: "valid_utf8 []"
  by (simp add: valid_utf8_def)

lemma coerce_utf8_Nil [simp]: "coerce_utf8 [] = []"
  by (simp add: coerce_utf8_def)

lemma valid_utf8_rune [simp]: "well_formed r \<Longrightarrow> valid_utf8 (r @ t) \<longleftrightarrow> valid_utf8 t"
  by (simp add: valid_utf8_def runes_well_formed)

lemma coerce_utf8_rune: "well_formed r \<Longrightarrow> coerce_utf8 (r @ t) = r @ coerce_utf8 t"
  by (simp add: coerce_utf8_def runes_well_formed)

lemma valid_utf8_bad: "rune_size (c # t) = 0 \<Longrightarrow> \<not> well_formed [c] \<Longrightarrow> \<not> valid_utf8 (c # t)"
  by (simp add: valid_utf8_def runes_ill_formed del: well_formed_ascii)

lemma coerce_utf8_bad:
  "rune_size (c # t) = 0 \<Longrightarrow> \<not> well_formed [c] \<Longrightarrow> coerce_utf8 (c # t) = replacement @ coerce_utf8 t"
  by (simp add: coerce_utf8_def runes_ill_formed del: well_formed_ascii)

lemma coerce_valid [simp]: "valid_utf8 s \<Longrightarrow> coerce_utf8 s = s"
  by (induction s rule: runes_induct) (simp_all add: coerce_utf8_rune valid_utf8_bad)

lemma well_formed_replacement [simp]: "well_formed replacement"
  by (simp add: well_formed_def replacement_def rune_size.simps accept_ranges_def byte_in_def)

lemma valid_coerce [simp]: "valid_utf8 (coerce_utf8 s)"
  by (induction s rule: runes_induct) (simp_all add: coerce_utf8_rune coerce_utf8_bad)

lemma valid_utf8_append: "valid_utf8 s \<Longrightarrow> valid_utf8 (s @ t) \<longleftrightarrow> valid_utf8 t"
proof (induction s rule: runes_induct)
  case (bad c u)
  with valid_utf8_bad show ?case by blast
qed simp_all

lemma ascii_valid_utf8: "list_all (\<lambda>c. byte c < 0x80) s \<Longrightarrow> valid_utf8 s"
proof (induction s)
  case (Cons c s)
  then show ?case using valid_utf8_rune [of "[c]" s] by simp
qed simp

section \<open>Quoting\<close>

text \<open>
  \<^verbatim>\<open>%q\<close> on any bytes: a byte that is no UTF-8 is written in hexadecimal, and so are the runes of
  Latin-1 that are not printable, the controls, the no-break space and the soft hyphen. The
  runes beyond Latin-1 are taken for printable.
\<close>

definition quote_rune :: "string \<Rightarrow> string" where
  "quote_rune r =
     (case r of
        [c] \<Rightarrow> if byte c < 0x80 then quote_char c else hex_escape (byte c)
      | [a, b] \<Rightarrow>
          if a = CHR 0xC2 \<and> (byte b \<le> 0xA0 \<or> byte b = 0xAD)
          then [CHR 0x5C, CHR ''u'', CHR ''0'', CHR ''0'', hex_digit (byte b div 16), hex_digit (byte b mod 16)]
          else r
      | _ \<Rightarrow> r)"

definition go_quote :: "string \<Rightarrow> string" where
  "go_quote s = [CHR 0x22] @ concat (map quote_rune (runes s)) @ [CHR 0x22]"

end
