(* ===== verification/Applications.thy ===== *)
theory Applications
  imports Go_UTF8
begin

text \<open>
  The Application resource of \<^verbatim>\<open>internal/applications\<close>: the domain model and its validation
  (\<^verbatim>\<open>application.go\<close>) and the lifecycle state machine (\<^verbatim>\<open>status.go\<close>). \<^verbatim>\<open>time.Now\<close> and
  \<^verbatim>\<open>uuid.NewString\<close> are arguments of the operations that call them. The lemmas characterise
  the name pattern and \<^verbatim>\<open>Validate\<close>, show that validity is an invariant of the lifecycle, and
  describe which states a run of transitions can visit.
\<close>

section \<open>Data\<close>

type_synonym ID = string
type_synonym Runtime = string
type_synonym Status = string

definition ErrEmptyID :: error where
  "ErrEmptyID = New ''applications.ErrEmptyID'' ''application id must not be empty''"

definition ID_Validate :: "ID \<Rightarrow> error option" where
  "ID_Validate i = (if i = '''' then Some ErrEmptyID else None)"

definition ID_String :: "ID \<Rightarrow> string" where
  "ID_String i = i"

definition RuntimeDocker :: Runtime where
  "RuntimeDocker = ''docker''"

definition ErrEmptyRuntime :: error where
  "ErrEmptyRuntime = New ''applications.ErrEmptyRuntime'' ''runtime must not be empty''"

definition Runtime_Validate :: "Runtime \<Rightarrow> error option" where
  "Runtime_Validate r = (if r = '''' then Some ErrEmptyRuntime else None)"

record SourceRepository =
  repo_URL :: string
  repo_Branch :: string

record SecretRef =
  ref_EnvVar :: string
  ref_SecretName :: string

record Volume =
  vol_HostPath :: string
  vol_ContainerPath :: string
  vol_ReadOnly :: bool

record Application =
  app_ID :: ID
  app_UserID :: string
  app_Name :: string
  app_Runtime :: Runtime
  app_Repository :: "SourceRepository option"
  app_EnvironmentVariables :: "(string, string) fmap"
  app_SecretRefs :: "SecretRef list"
  app_Volumes :: "Volume list"
  app_Domains :: "string list"
  app_Status :: Status
  app_CreatedAt :: Time
  app_UpdatedAt :: Time

definition ErrEmptyUserID :: error where
  "ErrEmptyUserID = New ''applications.ErrEmptyUserID'' ''user id must not be empty''"

definition ErrEmptyName :: error where
  "ErrEmptyName = New ''applications.ErrEmptyName'' ''name must not be empty''"

definition ErrInvalidName :: error where
  "ErrInvalidName = New ''applications.ErrInvalidName''
     ''name must be lowercase alphanumeric characters and hyphens, and must not start or end with a hyphen''"

definition ErrInvalidStatus :: error where
  "ErrInvalidStatus = New ''applications.ErrInvalidStatus'' ''invalid application status''"

definition ErrEmptyEnvVarName :: error where
  "ErrEmptyEnvVarName = New ''applications.ErrEmptyEnvVarName'' ''environment variable name must not be empty''"

definition ErrInvalidSecretRef :: error where
  "ErrInvalidSecretRef = New ''applications.ErrInvalidSecretRef''
     ''secret reference must have both an env var and a secret name''"

definition ErrInvalidVolume :: error where
  "ErrInvalidVolume = New ''applications.ErrInvalidVolume''
     ''volume must have both a host path and a container path''"

definition ErrInvalidDomain :: error where
  "ErrInvalidDomain = New ''applications.ErrInvalidDomain'' ''domain must not be empty''"

lemmas app_errors [go_defs] =
  ErrEmptyID_def ErrEmptyRuntime_def ErrEmptyUserID_def ErrEmptyName_def ErrInvalidName_def
  ErrInvalidStatus_def ErrEmptyEnvVarName_def ErrInvalidSecretRef_def ErrInvalidVolume_def
  ErrInvalidDomain_def

section \<open>The name pattern\<close>

text \<open>
  The regular expressions the package needs: a byte class given by ranges, concatenation,
  an optional group and a bounded repetition \<^verbatim>\<open>{0,n}\<close>. \<open>re_rest r s\<close> lists what can remain of
  \<open>s\<close> after a prefix that matches \<open>r\<close>; with the anchors \<^verbatim>\<open>^\<close> and \<^verbatim>\<open>$\<close> the string matches when
  nothing can remain. The classes hold ASCII only, so matching bytes is matching runes.
\<close>

datatype re = Class "(char \<times> char) list" | Cat re re | Opt re | UpTo re nat

definition in_class :: "(char \<times> char) list \<Rightarrow> char \<Rightarrow> bool" where
  "in_class rs c =
     list_ex (\<lambda>(lo, hi). (of_char lo :: nat) \<le> of_char c \<and> (of_char c :: nat) \<le> of_char hi) rs"

primrec rep_rest :: "(string \<Rightarrow> string list) \<Rightarrow> nat \<Rightarrow> string \<Rightarrow> string list" where
  "rep_rest f 0 s = [s]"
| "rep_rest f (Suc n) s = s # concat (map (rep_rest f n) (f s))"

fun class_rest :: "(char \<times> char) list \<Rightarrow> string \<Rightarrow> string list" where
  "class_rest rs [] = []"
| "class_rest rs (c # cs) = (if in_class rs c then [cs] else [])"

primrec re_rest :: "re \<Rightarrow> string \<Rightarrow> string list" where
  "re_rest (Class rs) = class_rest rs"
| "re_rest (Cat r q) = (\<lambda>s. concat (map (re_rest q) (re_rest r s)))"
| "re_rest (Opt r) = (\<lambda>s. s # re_rest r s)"
| "re_rest (UpTo r n) = rep_rest (re_rest r) n"

definition MatchString :: "re \<Rightarrow> string \<Rightarrow> bool" where
  "MatchString r s = List.member (re_rest r s) []"

definition lower_alnum :: "(char \<times> char) list" where
  "lower_alnum = [(CHR ''a'', CHR ''z''), (CHR ''0'', CHR ''9'')]"

definition lower_alnum_dash :: "(char \<times> char) list" where
  "lower_alnum_dash = [(CHR ''a'', CHR ''z''), (CHR ''0'', CHR ''9''), (CHR ''-'', CHR ''-'')]"

definition nameRE :: re where
  "nameRE =
     Cat (Class lower_alnum) (Opt (Cat (UpTo (Class lower_alnum_dash) 61) (Class lower_alnum)))"

section \<open>Statuses\<close>

definition StatusCreated :: Status where "StatusCreated = ''created''"
definition StatusPending :: Status where "StatusPending = ''pending''"
definition StatusBuilding :: Status where "StatusBuilding = ''building''"
definition StatusDeploying :: Status where "StatusDeploying = ''deploying''"
definition StatusRunning :: Status where "StatusRunning = ''running''"
definition StatusStopped :: Status where "StatusStopped = ''stopped''"
definition StatusFailed :: Status where "StatusFailed = ''failed''"

lemmas status_defs =
  StatusCreated_def StatusPending_def StatusBuilding_def StatusDeploying_def
  StatusRunning_def StatusStopped_def StatusFailed_def

definition ErrInvalidTransition :: error where
  "ErrInvalidTransition = New ''applications.ErrInvalidTransition'' ''invalid application status transition''"

definition allowedTransitions :: "(Status, Status list) fmap" where
  "allowedTransitions = fmap_of_list
     [(StatusCreated, [StatusPending]),
      (StatusPending, [StatusBuilding, StatusFailed]),
      (StatusBuilding, [StatusDeploying, StatusFailed]),
      (StatusDeploying, [StatusRunning, StatusFailed]),
      (StatusRunning, [StatusStopped, StatusFailed]),
      (StatusStopped, [StatusPending, StatusFailed]),
      (StatusFailed, [StatusPending])]"

definition Status_valid :: "Status \<Rightarrow> bool" where
  "Status_valid s = (fmlookup allowedTransitions s \<noteq> None)"

text \<open>A missing key of a Go map reads as the zero value, here the empty slice.\<close>

definition CanTransitionTo :: "Application \<Rightarrow> Status \<Rightarrow> bool" where
  "CanTransitionTo a target =
     (case fmlookup allowedTransitions (app_Status a) of
        None \<Rightarrow> False
      | Some ss \<Rightarrow> list_ex (\<lambda>s. s = target) ss)"

definition TransitionTo :: "Time \<Rightarrow> Status \<Rightarrow> Application \<Rightarrow> error option \<times> Application" where
  "TransitionTo now target a =
     (if \<not> CanTransitionTo a target
      then (Some (Wrapf '''' ErrInvalidTransition ('': '' @ app_Status a @ '' -> '' @ target)), a)
      else (None, a\<lparr>app_Status := target, app_UpdatedAt := now\<rparr>))"

section \<open>Validation and construction\<close>

definition Application_Validate :: "Application \<Rightarrow> error option" where
  "Application_Validate a =
     (case ID_Validate (app_ID a) of Some err \<Rightarrow> Some err | None \<Rightarrow>
      if app_UserID a = '''' then Some ErrEmptyUserID
      else if app_Name a = '''' then Some ErrEmptyName
      else if \<not> MatchString nameRE (app_Name a) then Some ErrInvalidName
      else case Runtime_Validate (app_Runtime a) of Some err \<Rightarrow> Some err | None \<Rightarrow>
      if \<not> Status_valid (app_Status a)
      then Some (Wrapf '''' ErrInvalidStatus ('': '' @ go_quote (app_Status a)))
      else if '''' |\<in>| fmdom (app_EnvironmentVariables a) then Some ErrEmptyEnvVarName
      else case first_error
             (\<lambda>ref. if ref_EnvVar ref = '''' \<or> ref_SecretName ref = ''''
                    then Some ErrInvalidSecretRef else None) (app_SecretRefs a)
           of Some err \<Rightarrow> Some err | None \<Rightarrow>
      case first_error
             (\<lambda>v. if vol_HostPath v = '''' \<or> vol_ContainerPath v = ''''
                  then Some ErrInvalidVolume else None) (app_Volumes a)
           of Some err \<Rightarrow> Some err | None \<Rightarrow>
      first_error (\<lambda>d. if d = '''' then Some ErrInvalidDomain else None) (app_Domains a))"

definition zero_Application :: Application where
  "zero_Application =
     \<lparr>app_ID = '''', app_UserID = '''', app_Name = '''', app_Runtime = '''',
      app_Repository = None, app_EnvironmentVariables = fmempty, app_SecretRefs = [],
      app_Volumes = [], app_Domains = [], app_Status = '''', app_CreatedAt = 0, app_UpdatedAt = 0\<rparr>"

definition NewApplication ::
  "string \<Rightarrow> Time \<Rightarrow> string \<Rightarrow> string \<Rightarrow> Runtime \<Rightarrow> Application \<times> error option" where
  "NewApplication newID now userID name rt =
     (let app = \<lparr>app_ID = newID, app_UserID = userID, app_Name = name, app_Runtime = rt,
                 app_Repository = None, app_EnvironmentVariables = fmempty, app_SecretRefs = [],
                 app_Volumes = [], app_Domains = [], app_Status = StatusCreated,
                 app_CreatedAt = now, app_UpdatedAt = now\<rparr>
      in case Application_Validate app of
           Some err \<Rightarrow> (zero_Application, Some err)
         | None \<Rightarrow> (app, None))"

section \<open>The name pattern, characterised\<close>

definition alnum_chars :: string where
  "alnum_chars = ''abcdefghijklmnopqrstuvwxyz0123456789''"

lemma of_char_alnum: "(of_char ` set alnum_chars :: nat set) = {97..<123} \<union> {48..<58}"
proof -
  have "map of_char alnum_chars = [97..<123] @ [48..<58 :: nat]"
    by (simp add: alnum_chars_def upt_rec_numeral)
  then have "set (map of_char alnum_chars) = set ([97..<123] @ [48..<58 :: nat])"
    by (simp only:)
  then show ?thesis by (simp only: set_map set_append set_upt)
qed

lemma in_class_lower_alnum: "in_class lower_alnum c \<longleftrightarrow> c \<in> set alnum_chars"
proof -
  have "(of_char c :: nat) \<in> of_char ` set alnum_chars \<longleftrightarrow> c \<in> set alnum_chars"
    by (simp add: inj_image_mem_iff inj_of_char)
  then show ?thesis by (auto simp: of_char_alnum in_class_def lower_alnum_def)
qed

lemma in_class_lower_alnum_dash:
  "in_class lower_alnum_dash c \<longleftrightarrow> c \<in> insert (CHR ''-'') (set alnum_chars)"
proof -
  have "in_class lower_alnum_dash c \<longleftrightarrow> in_class lower_alnum c \<or> (of_char c :: nat) = of_char CHR ''-''"
    by (auto simp: in_class_def lower_alnum_dash_def lower_alnum_def)
  then show ?thesis by (simp only: in_class_lower_alnum of_char_eq_iff) auto
qed
lemma class_rest_iff: "t \<in> set (class_rest rs s) \<longleftrightarrow> (\<exists>c. s = c # t \<and> in_class rs c)"
  by (cases s) auto

lemma rep_rest_class:
  "t \<in> set (rep_rest (class_rest rs) n s) \<longleftrightarrow>
     (\<exists>u. s = u @ t \<and> length u \<le> n \<and> list_all (in_class rs) u)"
proof (induction n arbitrary: s)
  case (Suc n)
  show ?case
  proof (cases s)
    case (Cons c cs)
    then have "t \<in> set (rep_rest (class_rest rs) (Suc n) s) \<longleftrightarrow>
        t = s \<or> in_class rs c \<and> (\<exists>u. cs = u @ t \<and> length u \<le> n \<and> list_all (in_class rs) u)"
      using Suc.IH by auto
    also have "\<dots> \<longleftrightarrow> (\<exists>u. s = u @ t \<and> length u \<le> Suc n \<and> list_all (in_class rs) u)"
      unfolding Cons by (auto simp: Cons_eq_append_conv)
    finally show ?thesis .
  qed auto
qed auto

definition is_slug :: "string \<Rightarrow> bool" where
  "is_slug s \<longleftrightarrow>
     1 \<le> length s \<and> length s \<le> 63 \<and> set s \<subseteq> insert (CHR ''-'') (set alnum_chars) \<and>
     hd s \<noteq> CHR ''-'' \<and> last s \<noteq> CHR ''-''"

lemma dash_not_alnum: "CHR ''-'' \<notin> set alnum_chars"
  by (simp add: alnum_chars_def)

lemma MatchString_nameRE: "MatchString nameRE s \<longleftrightarrow> is_slug s"
proof -
  have "MatchString nameRE s \<longleftrightarrow>
      (\<exists>c t. s = c # t \<and> c \<in> set alnum_chars \<and>
        (t = [] \<or> (\<exists>u d. t = u @ [d] \<and> length u \<le> 61 \<and>
           set u \<subseteq> insert (CHR ''-'') (set alnum_chars) \<and> d \<in> set alnum_chars)))"
    by (auto simp: MatchString_def nameRE_def class_rest_iff rep_rest_class Bex_def
        in_class_lower_alnum in_class_lower_alnum_dash list_all_iff subset_iff)
  also have "\<dots> \<longleftrightarrow> is_slug s"
  proof (cases s)
    case (Cons c t)
    then show ?thesis
      by (cases t rule: rev_cases) (use dash_not_alnum in \<open>auto simp: is_slug_def\<close>)
  qed (simp add: is_slug_def)
  finally show ?thesis .
qed

section \<open>Well-formed applications\<close>

text \<open>What \<^verbatim>\<open>Validate\<close> promises, stated without its order of checks.\<close>

definition app_wf :: "Application \<Rightarrow> bool" where
  "app_wf a \<longleftrightarrow>
     app_ID a \<noteq> '''' \<and> app_UserID a \<noteq> '''' \<and> is_slug (app_Name a) \<and> app_Runtime a \<noteq> '''' \<and>
     Status_valid (app_Status a) \<and>
     fmlookup (app_EnvironmentVariables a) '''' = None \<and>
     (\<forall>ref \<in> set (app_SecretRefs a). ref_EnvVar ref \<noteq> '''' \<and> ref_SecretName ref \<noteq> '''') \<and>
     (\<forall>v \<in> set (app_Volumes a). vol_HostPath v \<noteq> '''' \<and> vol_ContainerPath v \<noteq> '''') \<and>
     '''' \<notin> set (app_Domains a)"

lemma is_slug_nonempty: "is_slug s \<Longrightarrow> s \<noteq> ''''"
  by (auto simp: is_slug_def)

lemma Application_Validate_None_iff: "Application_Validate a = None \<longleftrightarrow> app_wf a"
  by (auto simp: Application_Validate_def app_wf_def ID_Validate_def Runtime_Validate_def
      MatchString_nameRE fmlookup_dom_iff is_slug_nonempty)

section \<open>The state machine\<close>

definition app_edges :: "(Status \<times> Status) list" where
  "app_edges =
     [(StatusCreated, StatusPending),
      (StatusPending, StatusBuilding), (StatusPending, StatusFailed),
      (StatusBuilding, StatusDeploying), (StatusBuilding, StatusFailed),
      (StatusDeploying, StatusRunning), (StatusDeploying, StatusFailed),
      (StatusRunning, StatusStopped), (StatusRunning, StatusFailed),
      (StatusStopped, StatusPending), (StatusStopped, StatusFailed),
      (StatusFailed, StatusPending)]"

lemma status_distinct:
  "distinct [StatusCreated, StatusPending, StatusBuilding, StatusDeploying, StatusRunning,
     StatusStopped, StatusFailed]"
  by (simp add: status_defs)

lemma status_distinct_rev:
  "distinct [StatusFailed, StatusStopped, StatusRunning, StatusDeploying, StatusBuilding,
     StatusPending, StatusCreated]"
  by (simp add: status_defs)

lemmas status_neqs [simp] =
  status_distinct [unfolded distinct.simps list.set insert_iff empty_iff de_Morgan_disj not_False_eq_True simp_thms]
  status_distinct_rev [unfolded distinct.simps list.set insert_iff empty_iff de_Morgan_disj not_False_eq_True simp_thms]

lemma fmlookup_allowed:
  "fmlookup allowedTransitions s =
     (if s = StatusCreated then Some [StatusPending]
      else if s = StatusPending then Some [StatusBuilding, StatusFailed]
      else if s = StatusBuilding then Some [StatusDeploying, StatusFailed]
      else if s = StatusDeploying then Some [StatusRunning, StatusFailed]
      else if s = StatusRunning then Some [StatusStopped, StatusFailed]
      else if s = StatusStopped then Some [StatusPending, StatusFailed]
      else if s = StatusFailed then Some [StatusPending] else None)"
  unfolding allowedTransitions_def fmlookup_of_list by simp

lemma CanTransitionTo_iff: "CanTransitionTo a t \<longleftrightarrow> (app_Status a, t) \<in> set app_edges"
  by (simp add: CanTransitionTo_def app_edges_def fmlookup_allowed) blast

lemma Status_valid_iff:
  "Status_valid s \<longleftrightarrow> s \<in> {StatusCreated, StatusPending, StatusBuilding, StatusDeploying,
     StatusRunning, StatusStopped, StatusFailed}"
  by (simp add: Status_valid_def fmlookup_allowed)

text \<open>One successful call of \<^verbatim>\<open>TransitionTo\<close>; the label is the target and the time of the call.\<close>

inductive app_step :: "Application \<Rightarrow> Status \<times> Time \<Rightarrow> Application \<Rightarrow> bool" where
  app_stepI: "TransitionTo now target a = (None, b) \<Longrightarrow> app_step a (target, now) b"

inductive_simps app_step_iff: "app_step a (target, now) b"

lemma TransitionTo_ok_iff:
  "TransitionTo now t a = (None, b) \<longleftrightarrow>
     (app_Status a, t) \<in> set app_edges \<and> b = a\<lparr>app_Status := t, app_UpdatedAt := now\<rparr>"
  by (auto simp: TransitionTo_def CanTransitionTo_iff)

lemma app_step_edge:
  "app_step a (t, now) b \<longleftrightarrow>
     (app_Status a, t) \<in> set app_edges \<and> b = a\<lparr>app_Status := t, app_UpdatedAt := now\<rparr>"
  by (simp add: app_step_iff TransitionTo_ok_iff)

lemma edge_valid: "(s, t) \<in> set app_edges \<Longrightarrow> Status_valid s \<and> Status_valid t"
  by (auto simp: app_edges_def Status_valid_iff)

text \<open>Every status but \<^verbatim>\<open>created\<close> and \<^verbatim>\<open>pending\<close> and \<^verbatim>\<open>failed\<close> has one way in.\<close>

lemma edge_into:
  "(s, StatusRunning) \<in> set app_edges \<Longrightarrow> s = StatusDeploying"
  "(s, StatusDeploying) \<in> set app_edges \<Longrightarrow> s = StatusBuilding"
  "(s, StatusBuilding) \<in> set app_edges \<Longrightarrow> s = StatusPending"
  "(s, StatusStopped) \<in> set app_edges \<Longrightarrow> s = StatusRunning"
  "(s, StatusCreated) \<notin> set app_edges"
  by (auto simp: app_edges_def)

lemma run_app_last:
  assumes "run app_step a es b" and "app_Status b \<noteq> app_Status a"
  obtains es' now m where "es = es' @ [(app_Status b, now)]" "run app_step a es' m"
    "(app_Status m, app_Status b) \<in> set app_edges"
proof (cases es rule: rev_cases)
  case Nil
  with assms show ?thesis by auto
next
  case (snoc es' e)
  with assms obtain m where m: "run app_step a es' m" "app_step m e b"
    by (auto simp: run_append run_Cons_iff)
  obtain t now where e: "e = (t, now)" by (cases e)
  with m(2) have "(app_Status m, t) \<in> set app_edges" "app_Status b = t"
    by (auto simp: app_step_edge)
  with snoc e m(1) show ?thesis by (intro that [of es' now m]) auto
qed

text \<open>The fields a transition never writes.\<close>

definition same_spec :: "Application \<Rightarrow> Application \<Rightarrow> bool" where
  "same_spec a b \<longleftrightarrow>
     b = a\<lparr>app_Status := app_Status b, app_UpdatedAt := app_UpdatedAt b\<rparr>"

lemma run_app_same_spec: "run app_step a es b \<Longrightarrow> same_spec a b"
proof (induction rule: run.induct)
  case (run_Nil s)
  show ?case by (simp add: same_spec_def)
next
  case (run_Cons s e t es u)
  obtain x now where "e = (x, now)" by (cases e)
  with run_Cons show ?case
    by (auto simp: same_spec_def app_step_edge)
qed

lemma app_wf_transition:
  "app_wf a \<Longrightarrow> Status_valid t \<Longrightarrow> app_wf (a\<lparr>app_Status := t, app_UpdatedAt := now\<rparr>)"
  by (simp add: app_wf_def)

lemma app_step_wf: "app_wf a \<Longrightarrow> app_step a e b \<Longrightarrow> app_wf b"
  by (cases e) (auto simp: app_step_edge app_wf_transition dest: edge_valid)

text \<open>The shortest way up from each status.\<close>

lemma edges_up [simp]:
  "(StatusCreated, StatusPending) \<in> set app_edges"
  "(StatusPending, StatusBuilding) \<in> set app_edges"
  "(StatusBuilding, StatusDeploying) \<in> set app_edges"
  "(StatusDeploying, StatusRunning) \<in> set app_edges"
  "(StatusRunning, StatusStopped) \<in> set app_edges"
  "(StatusStopped, StatusPending) \<in> set app_edges"
  "(StatusFailed, StatusPending) \<in> set app_edges"
  by (simp_all add: app_edges_def)

lemma run_app_Cons:
  "run app_step a ((t, now) # es) b \<longleftrightarrow>
     (app_Status a, t) \<in> set app_edges \<and>
     run app_step (a\<lparr>app_Status := t, app_UpdatedAt := now\<rparr>) es b"
  by (auto simp: run_Cons_iff app_step_edge)

definition way_up :: "Status \<Rightarrow> Status list" where
  "way_up s =
     (if s = StatusRunning then []
      else if s = StatusDeploying then [StatusRunning]
      else if s = StatusBuilding then [StatusDeploying, StatusRunning]
      else if s = StatusPending then [StatusBuilding, StatusDeploying, StatusRunning]
      else [StatusPending, StatusBuilding, StatusDeploying, StatusRunning])"

lemma run_way_up:
  assumes "Status_valid (app_Status a)"
  shows "\<exists>b. run app_step a (map (\<lambda>t. (t, now)) (way_up (app_Status a))) b \<and>
    app_Status b = StatusRunning"
  using assms by (auto simp: Status_valid_iff way_up_def run_app_Cons)

section \<open>Properties\<close>

text \<open>
  \<^bold>\<open>C26.\<close> An application never reaches \<^verbatim>\<open>running\<close> except through a full deployment: every run of
  successful \<^verbatim>\<open>TransitionTo\<close> calls that starts in \<^verbatim>\<open>created\<close> and ends in \<^verbatim>\<open>running\<close> ends with the
  transitions to \<^verbatim>\<open>pending\<close>, \<^verbatim>\<open>building\<close>, \<^verbatim>\<open>deploying\<close> and \<^verbatim>\<open>running\<close>, in this order.
\<close>

theorem running_after_full_deployment:
  assumes run: "run app_step a es b"
    and start: "app_Status a = StatusCreated" and stop: "app_Status b = StatusRunning"
  shows "\<exists>pre. map fst es = pre @ [StatusPending, StatusBuilding, StatusDeploying, StatusRunning]"
proof -
  obtain es1 n1 m1 where 1: "es = es1 @ [(StatusRunning, n1)]" "run app_step a es1 m1"
      "app_Status m1 = StatusDeploying"
    using run_app_last [OF run] start stop edge_into(1) status_neqs by metis
  obtain es2 n2 m2 where 2: "es1 = es2 @ [(StatusDeploying, n2)]" "run app_step a es2 m2"
      "app_Status m2 = StatusBuilding"
    using run_app_last [OF 1(2)] start 1(3) edge_into(2) status_neqs by metis
  obtain es3 n3 m3 where 3: "es2 = es3 @ [(StatusBuilding, n3)]" "run app_step a es3 m3"
      "app_Status m3 = StatusPending"
    using run_app_last [OF 2(2)] start 2(3) edge_into(3) status_neqs by metis
  obtain es4 n4 m4 where 4: "es3 = es4 @ [(StatusPending, n4)]"
    using run_app_last [OF 3(2)] start 3(3) status_neqs by metis
  show ?thesis by (simp add: 1(1) 2(1) 3(1) 4)
qed

definition demo_app :: Application where
  "demo_app = fst (NewApplication ''a1'' 5 ''u1'' ''my-api'' RuntimeDocker)"

lemma demo_app_fields:
  "app_wf demo_app" "app_Status demo_app = StatusCreated"
proof -
  have "MatchString nameRE ''my-api''"
    unfolding MatchString_nameRE by (simp add: is_slug_def alnum_chars_def)
  then show "app_Status demo_app = StatusCreated" "app_wf demo_app"
    by (simp_all add: demo_app_def NewApplication_def Application_Validate_def ID_Validate_def
        Runtime_Validate_def RuntimeDocker_def Status_valid_iff
        Application_Validate_None_iff [symmetric])
qed

theorem running_after_full_deployment_witness:
  "\<exists>b pre. run app_step demo_app
      [(StatusPending, 10), (StatusFailed, 20), (StatusPending, 30), (StatusBuilding, 40),
       (StatusDeploying, 50), (StatusRunning, 60)] b \<and>
    app_Status b = StatusRunning \<and>
    [StatusPending, StatusFailed, StatusPending, StatusBuilding, StatusDeploying, StatusRunning] =
      pre @ [StatusPending, StatusBuilding, StatusDeploying, StatusRunning]"
proof -
  let ?es = "[(StatusPending, 10), (StatusFailed, 20), (StatusPending, 30), (StatusBuilding, 40),
       (StatusDeploying, 50), (StatusRunning, 60)]"
  let ?b = "demo_app\<lparr>app_Status := StatusRunning, app_UpdatedAt := 60\<rparr>"
  have run: "run app_step demo_app ?es ?b"
    by (simp add: run_app_Cons demo_app_fields) (simp add: app_edges_def)
  have "app_Status ?b = StatusRunning" by simp
  with running_after_full_deployment [OF run demo_app_fields(2) this] run show ?thesis by auto
qed

text \<open>
  \<^bold>\<open>C27.\<close> Validity is an invariant of the lifecycle: from an application that passes \<^verbatim>\<open>Validate\<close>,
  every application reachable by successful \<^verbatim>\<open>TransitionTo\<close> calls passes \<^verbatim>\<open>Validate\<close> too, and
  differs from it only in its status and its update time.
\<close>

theorem lifecycle_keeps_validity:
  assumes "Application_Validate a = None" and "reachable app_step a b"
  shows "Application_Validate b = None \<and> same_spec a b"
proof -
  from assms(2) obtain es where run: "run app_step a es b" by (auto simp: reachable_def)
  from run assms(1) have "app_wf b"
    by (induction rule: run.induct) (auto simp: Application_Validate_None_iff intro: app_step_wf)
  with run_app_same_spec [OF run] show ?thesis by (simp add: Application_Validate_None_iff)
qed

theorem lifecycle_keeps_validity_witness:
  "Application_Validate (demo_app\<lparr>app_Status := StatusPending, app_UpdatedAt := 9\<rparr>) = None \<and>
   same_spec demo_app (demo_app\<lparr>app_Status := StatusPending, app_UpdatedAt := 9\<rparr>)"
proof -
  have "run app_step demo_app [(StatusPending, 9)]
      (demo_app\<lparr>app_Status := StatusPending, app_UpdatedAt := 9\<rparr>)"
    by (simp add: run_app_Cons demo_app_fields)
  from lifecycle_keeps_validity [OF _ reachableI [OF this]] show ?thesis
    by (simp add: Application_Validate_None_iff demo_app_fields)
qed

text \<open>
  \<^verbatim>\<open>TransitionTo\<close> is atomic: it succeeds exactly on the edges of the lifecycle diagram,
  setting the status and the update time and nothing else; otherwise it returns an error
  that is \<^verbatim>\<open>ErrInvalidTransition\<close> and leaves the application as it was. The edges include
  \<^verbatim>\<open>stopped\<close> to \<^verbatim>\<open>failed\<close>, which the diagram of the documentation does not draw.
\<close>

lemma transition_outcome:
  "TransitionTo now t a =
     (if (app_Status a, t) \<in>
           {(''created'', ''pending''), (''pending'', ''building''), (''pending'', ''failed''),
            (''building'', ''deploying''), (''building'', ''failed''), (''deploying'', ''running''),
            (''deploying'', ''failed''), (''running'', ''stopped''), (''running'', ''failed''),
            (''stopped'', ''pending''), (''stopped'', ''failed''), (''failed'', ''pending'')}
      then (None, a\<lparr>app_Status := t, app_UpdatedAt := now\<rparr>)
      else (Some (Wrapf '''' ErrInvalidTransition ('': '' @ app_Status a @ '' -> '' @ t)), a))"
proof -
  have "set app_edges =
      {(''created'', ''pending''), (''pending'', ''building''), (''pending'', ''failed''),
       (''building'', ''deploying''), (''building'', ''failed''), (''deploying'', ''running''),
       (''deploying'', ''failed''), (''running'', ''stopped''), (''running'', ''failed''),
       (''stopped'', ''pending''), (''stopped'', ''failed''), (''failed'', ''pending'')}"
    by (simp only: app_edges_def status_defs list.set)
  then show ?thesis by (simp only: TransitionTo_def CanTransitionTo_iff if_not_P not_not split: if_split) simp
qed

text \<open>
  \<^bold>\<open>C28.\<close> No application is stuck: from every application with a valid status there is a
  sequence of at most four successful transitions that ends in \<^verbatim>\<open>running\<close>.
\<close>

theorem running_always_possible:
  assumes "Application_Validate a = None"
  shows "\<exists>es b. run app_step a es b \<and> app_Status b = StatusRunning \<and> length es \<le> 4"
proof -
  have "Status_valid (app_Status a)"
    using assms by (simp add: Application_Validate_None_iff app_wf_def)
  from run_way_up [OF this, of 0] obtain b where
    "run app_step a (map (\<lambda>t. (t, 0)) (way_up (app_Status a))) b" "app_Status b = StatusRunning"
    by blast
  moreover have "length (way_up (app_Status a)) \<le> 4" by (simp add: way_up_def)
  ultimately show ?thesis by (metis length_map)
qed

theorem running_always_possible_witness:
  "\<exists>es b. run app_step demo_app es b \<and> app_Status b = StatusRunning \<and> length es \<le> 4"
  using running_always_possible [of demo_app] by (simp add: Application_Validate_None_iff demo_app_fields)

text \<open>
  \<^bold>\<open>C29.\<close> \<^verbatim>\<open>Validate\<close> accepts an application exactly when it is well formed: identifiers and
  runtime are set, the name is a slug of 1 to 63 lower-case letters, digits and hyphens
  with no hyphen at either end, the status is one of the seven, and every entry of the
  optional collections is complete.
\<close>

theorem validate_accepts_iff: "Application_Validate a = None \<longleftrightarrow> app_wf a"
  by (rule Application_Validate_None_iff)

text \<open>
  \<^verbatim>\<open>NewApplication\<close> never hands out an invalid application: it returns a valid application
  in \<^verbatim>\<open>created\<close>, owned by the given user and stamped with the time of the call, exactly when
  the identifier, the user, the name and the runtime are acceptable, and otherwise the zero
  application together with an error.
\<close>

lemma new_application_outcome:
  "(case NewApplication newID now userID name rt of (app, err) \<Rightarrow>
     if newID \<noteq> '''' \<and> userID \<noteq> '''' \<and> is_slug name \<and> rt \<noteq> ''''
     then err = None \<and> Application_Validate app = None \<and> app_Status app = StatusCreated \<and>
          app_ID app = newID \<and> app_UserID app = userID \<and> app_Name app = name \<and>
          app_Runtime app = rt \<and> app_CreatedAt app = now \<and> app_UpdatedAt app = now
     else err \<noteq> None \<and> app = zero_Application)"
proof -
  let ?app = "\<lparr>app_ID = newID, app_UserID = userID, app_Name = name, app_Runtime = rt,
      app_Repository = None, app_EnvironmentVariables = fmempty, app_SecretRefs = [],
      app_Volumes = [], app_Domains = [], app_Status = StatusCreated,
      app_CreatedAt = now, app_UpdatedAt = now\<rparr>"
  have "Application_Validate ?app = None \<longleftrightarrow> newID \<noteq> '''' \<and> userID \<noteq> '''' \<and> is_slug name \<and> rt \<noteq> ''''"
    by (simp add: Application_Validate_None_iff app_wf_def Status_valid_iff)
  then show ?thesis
    by (cases "Application_Validate ?app") (auto simp: NewApplication_def)
qed

end
