(* ===== verification/Go_Path.thy ===== *)
theory Go_Path
  imports Go_Text
begin

text \<open>
  The path functions of Go's standard library that the program calls, directly or through
  \<^verbatim>\<open>http.ServeMux\<close>: \<^verbatim>\<open>filepath.Join\<close> and \<^verbatim>\<open>Clean\<close> on Unix, and \<^verbatim>\<open>url.PathUnescape\<close>, the inverse of
  \<^verbatim>\<open>url.PathEscape\<close>.
\<close>

section \<open>Paths\<close>

text \<open>\<^verbatim>\<open>strings.Split\<close> with a one-byte separator.\<close>

fun split_on :: "char \<Rightarrow> string \<Rightarrow> string list" where
  "split_on sep [] = [[]]"
| "split_on sep (c # cs) =
     (if c = sep then [] # split_on sep cs
      else case split_on sep cs of [] \<Rightarrow> [[c]] | s # ss \<Rightarrow> (c # s) # ss)"

text \<open>The loop of \<^verbatim>\<open>filepath.Clean\<close> on Unix: the elements kept so far, innermost first.\<close>

fun clean_elems :: "bool \<Rightarrow> string list \<Rightarrow> string list \<Rightarrow> string list" where
  "clean_elems rooted acc [] = rev acc"
| "clean_elems rooted acc (e # es) =
     (if e = '''' \<or> e = ''.'' then clean_elems rooted acc es
      else if e = ''..'' then
        (case acc of
           [] \<Rightarrow> clean_elems rooted (if rooted then [] else [e]) es
         | a # as \<Rightarrow> clean_elems rooted (if a = ''..'' then e # acc else as) es)
      else clean_elems rooted (e # acc) es)"

definition join_slash :: "string list \<Rightarrow> string" where
  "join_slash es = concat (case es of [] \<Rightarrow> [] | x # xs \<Rightarrow> x # map (\<lambda>y. CHR ''/'' # y) xs)"

definition path_Clean :: "string \<Rightarrow> string" where
  "path_Clean p =
     (if p = '''' then ''.''
      else let rooted = (hd p = CHR ''/'');
               es = clean_elems rooted [] (split_on (CHR ''/'') p);
               r = (if rooted then ''/'' else '''') @ join_slash es in
           if r = '''' then ''.'' else r)"

text \<open>\<^verbatim>\<open>filepath.Join\<close>: the first non-empty element starts the path; only empty elements give nothing.\<close>

definition path_Join :: "string list \<Rightarrow> string" where
  "path_Join es =
     (case dropWhile (\<lambda>e. e = '''') es of
        [] \<Rightarrow> ''''
      | xs \<Rightarrow> path_Clean (join_slash xs))"

lemma path_Clean_nonempty: "path_Clean p \<noteq> ''''"
  by (simp add: path_Clean_def Let_def)

lemma path_Join_nonempty: "\<exists>e \<in> set es. e \<noteq> '''' \<Longrightarrow> path_Join es \<noteq> ''''"
  by (auto simp: path_Join_def path_Clean_nonempty split: list.splits)

lemma split_on_nonempty [simp]: "split_on sep s \<noteq> []"
  by (induction s) (auto split: list.splits)

lemma split_on_no_sep: "sep \<notin> set s \<Longrightarrow> split_on sep s = [s]"
  by (induction s) auto

lemma split_on_append: "sep \<notin> set a \<Longrightarrow> split_on sep (a @ sep # b) = a # split_on sep b"
  by (induction a) auto

lemma concat_split_on: "concat (map (\<lambda>e. CHR ''/'' # e) (split_on (CHR ''/'') s)) = CHR ''/'' # s"
proof (induction s)
  case (Cons c s)
  then show ?case by (cases "split_on (CHR ''/'') s") auto
qed simp

lemma join_slash_Cons: "CHR ''/'' # join_slash (e # es) = concat (map (\<lambda>y. CHR ''/'' # y) (e # es))"
  by (simp add: join_slash_def)

text \<open>A rooted path whose elements are all proper is clean already.\<close>

definition proper_elem :: "string \<Rightarrow> bool" where
  "proper_elem e \<longleftrightarrow> e \<noteq> '''' \<and> e \<noteq> ''.'' \<and> e \<noteq> ''..''"

lemma clean_elems_proper: "list_all proper_elem es \<Longrightarrow> clean_elems r acc es = rev acc @ es"
  by (induction es arbitrary: acc) (auto simp: proper_elem_def)

lemma path_Clean_proper:
  assumes "list_all proper_elem (split_on (CHR ''/'') s)"
  shows "path_Clean (CHR ''/'' # s) = CHR ''/'' # s"
proof -
  let ?es = "split_on (CHR ''/'') s"
  have "clean_elems True [] (split_on (CHR ''/'') (CHR ''/'' # s)) = ?es"
    using clean_elems_proper [OF assms, of True "[]"] by simp
  moreover have "CHR ''/'' # join_slash ?es = CHR ''/'' # s"
    using concat_split_on [of s] join_slash_Cons by (metis neq_Nil_conv split_on_nonempty)
  ultimately show ?thesis by (simp add: path_Clean_def Let_def)
qed

section \<open>Percent encoding\<close>

definition is_hex :: "char \<Rightarrow> bool" where
  "is_hex c = (let n = of_char c :: nat in (48 \<le> n \<and> n \<le> 57) \<or> (97 \<le> n \<and> n \<le> 102) \<or> (65 \<le> n \<and> n \<le> 70))"

definition unhex :: "char \<Rightarrow> nat" where
  "unhex c = (let n = of_char c in if n \<le> 57 then n - 48 else if n \<le> 70 then n - 55 else n - 87)"

text \<open>\<^verbatim>\<open>url.PathUnescape\<close>: a percent sign needs two hexadecimal digits, everything else is kept.\<close>

fun PathUnescape :: "string \<Rightarrow> string option" where
  "PathUnescape [] = Some []"
| "PathUnescape (c # cs) =
     (if c = CHR ''%'' then
        (case cs of
           a # b # ds \<Rightarrow>
             if is_hex a \<and> is_hex b
             then map_option (\<lambda>s. char_of (16 * unhex a + unhex b) # s) (PathUnescape ds) else None
         | _ \<Rightarrow> None)
      else map_option (\<lambda>s. c # s) (PathUnescape cs))"

lemma upper_hex_facts:
  "n < 16 \<Longrightarrow> unhex (upper_hex n) = n \<and> is_hex (upper_hex n) \<and>
     upper_hex n \<notin> {CHR ''/'', CHR ''?'', CHR ''#'', CHR ''%''}"
  by (auto simp: upper_hex_def unhex_def is_hex_def less_Suc_eq numeral_eq_Suc)

lemma char_nibbles: "(of_char c :: nat) div 16 < 16" "(of_char c :: nat) mod 16 < 16"
  using nat_of_char_less_256 [of c]
  by (simp_all only: less_mult_imp_div_less [of _ 16 16, simplified] mod_less_divisor zero_less_numeral)

lemma path_keep_char: "path_keep c \<Longrightarrow> c \<notin> {CHR ''%'', CHR ''/'', CHR ''?'', CHR ''#''}"
  by (auto simp: path_keep_def)

lemma path_escape_Cons:
  "path_escape (c # cs) =
     (if path_keep c then [c] else [CHR ''%'', upper_hex (of_char c div 16), upper_hex (of_char c mod 16)]) @
     path_escape cs"
  by (simp add: path_escape_def)

lemma path_escape_Nil [simp]: "path_escape [] = []"
  by (simp add: path_escape_def)

lemma PathUnescape_escape [simp]: "PathUnescape (path_escape s) = Some s"
proof (induction s)
  case (Cons c s)
  show ?case
  proof (cases "path_keep c")
    case True
    then have "c \<noteq> CHR ''%''" by (auto dest: path_keep_char)
    with True Cons show ?thesis by (simp add: path_escape_Cons)
  next
    case False
    have "char_of (16 * unhex (upper_hex (of_char c div 16)) + unhex (upper_hex (of_char c mod 16))) = c"
      by (simp add: upper_hex_facts char_nibbles mult_div_mod_eq)
    with False Cons show ?thesis by (simp add: path_escape_Cons upper_hex_facts char_nibbles)
  qed
qed simp

lemma path_escape_safe: "set (path_escape s) \<inter> {CHR ''/'', CHR ''?'', CHR ''#''} = {}"
proof (induction s)
  case (Cons c s)
  note h = upper_hex_facts [OF char_nibbles(1) [of c]] upper_hex_facts [OF char_nibbles(2) [of c]]
  show ?case
  proof (cases "path_keep c")
    case True
    with Cons path_keep_char [OF True] show ?thesis by (simp add: path_escape_Cons)
  next
    case False
    with Cons h show ?thesis by (simp add: path_escape_Cons)
  qed
qed simp

text \<open>Only the empty text escapes to a path element that cleaning would drop, apart from the dots.\<close>

lemma path_escape_eq_Nil [simp]: "path_escape s = '''' \<longleftrightarrow> s = ''''"
  by (cases s) (auto simp: path_escape_Cons)

lemma path_escape_inj: "path_escape s = path_escape t \<Longrightarrow> s = t"
  by (metis PathUnescape_escape option.inject)

lemma path_escape_dots: "path_escape ''.'' = ''.''" "path_escape ''..'' = ''..''"
  by (simp_all add: path_escape_def path_keep_def)

lemma proper_path_escape: "proper_elem (path_escape s) \<longleftrightarrow> proper_elem s"
  unfolding proper_elem_def using path_escape_inj path_escape_dots by (metis path_escape_eq_Nil)

end
