(* ===== verification/Config.thy ===== *)
theory Config
  imports Go_Path
begin

text \<open>
  Configuration, \<^verbatim>\<open>internal/config\<close>. The viper and godotenv packages are arguments: \<open>viper_lib\<close>
  has one field per call the code makes, \<open>godotenv\<close> changes the process environment. What the
  code relies on of them is \<open>viper_ok\<close> and \<open>godotenv_ok\<close>. Of the standard library,
  \<^verbatim>\<open>os.UserHomeDir\<close> and \<^verbatim>\<open>time.ParseDuration\<close> are modelled here.
\<close>

section \<open>Durations\<close>

text \<open>
  \<^verbatim>\<open>time.ParseDuration\<close>: an optional sign and a sequence of decimal numbers, each with an
  optional fraction and a unit. \<open>rnd\<close> rounds a real number to double precision, which the
  fraction goes through.
\<close>

definition micro_units :: "string list" where
  "micro_units = [''us'', [CHR 0xC2, CHR 0xB5, CHR ''s''], [CHR 0xCE, CHR 0xBC, CHR ''s'']]"

definition duration_unit :: "string \<Rightarrow> nat option" where
  "duration_unit u =
     (if u = ''ns'' then Some 1
      else if List.member micro_units u then Some 1000
      else if u = ''ms'' then Some 1000000
      else if u = ''s'' then Some 1000000000
      else if u = ''m'' then Some 60000000000
      else if u = ''h'' then Some 3600000000000
      else None)"

text \<open>\<^verbatim>\<open>leadingInt\<close>: the digits' value, an error when it exceeds \<open>2 ^ 63\<close>.\<close>

definition leadingInt :: "string \<Rightarrow> nat option" where
  "leadingInt ds = (if digits_value ds \<le> 2 ^ 63 then Some (digits_value ds) else None)"

text \<open>\<^verbatim>\<open>leadingFraction\<close>: the digits are read until the value would exceed 63 bits; the rest is dropped.\<close>

fun leadingFraction :: "(rat \<Rightarrow> rat) \<Rightarrow> string \<Rightarrow> nat \<Rightarrow> rat \<Rightarrow> nat \<times> rat" where
  "leadingFraction rnd [] x scale = (x, scale)"
| "leadingFraction rnd (c # cs) x scale =
     (let y = x * 10 + (of_char c - 48) in
      if x > (2 ^ 63 - 1) div 10 \<or> y > 2 ^ 63 then (x, scale)
      else leadingFraction rnd cs y (rnd (scale * 10)))"

text \<open>One round of the loop: what it adds, and the rest of the text.\<close>

definition duration_amount :: "(rat \<Rightarrow> rat) \<Rightarrow> string \<Rightarrow> string \<Rightarrow> string \<Rightarrow> nat option" where
  "duration_amount rnd ip fp u =
     (case leadingInt ip of None \<Rightarrow> None
      | Some v \<Rightarrow>
        (if ip = '''' \<and> fp = '''' then None
         else if u = '''' then None
         else case duration_unit u of None \<Rightarrow> None
         | Some unit \<Rightarrow>
           (if v > 2 ^ 63 div unit then None
            else case leadingFraction rnd fp 0 1 of (f, scale) \<Rightarrow>
              (let w = v * unit + (if f > 0 then nat \<lfloor>rnd (rnd (of_nat f) * rnd (of_nat unit / scale))\<rfloor> else 0) in
               if w > 2 ^ 63 then None else Some w))))"

definition unit_char :: "char \<Rightarrow> bool" where
  "unit_char c \<longleftrightarrow> c \<noteq> CHR ''.'' \<and> \<not> is_digit c"

definition duration_part :: "(rat \<Rightarrow> rat) \<Rightarrow> string \<Rightarrow> (nat \<times> string) option" where
  "duration_part rnd s =
     (let ip = takeWhile is_digit s; s1 = dropWhile is_digit s;
          dot = (s1 \<noteq> '''' \<and> hd s1 = CHR ''.'');
          s2 = (if dot then tl s1 else s1);
          fp = (if dot then takeWhile is_digit s2 else '''');
          s3 = (if dot then dropWhile is_digit s2 else s2) in
      case duration_amount rnd ip fp (takeWhile unit_char s3) of
        None \<Rightarrow> None
      | Some w \<Rightarrow> Some (w, dropWhile unit_char s3))"

fun parse_parts :: "(rat \<Rightarrow> rat) \<Rightarrow> nat \<Rightarrow> string \<Rightarrow> nat \<Rightarrow> nat option" where
  "parse_parts rnd fuel [] d = Some d"
| "parse_parts rnd 0 (c # cs) d = None"
| "parse_parts rnd (Suc fuel) (c # cs) d =
     (case duration_part rnd (c # cs) of
        None \<Rightarrow> None
      | Some (w, rest) \<Rightarrow> if d + w > 2 ^ 63 then None else parse_parts rnd fuel rest (d + w))"

lemma length_dropWhile_tl: "length (dropWhile P (tl xs)) \<le> length xs"
  using length_dropWhile_le [of P "tl xs"] by simp

lemma duration_part_shorter:
  assumes "duration_part rnd s = Some (w, rest)"
  shows "length rest < length s"
proof -
  let ?s1 = "dropWhile is_digit s"
  let ?s3 = "if ?s1 \<noteq> '''' \<and> hd ?s1 = CHR ''.'' then dropWhile is_digit (tl ?s1) else ?s1"
  from assms have rest: "rest = dropWhile unit_char ?s3" and "takeWhile unit_char ?s3 \<noteq> ''''"
    by (auto simp: duration_part_def Let_def duration_amount_def split: option.splits if_splits)
  moreover have "length (takeWhile unit_char ?s3) + length (dropWhile unit_char ?s3) = length ?s3"
    unfolding length_append [symmetric] takeWhile_dropWhile_id ..
  ultimately have "length rest < length ?s3" by (metis less_add_same_cancel2 length_greater_0_conv)
  moreover have "length ?s3 \<le> length s"
    using length_dropWhile_tl [of is_digit ?s1] length_dropWhile_le [of is_digit s] by auto
  ultimately show ?thesis by linarith
qed

lemma parse_parts_fuel: "length s \<le> fuel \<Longrightarrow> parse_parts rnd (fuel + k) s d = parse_parts rnd fuel s d"
proof (induction rnd fuel s d rule: parse_parts.induct)
  case (3 rnd fuel c cs d)
  show ?case
  proof (cases "duration_part rnd (c # cs)")
    case (Some wr)
    obtain w rest where wr: "wr = (w, rest)" by fastforce
    with Some duration_part_shorter have "length rest \<le> fuel" using 3(2) by fastforce
    with 3(1) Some wr show ?thesis by simp
  qed simp
qed simp_all

text \<open>Every round of the loop consumes a character, so the length of the text is enough fuel.\<close>

definition ParseDuration :: "(rat \<Rightarrow> rat) \<Rightarrow> string \<Rightarrow> int option" where
  "ParseDuration rnd s =
     (let neg = (s \<noteq> '''' \<and> hd s = CHR ''-'');
          body = (if s \<noteq> '''' \<and> (hd s = CHR ''-'' \<or> hd s = CHR ''+'') then tl s else s) in
      if body = ''0'' then Some 0
      else if body = '''' then None
      else case parse_parts rnd (length body) body 0 of
             None \<Rightarrow> None
           | Some d \<Rightarrow> if neg then Some (- int d) else if d > 2 ^ 63 - 1 then None else Some (int d))"

section \<open>config.go\<close>

record AgentConfig =
  ac_HTTPAddr :: string
  ac_DataDir :: string
  ac_APIBaseURL :: string
  ac_GRPCServerAddr :: string
  ac_UserAccessToken :: string
  ac_DockerSocket :: string

record ServerConfig =
  sc_HTTPAddr :: string
  sc_GRPCAddr :: string

record SupabaseConfig =
  sb_URL :: string
  sb_AnonKey :: string
  sb_DatabaseURL :: string

record DeviceTokenConfig =
  dt_Secret :: string
  dt_TTL :: int

record Config =
  conf_Environment :: string
  conf_LogLevel :: string
  conf_Agent :: AgentConfig
  conf_Server :: ServerConfig
  conf_Supabase :: SupabaseConfig
  conf_DeviceToken :: DeviceTokenConfig

record Options =
  opt_FilePath :: string
  opt_EnvFilePath :: string

type_synonym environ = "string \<Rightarrow> string option"

text \<open>The calls on a viper instance; \<^verbatim>\<open>Unmarshal\<close> reads the value of each key of the struct's tags.\<close>

record 'v viper_lib =
  vp_New :: 'v
  vp_SetDefault :: "string \<Rightarrow> string \<Rightarrow> 'v \<Rightarrow> 'v"
  vp_SetEnvPrefix :: "string \<Rightarrow> 'v \<Rightarrow> 'v"
  vp_SetEnvKeyReplacer :: "(string \<Rightarrow> string) \<Rightarrow> 'v \<Rightarrow> 'v"
  vp_AutomaticEnv :: "'v \<Rightarrow> 'v"
  vp_SetConfigFile :: "string \<Rightarrow> 'v \<Rightarrow> 'v"
  vp_SetConfigName :: "string \<Rightarrow> 'v \<Rightarrow> 'v"
  vp_SetConfigType :: "string \<Rightarrow> 'v \<Rightarrow> 'v"
  vp_AddConfigPath :: "string \<Rightarrow> 'v \<Rightarrow> 'v"
  vp_ReadInConfig :: "'v \<Rightarrow> error option \<times> 'v"
  vp_isNotFound :: "error \<Rightarrow> bool"
  vp_value :: "environ \<Rightarrow> 'v \<Rightarrow> string \<Rightarrow> string"
  vp_decodeError :: "string \<Rightarrow> error"

text \<open>\<^verbatim>\<open>strings.NewReplacer(".", "_")\<close>\<close>

definition dots_to_underscores :: "string \<Rightarrow> string" where
  "dots_to_underscores = map (\<lambda>c. if c = CHR ''.'' then CHR ''_'' else c)"

text \<open>The defaults, in the order \<^verbatim>\<open>setDefaults\<close> sets them.\<close>

definition default_settings :: "(string \<times> string) list" where
  "default_settings =
       [(''environment'', ''development''), (''log_level'', ''info''),
        (''agent.http_addr'', '':8081''), (''agent.api_base_url'', ''http://localhost:8080''),
        (''agent.grpc_server_addr'', ''localhost:9090''),
        (''agent.data_dir'', ''''), (''agent.user_access_token'', ''''),
        (''agent.docker_socket'', ''/var/run/docker.sock''),
        (''server.http_addr'', '':8080''), (''server.grpc_addr'', '':9090''),
        (''supabase.url'', ''''), (''supabase.anon_key'', ''''), (''supabase.database_url'', ''''),
        (''device_token.secret'', ''''), (''device_token.ttl'', ''8760h'')]"

definition setDefaults :: "'v viper_lib \<Rightarrow> 'v \<Rightarrow> 'v" where
  "setDefaults lib v = fold (\<lambda>(key, val). vp_SetDefault lib key val) default_settings v"

text \<open>
  The struct the settings are decoded into, by its \<^verbatim>\<open>mapstructure\<close> tags; the decode hook turns
  the text of the lifetime into a duration.
\<close>

definition decode_config :: "(rat \<Rightarrow> rat) \<Rightarrow> (string \<Rightarrow> error) \<Rightarrow> (string \<Rightarrow> string) \<Rightarrow> error + Config" where
  "decode_config rnd decodeError get =
     (case ParseDuration rnd (get ''device_token.ttl'') of
        None \<Rightarrow> Inl (decodeError (get ''device_token.ttl''))
      | Some ttl \<Rightarrow>
          Inr \<lparr>conf_Environment = get ''environment'', conf_LogLevel = get ''log_level'',
               conf_Agent = \<lparr>ac_HTTPAddr = get ''agent.http_addr'', ac_DataDir = get ''agent.data_dir'',
                 ac_APIBaseURL = get ''agent.api_base_url'', ac_GRPCServerAddr = get ''agent.grpc_server_addr'',
                 ac_UserAccessToken = get ''agent.user_access_token'',
                 ac_DockerSocket = get ''agent.docker_socket''\<rparr>,
               conf_Server = \<lparr>sc_HTTPAddr = get ''server.http_addr'', sc_GRPCAddr = get ''server.grpc_addr''\<rparr>,
               conf_Supabase = \<lparr>sb_URL = get ''supabase.url'', sb_AnonKey = get ''supabase.anon_key'',
                 sb_DatabaseURL = get ''supabase.database_url''\<rparr>,
               conf_DeviceToken = \<lparr>dt_Secret = get ''device_token.secret'', dt_TTL = ttl\<rparr>\<rparr>)"

text \<open>\<^verbatim>\<open>os.UserHomeDir\<close> on Unix.\<close>

definition UserHomeDir :: "environ \<Rightarrow> error + string" where
  "UserHomeDir env =
     (case env ''HOME'' of
        Some h \<Rightarrow> if h = '''' then Inl (anon ''$HOME is not defined'') else Inr h
      | None \<Rightarrow> Inl (anon ''$HOME is not defined''))"

definition defaultAgentDataDir :: "environ \<Rightarrow> string" where
  "defaultAgentDataDir env =
     (case UserHomeDir env of
        Inl _ \<Rightarrow> ''.deployos''
      | Inr home \<Rightarrow> path_Join [home, ''.deployos''])"

text \<open>The instance \<^verbatim>\<open>Load\<close> has set up before it reads the file.\<close>

definition configured :: "'v viper_lib \<Rightarrow> Options \<Rightarrow> 'v" where
  "configured lib opts =
     (let v = vp_AutomaticEnv lib (vp_SetEnvKeyReplacer lib dots_to_underscores
                (vp_SetEnvPrefix lib ''DEPLOYOS'' (setDefaults lib (vp_New lib)))) in
      if opt_FilePath opts \<noteq> '''' then vp_SetConfigFile lib (opt_FilePath opts) v
      else vp_AddConfigPath lib ''.'' (vp_SetConfigType lib ''yaml'' (vp_SetConfigName lib ''config'' v)))"

text \<open>\<open>isNotExist\<close> is \<^verbatim>\<open>os.IsNotExist\<close> on the errors of \<open>godotenv\<close>.\<close>

definition Load ::
  "(rat \<Rightarrow> rat) \<Rightarrow> (string \<Rightarrow> environ \<Rightarrow> error option \<times> environ) \<Rightarrow> (error \<Rightarrow> bool) \<Rightarrow> 'v viper_lib \<Rightarrow>
   environ \<Rightarrow> Options \<Rightarrow> error + Config" where
  "Load rnd godotenv isNotExist lib env opts =
     (let envFile = (if opt_EnvFilePath opts = '''' then ''.env'' else opt_EnvFilePath opts) in
      case godotenv envFile env of (err, env') \<Rightarrow>
      (case (case err of Some e \<Rightarrow> if \<not> isNotExist e then Some e else None | None \<Rightarrow> None) of
         Some e \<Rightarrow> Inl (Wrapf (''loading '' @ envFile @ '': '') e '''')
       | None \<Rightarrow>
         (case vp_ReadInConfig lib (configured lib opts) of (err, v) \<Rightarrow>
          (case (case err of Some e \<Rightarrow> if \<not> vp_isNotFound lib e then Some e else None | None \<Rightarrow> None) of
             Some e \<Rightarrow> Inl (Wrapf ''reading config file: '' e '''')
           | None \<Rightarrow>
             (case decode_config rnd (vp_decodeError lib) (vp_value lib env' v) of
                Inl e \<Rightarrow> Inl (Wrapf ''unmarshaling config: '' e '''')
              | Inr cfg \<Rightarrow>
                  Inr (if ac_DataDir (conf_Agent cfg) = ''''
                       then cfg\<lparr>conf_Agent := conf_Agent cfg\<lparr>ac_DataDir := defaultAgentDataDir env'\<rparr>\<rparr>
                       else cfg))))))"

section \<open>What the code relies on\<close>

text \<open>
  What a viper instance holds: the defaults, the prefix and the replacer for environment
  variables, whether these are consulted, and the values of the file that was read.
\<close>

record viper_view =
  vv_defaults :: "string \<Rightarrow> string option"
  vv_prefix :: string
  vv_replacer :: "string \<Rightarrow> string"
  vv_auto :: bool
  vv_file :: "string \<Rightarrow> string option"

definition upper_char :: "char \<Rightarrow> char" where
  "upper_char c = (let n = of_char c :: nat in if 97 \<le> n \<and> n \<le> 122 then char_of (n - 32) else c)"

text \<open>The documented lookup: a non-empty environment variable, then the file, then the default.\<close>

definition layered :: "environ \<Rightarrow> (string \<Rightarrow> string option) \<Rightarrow> string \<Rightarrow> string \<Rightarrow> string \<Rightarrow> string" where
  "layered env file var key dflt =
     (case env var of
        Some x \<Rightarrow> if x \<noteq> '''' then x else (case file key of Some y \<Rightarrow> y | None \<Rightarrow> dflt)
      | None \<Rightarrow> (case file key of Some y \<Rightarrow> y | None \<Rightarrow> dflt))"

definition env_var :: "viper_view \<Rightarrow> string \<Rightarrow> string" where
  "env_var w key = vv_replacer w (map upper_char (vv_prefix w @ ''_'' @ key))"

definition viper_setters_ok :: "'v viper_lib \<Rightarrow> ('v \<Rightarrow> viper_view) \<Rightarrow> bool" where
  "viper_setters_ok lib vw \<longleftrightarrow>
     vw (vp_New lib) = \<lparr>vv_defaults = (\<lambda>_. None), vv_prefix = '''', vv_replacer = (\<lambda>s. s), vv_auto = False,
       vv_file = (\<lambda>_. None)\<rparr> \<and>
     (\<forall>k d v. vw (vp_SetDefault lib k d v) = vw v\<lparr>vv_defaults := (vv_defaults (vw v))(k \<mapsto> d)\<rparr>) \<and>
     (\<forall>p v. vw (vp_SetEnvPrefix lib p v) = vw v\<lparr>vv_prefix := p\<rparr>) \<and>
     (\<forall>r v. vw (vp_SetEnvKeyReplacer lib r v) = vw v\<lparr>vv_replacer := r\<rparr>) \<and>
     (\<forall>v. vw (vp_AutomaticEnv lib v) = vw v\<lparr>vv_auto := True\<rparr>) \<and>
     (\<forall>p v. vw (vp_SetConfigFile lib p v) = vw v) \<and> (\<forall>n v. vw (vp_SetConfigName lib n v) = vw v) \<and>
     (\<forall>t v. vw (vp_SetConfigType lib t v) = vw v) \<and> (\<forall>p v. vw (vp_AddConfigPath lib p v) = vw v)"

definition viper_ok :: "'v viper_lib \<Rightarrow> ('v \<Rightarrow> viper_view) \<Rightarrow> bool" where
  "viper_ok lib vw \<longleftrightarrow>
     viper_setters_ok lib vw \<and>
     (\<forall>v err v'. vp_ReadInConfig lib v = (err, v') \<longrightarrow> (\<exists>file. vw v' = vw v\<lparr>vv_file := file\<rparr>)) \<and>
     (\<forall>env v k d. vv_auto (vw v) \<longrightarrow> vv_defaults (vw v) k = Some d \<longrightarrow>
        vp_value lib env v k = layered env (vv_file (vw v)) (env_var (vw v) k) k d)"

text \<open>\<^verbatim>\<open>godotenv.Load\<close> does not override variables that are already set.\<close>

definition godotenv_ok :: "(string \<Rightarrow> environ \<Rightarrow> error option \<times> environ) \<Rightarrow> bool" where
  "godotenv_ok godotenv \<longleftrightarrow>
     (\<forall>f env err env' k x. godotenv f env = (err, env') \<longrightarrow> env k = Some x \<longrightarrow> env' k = Some x)"

section \<open>Properties\<close>

text \<open>Every text setting with its key, its field and its default.\<close>

definition config_keys :: "(string \<times> (Config \<Rightarrow> string) \<times> string) list" where
  "config_keys =
     [(''environment'', conf_Environment, ''development''), (''log_level'', conf_LogLevel, ''info''),
      (''agent.http_addr'', ac_HTTPAddr \<circ> conf_Agent, '':8081''),
      (''agent.api_base_url'', ac_APIBaseURL \<circ> conf_Agent, ''http://localhost:8080''),
      (''agent.grpc_server_addr'', ac_GRPCServerAddr \<circ> conf_Agent, ''localhost:9090''),
      (''agent.user_access_token'', ac_UserAccessToken \<circ> conf_Agent, ''''),
      (''agent.docker_socket'', ac_DockerSocket \<circ> conf_Agent, ''/var/run/docker.sock''),
      (''server.http_addr'', sc_HTTPAddr \<circ> conf_Server, '':8080''),
      (''server.grpc_addr'', sc_GRPCAddr \<circ> conf_Server, '':9090''),
      (''supabase.url'', sb_URL \<circ> conf_Supabase, ''''), (''supabase.anon_key'', sb_AnonKey \<circ> conf_Supabase, ''''),
      (''supabase.database_url'', sb_DatabaseURL \<circ> conf_Supabase, ''''),
      (''device_token.secret'', dt_Secret \<circ> conf_DeviceToken, '''')]"

text \<open>The environment variable of a key.\<close>

definition deployos_var :: "string \<Rightarrow> string" where
  "deployos_var key = ''DEPLOYOS_'' @ map upper_char (dots_to_underscores key)"

lemma dots_to_underscores_upper:
  "dots_to_underscores (map upper_char s) = map upper_char (dots_to_underscores s)"
proof -
  have "upper_char c = CHR ''.'' \<longleftrightarrow> c = CHR ''.''" for c
  proof -
    have "(of_char c :: nat) - 32 < 256" using nat_of_char_less_256 [of c] by linarith
    then have "take_bit 8 ((of_char c :: nat) - 32) = of_char c - 32" by (simp add: take_bit_nat_eq_self)
    then have "upper_char c = CHR ''.'' \<longrightarrow> c = CHR ''.''"
      by (auto simp: upper_char_def Let_def char_of_eq_iff)
    then show ?thesis by (auto simp: upper_char_def)
  qed
  moreover have "upper_char (CHR ''_'') = CHR ''_''" by (simp add: upper_char_def)
  ultimately show ?thesis by (auto simp: dots_to_underscores_def)
qed

lemma setDefaults_view:
  assumes "viper_setters_ok lib vw"
  shows "vw (setDefaults lib (vp_New lib)) =
    \<lparr>vv_defaults = map_of (rev default_settings), vv_prefix = '''', vv_replacer = (\<lambda>s. s), vv_auto = False,
     vv_file = (\<lambda>_. None)\<rparr>"
proof -
  have "vw (fold (\<lambda>(k, d). vp_SetDefault lib k d) kvs v) =
      vw v\<lparr>vv_defaults := vv_defaults (vw v) ++ map_of (rev kvs)\<rparr>" for kvs v
    using assms
    by (induction kvs arbitrary: v) (auto simp: viper_setters_ok_def map_of_append)
  then show ?thesis using assms by (simp add: setDefaults_def viper_setters_ok_def)
qed

lemma config_keys_defaults:
  "list_all (\<lambda>(k, sel, d). map_of (rev default_settings) k = Some d) config_keys"
  by code_simp

lemma configured_view:
  assumes "viper_setters_ok lib vw"
  shows "vv_auto (vw (configured lib opts))" "vv_file (vw (configured lib opts)) = (\<lambda>_. None)"
    "env_var (vw (configured lib opts)) key = deployos_var key"
    "(k, sel, d) \<in> set config_keys \<Longrightarrow> vv_defaults (vw (configured lib opts)) k = Some d"
    "vv_defaults (vw (configured lib opts)) ''agent.data_dir'' = Some ''''"
    "vv_defaults (vw (configured lib opts)) ''device_token.ttl'' = Some ''8760h''"
proof -
  note ok = assms [unfolded viper_setters_ok_def]
  have view: "vw (configured lib opts) =
      \<lparr>vv_defaults = map_of (rev default_settings), vv_prefix = ''DEPLOYOS'',
       vv_replacer = dots_to_underscores, vv_auto = True, vv_file = (\<lambda>_. None)\<rparr>"
    using ok by (simp add: configured_def Let_def setDefaults_view [OF assms])
  show "vv_auto (vw (configured lib opts))" "vv_file (vw (configured lib opts)) = (\<lambda>_. None)"
    by (simp_all add: view)
  show "env_var (vw (configured lib opts)) key = deployos_var key"
    by (simp add: view env_var_def deployos_var_def flip: dots_to_underscores_upper)
       (simp add: dots_to_underscores_def upper_char_def)
  show "vv_defaults (vw (configured lib opts)) k = Some d" if "(k, sel, d) \<in> set config_keys"
    using that config_keys_defaults by (auto simp: view list_all_iff)
  show "vv_defaults (vw (configured lib opts)) ''agent.data_dir'' = Some ''''"
    "vv_defaults (vw (configured lib opts)) ''device_token.ttl'' = Some ''8760h''"
    by (simp_all add: view default_settings_def)
qed

lemma Load_InrD:
  assumes "Load rnd godotenv isNotExist lib env opts = Inr cfg"
  obtains err env' v cfg' where
    "godotenv (if opt_EnvFilePath opts = '''' then ''.env'' else opt_EnvFilePath opts) env = (err, env')"
    "snd (vp_ReadInConfig lib (configured lib opts)) = v"
    "decode_config rnd (vp_decodeError lib) (vp_value lib env' v) = Inr cfg'"
    "cfg = (if ac_DataDir (conf_Agent cfg') = ''''
       then cfg'\<lparr>conf_Agent := conf_Agent cfg'\<lparr>ac_DataDir := defaultAgentDataDir env'\<rparr>\<rparr> else cfg')"
  using assms that unfolding Load_def Let_def
  by (auto split: prod.splits option.splits sum.splits if_splits)

lemma decode_config_keys:
  assumes "decode_config rnd de get = Inr cfg"
  shows "(k, sel, d) \<in> set config_keys \<Longrightarrow> sel (cfg\<lparr>conf_Agent := conf_Agent cfg\<lparr>ac_DataDir := dir\<rparr>\<rparr>) = get k"
    and "(k, sel, d) \<in> set config_keys \<Longrightarrow> sel cfg = get k"
    and "ParseDuration rnd (get ''device_token.ttl'') = Some (dt_TTL (conf_DeviceToken cfg))"
    and "ac_DataDir (conf_Agent cfg) = get ''agent.data_dir''"
  using assms by (auto simp: decode_config_def config_keys_def split: option.splits)

lemma defaultAgentDataDir_nonempty: "defaultAgentDataDir env \<noteq> ''''"
  by (auto simp: defaultAgentDataDir_def path_Join_nonempty split: sum.split)

lemma loaded_value:
  assumes "viper_ok lib vw" and "vv_defaults (vw (configured lib opts)) k = Some d"
  shows "vp_value lib env (snd (vp_ReadInConfig lib (configured lib opts))) k =
    layered env (vv_file (vw (snd (vp_ReadInConfig lib (configured lib opts))))) (deployos_var k) k d"
proof -
  let ?v = "snd (vp_ReadInConfig lib (configured lib opts))"
  have ok: "viper_setters_ok lib vw" using assms(1) by (simp add: viper_ok_def)
  have "vp_ReadInConfig lib (configured lib opts) = (fst (vp_ReadInConfig lib (configured lib opts)), ?v)" by simp
  with assms(1) obtain yaml where view: "vw ?v = vw (configured lib opts)\<lparr>vv_file := yaml\<rparr>"
    unfolding viper_ok_def by blast
  have "env_var (vw ?v) k = env_var (vw (configured lib opts)) k" by (simp add: view env_var_def)
  also have "\<dots> = deployos_var k" by (rule configured_view(3) [OF ok])
  finally have var: "env_var (vw ?v) k = deployos_var k" .
  have "vv_auto (vw ?v)" "vv_defaults (vw ?v) k = Some d"
    using configured_view(1) [OF ok] assms(2) by (simp_all add: view)
  with assms(1) var show ?thesis by (auto simp: viper_ok_def)
qed


text \<open>\<^verbatim>\<open>Load\<close> fails for three reasons only, and a missing file is none of them.\<close>

lemma Load_fails_iff:
  assumes "godotenv (if opt_EnvFilePath opts = '''' then ''.env'' else opt_EnvFilePath opts) env = (derr, env')"
    and "vp_ReadInConfig lib (configured lib opts) = (rerr, v)"
  shows "(\<exists>e. Load rnd godotenv isNotExist lib env opts = Inl e) \<longleftrightarrow>
    (\<exists>e. derr = Some e \<and> \<not> isNotExist e) \<or> (\<exists>e. rerr = Some e \<and> \<not> vp_isNotFound lib e) \<or>
    ParseDuration rnd (vp_value lib env' v ''device_token.ttl'') = None"
  using assms by (auto simp: Load_def decode_config_def Let_def split: option.splits if_splits)

section \<open>A concrete configuration\<close>

definition demo_viper :: "(string \<Rightarrow> string option) \<Rightarrow> viper_view viper_lib" where
  "demo_viper yaml =
     \<lparr>vp_New = \<lparr>vv_defaults = (\<lambda>_. None), vv_prefix = '''', vv_replacer = (\<lambda>s. s), vv_auto = False,
        vv_file = (\<lambda>_. None)\<rparr>,
      vp_SetDefault = (\<lambda>k d v. v\<lparr>vv_defaults := (vv_defaults v)(k \<mapsto> d)\<rparr>),
      vp_SetEnvPrefix = (\<lambda>p v. v\<lparr>vv_prefix := p\<rparr>), vp_SetEnvKeyReplacer = (\<lambda>r v. v\<lparr>vv_replacer := r\<rparr>),
      vp_AutomaticEnv = (\<lambda>v. v\<lparr>vv_auto := True\<rparr>), vp_SetConfigFile = (\<lambda>_ v. v), vp_SetConfigName = (\<lambda>_ v. v),
      vp_SetConfigType = (\<lambda>_ v. v), vp_AddConfigPath = (\<lambda>_ v. v),
      vp_ReadInConfig = (\<lambda>v. (None, v\<lparr>vv_file := yaml\<rparr>)), vp_isNotFound = (\<lambda>_. False),
      vp_value = (\<lambda>env v k. case vv_defaults v k of Some d \<Rightarrow> layered env (vv_file v) (env_var v k) k d | None \<Rightarrow> ''''),
      vp_decodeError = (\<lambda>_. anon ''time: invalid duration'')\<rparr>"

definition demo_godotenv :: "string \<Rightarrow> environ \<Rightarrow> error option \<times> environ" where
  "demo_godotenv f env = (None, [''DEPLOYOS_SUPABASE_URL'' \<mapsto> ''https://dotenv'', ''DEPLOYOS_LOG_LEVEL'' \<mapsto> ''debug''] ++ env)"

definition demo_environ :: environ where
  "demo_environ = [''DEPLOYOS_SUPABASE_URL'' \<mapsto> ''https://p'', ''HOME'' \<mapsto> ''/root'']"

definition demo_options :: Options where
  "demo_options = \<lparr>opt_FilePath = '''', opt_EnvFilePath = ''''\<rparr>"

lemma demo_viper_ok: "viper_ok (demo_viper yaml) (\<lambda>v. v)"
  by (auto simp: viper_ok_def viper_setters_ok_def demo_viper_def)

lemma demo_godotenv_ok: "godotenv_ok demo_godotenv"
  by (auto simp: godotenv_ok_def demo_godotenv_def)

lemma year_duration: "ParseDuration rnd ''8760h'' = Some (8760 * 3600 * second)"
  by (simp add: ParseDuration_def duration_part_def duration_amount_def unit_char_def is_digit_def
      digits_value_def leadingInt_def duration_unit_def micro_units_def)

lemma demo_loads: "\<exists>cfg. Load rnd demo_godotenv (\<lambda>_. True) (demo_viper [''log_level'' \<mapsto> ''warn'']) demo_environ demo_options = Inr cfg"
proof -
  let ?lib = "demo_viper [''log_level'' \<mapsto> ''warn'']"
  let ?env = "snd (demo_godotenv ''.env'' demo_environ)"
  have v: "vp_ReadInConfig ?lib (configured ?lib demo_options) =
      (None, snd (vp_ReadInConfig ?lib (configured ?lib demo_options)))" by (simp add: demo_viper_def)
  have "deployos_var ''device_token.ttl'' = ''DEPLOYOS_DEVICE_TOKEN_TTL''" by code_simp
  moreover have "vv_file (snd (vp_ReadInConfig ?lib (configured ?lib demo_options))) = [''log_level'' \<mapsto> ''warn'']"
    by (simp add: demo_viper_def)
  moreover have ok: "viper_setters_ok ?lib (\<lambda>v. v)" using demo_viper_ok by (auto simp: viper_ok_def)
  note loaded_value [of ?lib "\<lambda>v. v", OF demo_viper_ok configured_view(6) [OF ok, of demo_options], of ?env]
  ultimately have "vp_value ?lib ?env (snd (vp_ReadInConfig ?lib (configured ?lib demo_options))) ''device_token.ttl'' =
      ''8760h''"
    by (simp add: layered_def demo_godotenv_def demo_environ_def)
  moreover have "demo_godotenv (if opt_EnvFilePath demo_options = '''' then ''.env'' else opt_EnvFilePath demo_options)
      demo_environ = (None, ?env)"
    by (simp add: demo_godotenv_def demo_options_def)
  ultimately show ?thesis
    using Load_fails_iff [of demo_godotenv demo_options demo_environ None ?env ?lib None, OF _ v]
    by (cases "Load rnd demo_godotenv (\<lambda>_. True) ?lib demo_environ demo_options") (auto simp: year_duration)
qed


end
