(* ===== verification/Contracts.thy ===== *)
theory Contracts
  imports Prelude
begin

text \<open>
  The value types and message shapes shared by the components: \<^verbatim>\<open>pkg/types\<close> (agent
  identifiers, versions), \<^verbatim>\<open>pkg/protocol\<close> (registration and heartbeat messages) and
  \<^verbatim>\<open>pkg/api\<close> (HTTP bodies). An HTTP response is its status code and its body before JSON
  encoding, one constructor per body type the handlers write.
\<close>

section \<open>pkg/types\<close>

type_synonym AgentID = string

definition ErrEmptyAgentID :: error where
  "ErrEmptyAgentID = New ''types.ErrEmptyAgentID'' ''agent id must not be empty''"

definition AgentID_String :: "AgentID \<Rightarrow> string" where
  "AgentID_String i = i"

definition AgentID_Validate :: "AgentID \<Rightarrow> error option" where
  "AgentID_Validate i = (if i = '''' then Some ErrEmptyAgentID else None)"

definition NodeRoleAgent :: string where "NodeRoleAgent = ''agent''"
definition NodeRoleControlPlane :: string where "NodeRoleControlPlane = ''control-plane''"

record Version =
  ver_Number :: string
  ver_Commit :: string

definition Version_String :: "Version \<Rightarrow> string" where
  "Version_String v =
     (if ver_Commit v = '''' then ver_Number v
      else ver_Number v @ '' ('' @ ver_Commit v @ '')'')"

lemma AgentID_Validate_None [simp]: "AgentID_Validate i = None \<longleftrightarrow> i \<noteq> ''''"
  by (simp add: AgentID_Validate_def)

section \<open>pkg/protocol\<close>

record DeviceRegisterRequest =
  req_DeviceID :: AgentID
  req_Hostname :: string
  req_OperatingSystem :: string
  req_Architecture :: string
  req_CPUCores :: int
  req_MemoryBytes :: "64 word"
  req_DeployOSVersion :: string

record DeviceRegisterResponse =
  resp_DeviceID :: AgentID
  resp_Token :: string
  resp_ExpiresAt :: Time

record Heartbeat =
  hb_AgentID :: AgentID
  hb_AgentVersion :: string
  hb_Timestamp :: int

text \<open>\<open>unixNow\<close> is \<^verbatim>\<open>time.Now().Unix()\<close>, the seconds since 1970.\<close>

definition NewHeartbeat :: "int \<Rightarrow> AgentID \<Rightarrow> string \<Rightarrow> Heartbeat" where
  "NewHeartbeat unixNow agentID agentVersion =
     \<lparr>hb_AgentID = agentID, hb_AgentVersion = agentVersion, hb_Timestamp = unixNow\<rparr>"

section \<open>pkg/api\<close>

definition StatusOK :: string where "StatusOK = ''ok''"
definition StatusDegraded :: string where "StatusDegraded = ''degraded''"

record SendCommandRequest =
  scr_Kind :: string
  scr_Arguments :: "(string, string) fmap"

record SendCommandResponse =
  scp_CommandID :: string
  scp_Success :: bool
  scp_Message :: string
  scp_Details :: "(string, string) fmap"

record api_Device =
  apid_ID :: string
  apid_Hostname :: string
  apid_OperatingSystem :: string
  apid_Architecture :: string
  apid_Status :: string
  apid_CreatedAt :: Time

record VersionResponse =
  vr_Name :: string
  vr_Version :: string

datatype body =
    ErrorResponse string
  | HealthResponse string
  | VersionBody VersionResponse
  | CommandBody SendCommandResponse
  | RegisterBody DeviceRegisterResponse
  | ListDevicesResponse "api_Device list"

record http_response =
  http_status :: nat
  http_body :: body

text \<open>\<^verbatim>\<open>writeJSON\<close> and \<^verbatim>\<open>writeError\<close> of the two handler packages, which are the same.\<close>

definition writeJSON :: "nat \<Rightarrow> body \<Rightarrow> http_response" where
  "writeJSON status b = \<lparr>http_status = status, http_body = b\<rparr>"

definition writeError :: "nat \<Rightarrow> string \<Rightarrow> http_response" where
  "writeError status message = writeJSON status (ErrorResponse message)"

lemma http_status_write [simp]:
  "http_status (writeJSON s b) = s" "http_status (writeError s m) = s"
  by (simp_all add: writeJSON_def writeError_def)

lemma http_body_write [simp]:
  "http_body (writeJSON s b) = b" "http_body (writeError s m) = ErrorResponse m"
  by (simp_all add: writeJSON_def writeError_def)

end
