(* ===== verification/Serve_Mux.thy ===== *)
theory Serve_Mux
  imports Go_Path Contracts
begin

text \<open>
  \<^verbatim>\<open>http.ServeMux\<close>, as far as the patterns of this program reach: a method and a path of literal
  segments and single-segment wildcards.
\<close>

section \<open>Routing\<close>

datatype segment = Lit string | Wild string

type_synonym 'h route = "string \<times> segment list \<times> 'h"

text \<open>\<^verbatim>\<open>cleanPath\<close> of \<^verbatim>\<open>net/http\<close>: the canonical path, keeping a trailing slash.\<close>

definition cleanPath :: "string \<Rightarrow> string" where
  "cleanPath p =
     (if p = '''' then ''/''
      else let q = (if hd p \<noteq> CHR ''/'' then CHR ''/'' # p else p);
               np = path_Clean q in
           if last q = CHR ''/'' \<and> np \<noteq> ''/'' then np @ ''/'' else np)"

text \<open>A segment is compared unescaped; one that does not unescape is compared as it is.\<close>

definition unescape_segment :: "string \<Rightarrow> string" where
  "unescape_segment s = (case PathUnescape s of Some t \<Rightarrow> t | None \<Rightarrow> s)"

fun match_segments :: "segment list \<Rightarrow> string list \<Rightarrow> (string \<times> string) list option" where
  "match_segments [] [] = Some []"
| "match_segments (Lit l # ps) (s # ss) =
     (if unescape_segment s = l then match_segments ps ss else None)"
| "match_segments (Wild w # ps) (s # ss) =
     (if s \<noteq> '''' then map_option (\<lambda>m. (w, unescape_segment s) # m) (match_segments ps ss) else None)"
| "match_segments _ _ = None"

text \<open>A route for \<^verbatim>\<open>GET\<close> also serves \<^verbatim>\<open>HEAD\<close>.\<close>

definition method_ok :: "string \<Rightarrow> string \<Rightarrow> bool" where
  "method_ok routeMethod meth \<longleftrightarrow> meth = routeMethod \<or> routeMethod = ''GET'' \<and> meth = ''HEAD''"

datatype 'h mux_result =
    MuxHandler 'h "(string \<times> string) list"
  | MuxRedirect string
  | MuxMethodNotAllowed
  | MuxNotFound

fun find_route :: "'h route list \<Rightarrow> string \<Rightarrow> string list \<Rightarrow> ('h \<times> (string \<times> string) list) option" where
  "find_route [] meth ss = None"
| "find_route ((m, ps, h) # rs) meth ss =
     (case match_segments ps ss of
        Some vals \<Rightarrow> if method_ok m meth then Some (h, vals) else find_route rs meth ss
      | None \<Rightarrow> find_route rs meth ss)"

definition ServeMux :: "'h route list \<Rightarrow> string \<Rightarrow> string \<Rightarrow> 'h mux_result" where
  "ServeMux routes meth path =
     (let p = cleanPath path in
      if p \<noteq> path then MuxRedirect p
      else let ss = split_on (CHR ''/'') (tl path) in
        case find_route routes meth ss of
          Some (h, vals) \<Rightarrow> MuxHandler h vals
        | None \<Rightarrow>
            if list_ex (\<lambda>(m, ps, h). match_segments ps ss \<noteq> None) routes
            then MuxMethodNotAllowed else MuxNotFound)"

text \<open>The answers of a server: a handler's, or one of the multiplexer's own.\<close>

datatype reply = Answer http_response | RedirectTo string | PlainStatus nat

section \<open>Lemmas\<close>

lemma unescape_plain: "CHR ''%'' \<notin> set s \<Longrightarrow> unescape_segment s = s"
proof -
  have "CHR ''%'' \<notin> set s \<Longrightarrow> PathUnescape s = Some s" by (induction s) auto
  then show "CHR ''%'' \<notin> set s \<Longrightarrow> unescape_segment s = s" by (simp add: unescape_segment_def)
qed

lemma unescape_nonempty: "s \<noteq> '''' \<Longrightarrow> unescape_segment s \<noteq> ''''"
proof -
  have "PathUnescape s = Some '''' \<Longrightarrow> s = ''''"
    by (cases s) (auto split: if_splits list.splits)
  then show "s \<noteq> '''' \<Longrightarrow> unescape_segment s \<noteq> ''''"
    by (auto simp: unescape_segment_def split: option.splits)
qed

lemma split_on_snoc: "split_on sep (t @ [sep]) = split_on sep t @ ['''']"
proof (induction t)
  case (Cons c t)
  then show ?case by (cases "split_on sep t") auto
qed simp

lemma cleanPath_proper:
  assumes "list_all proper_elem (split_on (CHR ''/'') s)"
  shows "cleanPath (CHR ''/'' # s) = CHR ''/'' # s"
proof -
  have "s \<noteq> ''''" using assms by (auto simp: proper_elem_def)
  moreover have "last s \<noteq> CHR ''/''" if "s \<noteq> ''''"
  proof
    assume "last s = CHR ''/''"
    with that have "s = butlast s @ [CHR ''/'']" by (metis append_butlast_last_id)
    then have "'''' \<in> set (split_on (CHR ''/'') s)" by (metis split_on_snoc in_set_conv_decomp)
    with assms show False by (auto simp: list_all_iff proper_elem_def)
  qed
  ultimately show ?thesis by (simp add: cleanPath_def path_Clean_proper [OF assms])
qed

lemma match_segments_Some:
  "match_segments [] ss = Some m \<longleftrightarrow> ss = [] \<and> m = []"
  "match_segments (Lit l # ps) ss = Some m \<longleftrightarrow>
     (\<exists>s ss'. ss = s # ss' \<and> unescape_segment s = l \<and> match_segments ps ss' = Some m)"
  "match_segments (Wild w # ps) ss = Some m \<longleftrightarrow>
     (\<exists>s ss' m'. ss = s # ss' \<and> s \<noteq> '''' \<and> match_segments ps ss' = Some m' \<and> m = (w, unescape_segment s) # m')"
  by (cases ss; auto)+

lemma match_segments_length: "match_segments ps ss = Some m \<Longrightarrow> length ss = length ps"
  by (induction ps ss arbitrary: m rule: match_segments.induct) (auto split: if_splits)

lemma find_route_SomeD:
  "find_route rs meth ss = Some (h, vals) \<Longrightarrow>
     \<exists>m ps. (m, ps, h) \<in> set rs \<and> match_segments ps ss = Some vals \<and> method_ok m meth"
  by (induction rs; auto split: option.splits if_splits; blast)

end
