(* ===== verification/Tasks.thy ===== *)
theory Tasks
  imports Prelude
begin

text \<open>
  Long-running tasks and the group that runs them. A task is a step function whose
  environment says whether the context is cancelled; once it is, the task ends with a result
  within its rank. The locale
  \<open>task\<close> is the contract a task keeps, the locale \<open>group\<close> derives from two such tasks
  what a group of \<^verbatim>\<open>golang.org/x/sync/errgroup\<close> makes of them, as in \<^verbatim>\<open>cmd/server/main.go\<close>. The
  package is an argument, and \<open>errgroup_ok\<close> is its documented behaviour: the first error
  cancels the shared context, and \<^verbatim>\<open>Wait\<close> returns this error after both tasks ended.
\<close>

section \<open>One task\<close>

locale task =
  fixes exec :: "bool \<Rightarrow> 's \<Rightarrow> 'e \<Rightarrow> 's option"
    and init :: 's
    and result :: "'s \<Rightarrow> error option option"
    and inv :: "'s \<Rightarrow> bool"
    and rank :: "'s \<Rightarrow> nat"
  assumes inv_init: "inv init"
    and inv_exec: "inv s \<Longrightarrow> exec c s e = Some t \<Longrightarrow> inv t"
    and rank_exec: "inv s \<Longrightarrow> exec True s e = Some t \<Longrightarrow> rank t < rank s"
    and result_init: "result init = None"
    and result_exec: "inv s \<Longrightarrow> exec c s e = Some t \<Longrightarrow> result s = Some r \<Longrightarrow> result t = Some r"
    and progress: "inv s \<Longrightarrow> result s = None \<Longrightarrow> \<exists>e t. exec True s e = Some t"
begin

text \<open>A run of the task: each step with what it saw of the context.\<close>

definition steps :: "'s \<Rightarrow> (bool \<times> 'e) list \<Rightarrow> 's \<Rightarrow> bool" where
  "steps = run (\<lambda>s (c, e) t. exec c s e = Some t)"

lemma steps_inv: "steps s es t \<Longrightarrow> inv s \<Longrightarrow> inv t"
  unfolding steps_def by (induction rule: run.induct) (auto intro: inv_exec split: prod.splits)

text \<open>Once the context is cancelled, every way to go on ends with a result, within the rank.\<close>

lemma cancelled_returns:
  "inv s \<Longrightarrow> \<exists>es t. steps s es t \<and> length es \<le> rank s \<and> (\<forall>(c, e) \<in> set es. c) \<and> result t \<noteq> None"
proof (induction "rank s" arbitrary: s rule: less_induct)
  case less
  show ?case
  proof (cases "result s")
    case None
    with progress less.prems obtain e t where e: "exec True s e = Some t" by blast
    with less.prems have t: "inv t" "rank t < rank s" by (auto intro: inv_exec rank_exec)
    from less.hyps [OF this(2,1)] obtain es u where
      "steps t es u" "length es \<le> rank t" "\<forall>(c, e) \<in> set es. c" "result u \<noteq> None" by blast
    with e t show ?thesis
      by (intro exI [of _ "(True, e) # es"] exI [of _ u]) (auto simp: steps_def intro!: run_Cons)
  next
    case (Some r)
    then show ?thesis by (intro exI [of _ "[]"] exI [of _ s]) (simp add: steps_def)
  qed
qed

end

section \<open>A group of two tasks\<close>

text \<open>
  \<^verbatim>\<open>errgroup.WithContext(ctx)\<close> with two calls of \<^verbatim>\<open>Go\<close>. \<open>grp_cancelled\<close> says that the derived
  context is done, because the parent context was cancelled or a task returned an error;
  \<open>grp_err\<close> is the first error a task returned.
\<close>

record ('a, 'b) errgroup =
  grp_a :: 'a
  grp_b :: 'b
  grp_cancelled :: bool
  grp_err :: "error option"

datatype ('e, 'f) group_event = ParentDone | StepA 'e | StepB 'f

text \<open>
  What the package does when a task has just returned, and what \<^verbatim>\<open>Wait\<close> returns, given whether
  all tasks have returned and the first error.
\<close>

record ('a, 'b) errgroup_lib =
  eg_note :: "error option \<Rightarrow> ('a, 'b) errgroup \<Rightarrow> ('a, 'b) errgroup"
  eg_Wait :: "bool \<Rightarrow> error option \<Rightarrow> error option option"

definition errgroup_ok :: "('a, 'b) errgroup_lib \<Rightarrow> bool" where
  "errgroup_ok lib \<longleftrightarrow>
     (\<forall>r g. grp_a (eg_note lib r g) = grp_a g \<and> grp_b (eg_note lib r g) = grp_b g) \<and>
     (\<forall>g. eg_note lib None g = g) \<and>
     (\<forall>g err. grp_err g = None \<longrightarrow>
        grp_err (eg_note lib (Some err) g) = Some err \<and> grp_cancelled (eg_note lib (Some err) g)) \<and>
     (\<forall>g err e. grp_err g = Some e \<longrightarrow> eg_note lib (Some err) g = g) \<and>
     (\<forall>e. eg_Wait lib False e = None) \<and> (\<forall>e. eg_Wait lib True e = Some e)"

text \<open>One step of the group: the parent context is cancelled, or one of the tasks moves.\<close>

definition note_end ::
  "('a, 'b) errgroup_lib \<Rightarrow> error option option \<Rightarrow> error option option \<Rightarrow> ('a, 'b) errgroup \<Rightarrow> ('a, 'b) errgroup" where
  "note_end lib before after g =
     (case (before, after) of (None, Some r) \<Rightarrow> eg_note lib r g | _ \<Rightarrow> g)"

fun group_exec ::
  "('a, 'b) errgroup_lib \<Rightarrow> (bool \<Rightarrow> 'a \<Rightarrow> 'e \<Rightarrow> 'a option) \<Rightarrow> ('a \<Rightarrow> error option option) \<Rightarrow>
   (bool \<Rightarrow> 'b \<Rightarrow> 'f \<Rightarrow> 'b option) \<Rightarrow> ('b \<Rightarrow> error option option) \<Rightarrow>
   ('a, 'b) errgroup \<Rightarrow> ('e, 'f) group_event \<Rightarrow> ('a, 'b) errgroup option" where
  "group_exec lib ea ra eb rb g ParentDone =
     (if grp_cancelled g then None else Some (g\<lparr>grp_cancelled := True\<rparr>))"
| "group_exec lib ea ra eb rb g (StepA e) =
     (case ea (grp_cancelled g) (grp_a g) e of
        None \<Rightarrow> None
      | Some a \<Rightarrow> Some (note_end lib (ra (grp_a g)) (ra a) (g\<lparr>grp_a := a\<rparr>)))"
| "group_exec lib ea ra eb rb g (StepB e) =
     (case eb (grp_cancelled g) (grp_b g) e of
        None \<Rightarrow> None
      | Some b \<Rightarrow> Some (note_end lib (rb (grp_b g)) (rb b) (g\<lparr>grp_b := b\<rparr>)))"

definition new_group :: "'a \<Rightarrow> 'b \<Rightarrow> ('a, 'b) errgroup" where
  "new_group a b = \<lparr>grp_a = a, grp_b = b, grp_cancelled = False, grp_err = None\<rparr>"

definition group_Wait ::
  "('a, 'b) errgroup_lib \<Rightarrow> ('a \<Rightarrow> error option option) \<Rightarrow> ('b \<Rightarrow> error option option) \<Rightarrow> ('a, 'b) errgroup \<Rightarrow>
   error option option" where
  "group_Wait lib ra rb g = eg_Wait lib (ra (grp_a g) \<noteq> None \<and> rb (grp_b g) \<noteq> None) (grp_err g)"

lemma note_end_sel:
  assumes "errgroup_ok lib"
  shows "grp_a (note_end lib x y g) = grp_a g" "grp_b (note_end lib x y g) = grp_b g"
  using assms by (simp_all add: note_end_def errgroup_ok_def split: option.splits)

lemma note_end_err:
  assumes "errgroup_ok lib"
  shows "grp_err (note_end lib x y g) =
    (case grp_err g of Some e \<Rightarrow> Some e | None \<Rightarrow> (case (x, y) of (None, Some r) \<Rightarrow> r | _ \<Rightarrow> None))"
proof -
  have "grp_err (eg_note lib r g) = (case grp_err g of Some e \<Rightarrow> Some e | None \<Rightarrow> r)" for r
    using assms by (cases r; cases "grp_err g") (simp_all add: errgroup_ok_def)
  then show ?thesis by (simp add: note_end_def split: option.splits)
qed

lemma note_end_cancelled:
  assumes "errgroup_ok lib"
  shows "grp_cancelled (note_end lib x y g) \<longleftrightarrow>
    (if grp_err g = None \<and> x = None \<and> (\<exists>e. y = Some (Some e)) then True else grp_cancelled g)"
proof -
  have "grp_cancelled (eg_note lib r g) = (if grp_err g = None \<and> r \<noteq> None then True else grp_cancelled g)" for r
    using assms by (cases r; cases "grp_err g") (simp_all add: errgroup_ok_def)
  then show ?thesis by (auto simp: note_end_def split: option.splits)
qed

lemma group_Wait_iff:
  assumes "errgroup_ok lib"
  shows "group_Wait lib ra rb g = None \<longleftrightarrow> ra (grp_a g) = None \<or> rb (grp_b g) = None"
    "group_Wait lib ra rb g = Some r \<longleftrightarrow> ra (grp_a g) \<noteq> None \<and> rb (grp_b g) \<noteq> None \<and> r = grp_err g"
proof -
  have "eg_Wait lib False e = None" "eg_Wait lib True e = Some e" for e
    using assms by (simp_all add: errgroup_ok_def)
  then show "group_Wait lib ra rb g = None \<longleftrightarrow> ra (grp_a g) = None \<or> rb (grp_b g) = None"
    "group_Wait lib ra rb g = Some r \<longleftrightarrow> ra (grp_a g) \<noteq> None \<and> rb (grp_b g) \<noteq> None \<and> r = grp_err g"
    unfolding group_Wait_def by (cases "ra (grp_a g) \<noteq> None \<and> rb (grp_b g) \<noteq> None"; auto)+
qed

locale group =
  A: task execA initA resA invA rankA + B: task execB initB resB invB rankB
  for execA :: "bool \<Rightarrow> 'a \<Rightarrow> 'e \<Rightarrow> 'a option" and initA :: 'a and resA :: "'a \<Rightarrow> error option option"
    and invA :: "'a \<Rightarrow> bool" and rankA :: "'a \<Rightarrow> nat"
    and execB :: "bool \<Rightarrow> 'b \<Rightarrow> 'f \<Rightarrow> 'b option" and initB :: 'b and resB :: "'b \<Rightarrow> error option option"
    and invB :: "'b \<Rightarrow> bool" and rankB :: "'b \<Rightarrow> nat"
begin

abbreviation gexec :: "('a, 'b) errgroup_lib \<Rightarrow> ('a, 'b) errgroup \<Rightarrow> ('e, 'f) group_event \<Rightarrow> ('a, 'b) errgroup option" where
  "gexec lib \<equiv> group_exec lib execA resA execB resB"

definition gstep :: "('a, 'b) errgroup_lib \<Rightarrow> ('a, 'b) errgroup \<Rightarrow> ('e, 'f) group_event \<Rightarrow> ('a, 'b) errgroup \<Rightarrow> bool" where
  "gstep lib g e h \<longleftrightarrow> gexec lib g e = Some h"

definition ginv :: "('a, 'b) errgroup \<Rightarrow> bool" where
  "ginv g \<longleftrightarrow> invA (grp_a g) \<and> invB (grp_b g) \<and>
     (grp_err g \<noteq> None \<longrightarrow> grp_cancelled g) \<and>
     (grp_err g = None \<longrightarrow>
        (\<forall>e. resA (grp_a g) \<noteq> Some (Some e)) \<and> (\<forall>e. resB (grp_b g) \<noteq> Some (Some e))) \<and>
     (\<forall>e. grp_err g = Some e \<longrightarrow> resA (grp_a g) = Some (Some e) \<or> resB (grp_b g) = Some (Some e))"

definition grank :: "('a, 'b) errgroup \<Rightarrow> nat" where
  "grank g = rankA (grp_a g) + rankB (grp_b g)"

lemma gexecE:
  assumes "gexec lib g e = Some h"
  obtains (parent) "e = ParentDone" "\<not> grp_cancelled g" "h = g\<lparr>grp_cancelled := True\<rparr>"
  | (a) x a where "e = StepA x" "execA (grp_cancelled g) (grp_a g) x = Some a"
      "h = note_end lib (resA (grp_a g)) (resA a) (g\<lparr>grp_a := a\<rparr>)"
  | (b) x b where "e = StepB x" "execB (grp_cancelled g) (grp_b g) x = Some b"
      "h = note_end lib (resB (grp_b g)) (resB b) (g\<lparr>grp_b := b\<rparr>)"
  using assms by (cases e) (auto split: option.splits if_splits)

lemma ginv_init: "ginv (new_group initA initB)"
  by (simp add: ginv_def new_group_def A.inv_init B.inv_init A.result_init B.result_init)

lemma ginv_exec:
  assumes "errgroup_ok lib" and "ginv g" and "gexec lib g e = Some h"
  shows "ginv h"
  using assms(3)
proof (cases rule: gexecE)
  case parent
  with assms(2) show ?thesis by (auto simp: ginv_def)
next
  case (a x y)
  from a(2) assms(2) have "invA y" by (auto simp: ginv_def intro: A.inv_exec)
  moreover have "\<And>r. resA (grp_a g) = Some r \<Longrightarrow> resA y = Some r"
    using a(2) assms(2) by (auto simp: ginv_def intro: A.result_exec)
  ultimately show ?thesis using assms(2) a(3)
    by (auto simp: ginv_def note_end_sel [OF assms(1)] note_end_err [OF assms(1)] note_end_cancelled [OF assms(1)] split: option.splits if_splits)
next
  case (b x y)
  from b(2) assms(2) have "invB y" by (auto simp: ginv_def intro: B.inv_exec)
  moreover have "\<And>r. resB (grp_b g) = Some r \<Longrightarrow> resB y = Some r"
    using b(2) assms(2) by (auto simp: ginv_def intro: B.result_exec)
  ultimately show ?thesis using assms(2) b(3)
    by (auto simp: ginv_def note_end_sel [OF assms(1)] note_end_err [OF assms(1)] note_end_cancelled [OF assms(1)] split: option.splits if_splits)
qed

lemma grank_exec:
  assumes "errgroup_ok lib" and "ginv g" and "grp_cancelled g" and "gexec lib g e = Some h"
  shows "grp_cancelled h \<and> grank h < grank g"
  using assms(4)
proof (cases rule: gexecE)
  case parent
  with assms(3) show ?thesis by simp
next
  case (a x y)
  with assms(2,3) have "rankA y < rankA (grp_a g)" by (auto simp: ginv_def intro: A.rank_exec)
  with a(3) assms(3) show ?thesis by (auto simp: grank_def note_end_sel [OF assms(1)] note_end_cancelled [OF assms(1)])
next
  case (b x y)
  with assms(2,3) have "rankB y < rankB (grp_b g)" by (auto simp: ginv_def intro: B.rank_exec)
  with b(3) assms(3) show ?thesis by (auto simp: grank_def note_end_sel [OF assms(1)] note_end_cancelled [OF assms(1)])
qed

lemma gprogress:
  assumes "errgroup_ok lib" and "ginv g" and "grp_cancelled g" and "group_Wait lib resA resB g = None"
  shows "\<exists>e h. gexec lib g e = Some h"
proof -
  from assms(4) consider "resA (grp_a g) = None" | "resB (grp_b g) = None"
    by (auto simp: group_Wait_iff [OF assms(1)])
  then show ?thesis
  proof cases
    case 1
    moreover have "invA (grp_a g)" using assms(2) by (simp add: ginv_def)
    ultimately obtain e a where "execA True (grp_a g) e = Some a" using A.progress by blast
    with assms(3) show ?thesis by (intro exI [of _ "StepA e"]) simp
  next
    case 2
    moreover have "invB (grp_b g)" using assms(2) by (simp add: ginv_def)
    ultimately obtain e b where "execB True (grp_b g) e = Some b" using B.progress by blast
    with assms(3) show ?thesis by (intro exI [of _ "StepB e"]) simp
  qed
qed

lemma gruns_inv:
  assumes "run (gstep lib) g es h" and "errgroup_ok lib" and "ginv g"
  shows "ginv h"
  using assms(1,3)
proof (induction rule: run.induct)
  case (run_Cons g e h es u)
  then have "gexec lib g e = Some h" by (simp add: gstep_def)
  from ginv_exec [OF assms(2) run_Cons.prems this] run_Cons.IH show ?case by blast
qed simp

lemma group_inv: "run (gstep lib) (new_group initA initB) es g \<Longrightarrow> errgroup_ok lib \<Longrightarrow> ginv g"
  using gruns_inv ginv_init by blast

text \<open>From the cancellation on, the ranks of the two tasks bound the number of steps.\<close>

lemma cancelled_bounded:
  assumes "run (gstep lib) g es h" and "errgroup_ok lib" and "ginv g" and "grp_cancelled g"
  shows "length es + grank h \<le> grank g"
  using assms(1,3,4)
proof (induction rule: run.induct)
  case (run_Cons g e h es u)
  then have x: "gexec lib g e = Some h" by (simp add: gstep_def)
  from ginv_exec [OF assms(2) run_Cons.prems(1) x] grank_exec [OF assms(2) run_Cons.prems x] run_Cons.IH
  show ?case by auto
qed simp

lemma wait_result:
  assumes "run (gstep lib) (new_group initA initB) es g" and "errgroup_ok lib"
    and "group_Wait lib resA resB g = Some r"
  shows "(r = None \<longleftrightarrow> resA (grp_a g) = Some None \<and> resB (grp_b g) = Some None) \<and>
    (\<forall>err. r = Some err \<longrightarrow> resA (grp_a g) = Some (Some err) \<or> resB (grp_b g) = Some (Some err))"
proof -
  have "ginv g" by (rule group_inv [OF assms(1,2)])
  then show ?thesis using assms(3) unfolding ginv_def group_Wait_iff [OF assms(2)] by auto
qed

lemma cancelled_group_stops:
  assumes "run (gstep lib) (new_group initA initB) es g" and "errgroup_ok lib" and "grp_cancelled g"
    and "\<nexists>e h. gstep lib g e h"
  shows "group_Wait lib resA resB g \<noteq> None"
proof -
  have "ginv g" by (rule group_inv [OF assms(1,2)])
  from gprogress [OF assms(2) this assms(3)] assms(4) show ?thesis by (auto simp: gstep_def)
qed

end

text \<open>An implementation with this behaviour.\<close>

definition demo_errgroup :: "('a, 'b) errgroup_lib" where
  "demo_errgroup =
     \<lparr>eg_note = (\<lambda>r g. if r \<noteq> None \<and> grp_err g = None then g\<lparr>grp_err := r, grp_cancelled := True\<rparr> else g),
      eg_Wait = (\<lambda>ended e. if ended then Some e else None)\<rparr>"

lemma demo_errgroup_ok: "errgroup_ok demo_errgroup"
  by (simp add: errgroup_ok_def demo_errgroup_def)

end
