(* ===== verification/Runtime_Servers.thy ===== *)
theory Runtime_Servers
  imports Tasks
begin

text \<open>
  The process lifecycle, \<^verbatim>\<open>internal/runtime\<close>: \<^verbatim>\<open>HTTPServer.Run\<close> and \<^verbatim>\<open>GRPCServer.Run\<close>. Each \<^verbatim>\<open>Run\<close>
  is a step function over its own program counter, the counter of the goroutine that serves
  and the channel between them; the first argument of a step says whether the context is
  cancelled. \<^verbatim>\<open>ListenAndServe\<close>, \<^verbatim>\<open>Shutdown\<close>, \<^verbatim>\<open>Serve\<close>, \<^verbatim>\<open>GracefulStop\<close> and the timer answer through
  the labels, within what their documentation allows. Both are interpretations of the
  contract \<open>task\<close>.
\<close>

section \<open>httpserver.go\<close>

definition DefaultShutdownTimeout :: int where
  "DefaultShutdownTimeout = 10 * second"

definition ErrServerClosed :: error where
  "ErrServerClosed = New ''http.ErrServerClosed'' ''http: Server closed''"

record HTTPServer =
  hs_Addr :: string
  hs_ReadHeaderTimeout :: int
  hs_shutdownTimeout :: int

definition NewHTTPServer :: "string \<Rightarrow> HTTPServer" where
  "NewHTTPServer addr =
     \<lparr>hs_Addr = addr, hs_ReadHeaderTimeout = 5 * second, hs_shutdownTimeout = DefaultShutdownTimeout\<rparr>"

text \<open>The serving goroutine: about to serve, in the call, about to send on the channel, ended.\<close>

datatype serve_pc = ServeCalling | Serving | ServeSending "error option" | ServeEnded

text \<open>
  \<^verbatim>\<open>Run\<close>: in the select, about to call \<^verbatim>\<open>Shutdown\<close>, in that call, receiving from the channel,
  returned.
\<close>

datatype http_pc = HSelect | HShutdown | HShuttingDown | HReceive | HReturned "error option"

text \<open>
  \<open>h_served\<close> and \<open>h_shutdown\<close> remember what \<^verbatim>\<open>ListenAndServe\<close> and \<^verbatim>\<open>Shutdown\<close> returned,
  \<open>h_closed\<close> that \<^verbatim>\<open>Shutdown\<close> was called.
\<close>

record http_run =
  h_pc :: http_pc
  h_serve :: serve_pc
  h_errCh :: "error option list"
  h_closed :: bool
  h_served :: "error option"
  h_shutdown :: "error option option"

definition http_start :: http_run where
  "http_start = \<lparr>h_pc = HSelect, h_serve = ServeCalling, h_errCh = [], h_closed = False,
     h_served = None, h_shutdown = None\<rparr>"

text \<open>What the goroutine sends for an error of \<^verbatim>\<open>ListenAndServe\<close>.\<close>

definition http_serve_result :: "error \<Rightarrow> error option" where
  "http_serve_result err =
     (if \<not> errors_is err ErrServerClosed then Some (Wrapf ''http server: '' err '''') else None)"

datatype http_event =
    HServe
  | HServeReturns error
  | HSend
  | HSelectErr
  | HSelectDone
  | HShutdownCall
  | HShutdownReturns "error option"
  | HReceiveErr

text \<open>
  \<^verbatim>\<open>ListenAndServe\<close> always returns an error, and \<^verbatim>\<open>ErrServerClosed\<close> only after \<^verbatim>\<open>Shutdown\<close>; the
  channel has room for one value.
\<close>

fun http_exec :: "bool \<Rightarrow> http_run \<Rightarrow> http_event \<Rightarrow> http_run option" where
  "http_exec done s HServe =
     (if h_serve s = ServeCalling then Some (s\<lparr>h_serve := Serving\<rparr>) else None)"
| "http_exec done s (HServeReturns err) =
     (if h_serve s = Serving \<and> (errors_is err ErrServerClosed \<longrightarrow> h_closed s)
      then Some (s\<lparr>h_serve := ServeSending (http_serve_result err), h_served := Some err\<rparr>) else None)"
| "http_exec done s HSend =
     (case h_serve s of
        ServeSending r \<Rightarrow>
          (if length (h_errCh s) < 1
           then Some (s\<lparr>h_serve := ServeEnded, h_errCh := h_errCh s @ [r]\<rparr>) else None)
      | _ \<Rightarrow> None)"
| "http_exec done s HSelectErr =
     (case (h_pc s, h_errCh s) of
        (HSelect, r # rs) \<Rightarrow> Some (s\<lparr>h_pc := HReturned r, h_errCh := rs\<rparr>)
      | _ \<Rightarrow> None)"
| "http_exec done s HSelectDone =
     (if h_pc s = HSelect \<and> done then Some (s\<lparr>h_pc := HShutdown\<rparr>) else None)"
| "http_exec done s HShutdownCall =
     (if h_pc s = HShutdown then Some (s\<lparr>h_pc := HShuttingDown, h_closed := True\<rparr>) else None)"
| "http_exec done s (HShutdownReturns err) =
     (if h_pc s = HShuttingDown
      then Some (s\<lparr>h_pc := (case err of
                    Some e \<Rightarrow> HReturned (Some (Wrapf ''http server shutdown: '' e ''''))
                  | None \<Rightarrow> HReceive), h_shutdown := Some err\<rparr>) else None)"
| "http_exec done s HReceiveErr =
     (case (h_pc s, h_errCh s) of
        (HReceive, r # rs) \<Rightarrow> Some (s\<lparr>h_pc := HReturned r, h_errCh := rs\<rparr>)
      | _ \<Rightarrow> None)"

definition http_result :: "http_run \<Rightarrow> error option option" where
  "http_result s = (case h_pc s of HReturned r \<Rightarrow> Some r | _ \<Rightarrow> None)"

section \<open>grpcserver.go\<close>

record GRPCServer =
  gs_addr :: string
  gs_shutdownTimeout :: int

definition NewGRPCServer :: "string \<Rightarrow> GRPCServer" where
  "NewGRPCServer addr = \<lparr>gs_addr = addr, gs_shutdownTimeout = DefaultShutdownTimeout\<rparr>"

text \<open>
  \<^verbatim>\<open>Run\<close>: listening, in the first select, in the second select, receiving from the channel,
  returned. The stopping goroutine: not started, about to call \<^verbatim>\<open>GracefulStop\<close>, in it, ended
  (the channel \<^verbatim>\<open>stopped\<close> is closed).
\<close>

datatype grpc_pc = GListen | GSelect | GStopping | GReceive | GReturned "error option"

datatype stop_pc = StopIdle | StopCalling | StopWaiting | StopClosed

record grpc_run =
  g_pc :: grpc_pc
  g_serve :: "serve_pc option"
  g_errCh :: "error option list"
  g_stop :: stop_pc
  g_forced :: bool
  g_served :: "error option option"

definition grpc_start :: grpc_run where
  "grpc_start = \<lparr>g_pc = GListen, g_serve = None, g_errCh = [], g_stop = StopIdle, g_forced = False,
     g_served = None\<rparr>"

datatype grpc_event =
    GListens "error option"
  | GServe
  | GServeReturns "error option"
  | GSend
  | GSelectErr
  | GSelectDone
  | GGracefulCall
  | GGracefulReturns
  | GSelectStopped
  | GSelectTimeout
  | GReceiveErr

text \<open>\<^verbatim>\<open>Stop\<close> or \<^verbatim>\<open>GracefulStop\<close> has been called on the server.\<close>

definition stop_called :: "grpc_run \<Rightarrow> bool" where
  "stop_called s \<longleftrightarrow> g_forced s \<or> g_stop s = StopWaiting \<or> g_stop s = StopClosed"

text \<open>\<^verbatim>\<open>Serve\<close> returns a non-nil error unless \<^verbatim>\<open>Stop\<close> or \<^verbatim>\<open>GracefulStop\<close> is called.\<close>

fun grpc_exec :: "string \<Rightarrow> bool \<Rightarrow> grpc_run \<Rightarrow> grpc_event \<Rightarrow> grpc_run option" where
  "grpc_exec addr done s (GListens err) =
     (if g_pc s = GListen
      then Some (case err of
          Some e \<Rightarrow> s\<lparr>g_pc := GReturned (Some (Wrapf (''grpc server: listening on '' @ addr @ '': '') e ''''))\<rparr>
        | None \<Rightarrow> s\<lparr>g_pc := GSelect, g_serve := Some ServeCalling\<rparr>)
      else None)"
| "grpc_exec addr done s GServe =
     (if g_serve s = Some ServeCalling then Some (s\<lparr>g_serve := Some Serving\<rparr>) else None)"
| "grpc_exec addr done s (GServeReturns r) =
     (if g_serve s = Some Serving \<and> (r = None \<longrightarrow> stop_called s)
      then Some (s\<lparr>g_serve := Some (ServeSending r), g_served := Some r\<rparr>) else None)"
| "grpc_exec addr done s GSend =
     (case g_serve s of
        Some (ServeSending r) \<Rightarrow>
          (if length (g_errCh s) < 1
           then Some (s\<lparr>g_serve := Some ServeEnded, g_errCh := g_errCh s @ [r]\<rparr>) else None)
      | _ \<Rightarrow> None)"
| "grpc_exec addr done s GSelectErr =
     (case (g_pc s, g_errCh s) of
        (GSelect, r # rs) \<Rightarrow> Some (s\<lparr>g_pc := GReturned r, g_errCh := rs\<rparr>)
      | _ \<Rightarrow> None)"
| "grpc_exec addr done s GSelectDone =
     (if g_pc s = GSelect \<and> done then Some (s\<lparr>g_pc := GStopping, g_stop := StopCalling\<rparr>) else None)"
| "grpc_exec addr done s GGracefulCall =
     (if g_stop s = StopCalling then Some (s\<lparr>g_stop := StopWaiting\<rparr>) else None)"
| "grpc_exec addr done s GGracefulReturns =
     (if g_stop s = StopWaiting then Some (s\<lparr>g_stop := StopClosed\<rparr>) else None)"
| "grpc_exec addr done s GSelectStopped =
     (if g_pc s = GStopping \<and> g_stop s = StopClosed then Some (s\<lparr>g_pc := GReceive\<rparr>) else None)"
| "grpc_exec addr done s GSelectTimeout =
     (if g_pc s = GStopping then Some (s\<lparr>g_pc := GReceive, g_forced := True\<rparr>) else None)"
| "grpc_exec addr done s GReceiveErr =
     (case (g_pc s, g_errCh s) of
        (GReceive, r # rs) \<Rightarrow> Some (s\<lparr>g_pc := GReturned r, g_errCh := rs\<rparr>)
      | _ \<Rightarrow> None)"

definition grpc_result :: "grpc_run \<Rightarrow> error option option" where
  "grpc_result s = (case g_pc s of GReturned r \<Rightarrow> Some r | _ \<Rightarrow> None)"

section \<open>The HTTP server keeps the contract of a task\<close>

fun serve_rank :: "serve_pc \<Rightarrow> nat" where
  "serve_rank ServeCalling = 3" | "serve_rank Serving = 2"
| "serve_rank (ServeSending r) = 1" | "serve_rank ServeEnded = 0"

fun http_pc_rank :: "http_pc \<Rightarrow> nat" where
  "http_pc_rank HSelect = 4" | "http_pc_rank HShutdown = 3" | "http_pc_rank HShuttingDown = 2"
| "http_pc_rank HReceive = 1" | "http_pc_rank (HReturned r) = 0"

definition http_rank :: "http_run \<Rightarrow> nat" where
  "http_rank s = http_pc_rank (h_pc s) + serve_rank (h_serve s)"

text \<open>
  Where the one value of the serving goroutine is, and how the result follows from what the
  library calls returned.
\<close>

definition http_chan_inv :: "http_run \<Rightarrow> bool" where
  "http_chan_inv s \<longleftrightarrow>
     (case h_serve s of
        ServeSending r \<Rightarrow> (\<exists>e. h_served s = Some e \<and> r = http_serve_result e) \<and> h_errCh s = []
      | ServeEnded \<Rightarrow> (\<exists>e. h_served s = Some e \<and> h_errCh s \<in> {[], [http_serve_result e]}) \<and>
          (h_errCh s = [] \<longrightarrow> (\<exists>r. h_pc s = HReturned r))
      | _ \<Rightarrow> h_served s = None \<and> h_errCh s = [])"

definition http_result_inv :: "http_run \<Rightarrow> bool" where
  "http_result_inv s \<longleftrightarrow>
     (case h_pc s of
        HReturned r \<Rightarrow>
          (case h_shutdown s of
             Some (Some e) \<Rightarrow> r = Some (Wrapf ''http server shutdown: '' e '''') \<and> h_closed s
           | sd \<Rightarrow> (sd \<noteq> None \<longleftrightarrow> h_closed s) \<and> (\<exists>e. h_served s = Some e \<and> r = http_serve_result e))
      | HReceive \<Rightarrow> h_shutdown s = Some None \<and> h_closed s
      | HShuttingDown \<Rightarrow> h_shutdown s = None \<and> h_closed s
      | _ \<Rightarrow> h_shutdown s = None \<and> \<not> h_closed s)"

definition http_closed_inv :: "http_run \<Rightarrow> bool" where
  "http_closed_inv s \<longleftrightarrow> (\<forall>e. h_served s = Some e \<longrightarrow> errors_is e ErrServerClosed \<longrightarrow> h_closed s)"

definition http_inv :: "http_run \<Rightarrow> bool" where
  "http_inv s \<longleftrightarrow> http_chan_inv s \<and> http_result_inv s \<and> http_closed_inv s"

lemmas http_inv_defs = http_inv_def http_chan_inv_def http_result_inv_def http_closed_inv_def

lemma http_execE:
  assumes "http_exec c s e = Some t"
  obtains (call) "h_serve s = ServeCalling" "t = s\<lparr>h_serve := Serving\<rparr>"
  | (served) err where "h_serve s = Serving" "errors_is err ErrServerClosed \<longrightarrow> h_closed s"
      "t = s\<lparr>h_serve := ServeSending (http_serve_result err), h_served := Some err\<rparr>"
  | (send) r where "h_serve s = ServeSending r" "h_errCh s = []"
      "t = s\<lparr>h_serve := ServeEnded, h_errCh := [r]\<rparr>"
  | (got) r rs where "h_pc s \<in> {HSelect, HReceive}" "h_errCh s = r # rs"
      "t = s\<lparr>h_pc := HReturned r, h_errCh := rs\<rparr>"
  | (cancelled) "h_pc s = HSelect" "c" "t = s\<lparr>h_pc := HShutdown\<rparr>"
  | (shutdown) "h_pc s = HShutdown" "t = s\<lparr>h_pc := HShuttingDown, h_closed := True\<rparr>"
  | (shut) err where "h_pc s = HShuttingDown"
      "t = s\<lparr>h_pc := (case err of Some e \<Rightarrow> HReturned (Some (Wrapf ''http server shutdown: '' e ''''))
                    | None \<Rightarrow> HReceive), h_shutdown := Some err\<rparr>"
  using assms by (cases e) (auto split: if_splits serve_pc.splits http_pc.splits list.splits)

lemma http_inv_start: "http_inv http_start"
  by (simp add: http_inv_defs http_start_def)

lemma http_chan_inv_exec: "http_chan_inv s \<Longrightarrow> http_exec c s e = Some t \<Longrightarrow> http_chan_inv t"
  by (erule http_execE; cases "h_serve s") (auto simp: http_chan_inv_def split: option.splits)

lemma http_result_inv_exec:
  assumes "http_chan_inv s" and "http_result_inv s" and "http_exec c s e = Some t"
  shows "http_result_inv t"
  using assms(3)
proof (cases rule: http_execE)
  case (got r rs)
  with assms(1) obtain e where "h_served s = Some e" "r = http_serve_result e"
    by (cases "h_serve s") (auto simp: http_chan_inv_def)
  with got assms(2) show ?thesis by (auto simp: http_result_inv_def)
next
  case (served err)
  with assms(1,2) show ?thesis
    by (cases "h_pc s") (auto simp: http_chan_inv_def http_result_inv_def split: option.splits)
next
  case (shut err)
  with assms(2) show ?thesis by (cases err) (auto simp: http_result_inv_def)
qed (use assms(2) in \<open>auto simp: http_result_inv_def split: http_pc.splits option.splits\<close>)

lemma http_closed_inv_exec: "http_closed_inv s \<Longrightarrow> http_exec c s e = Some t \<Longrightarrow> http_closed_inv t"
  by (erule http_execE) (auto simp: http_closed_inv_def)

lemma http_inv_exec: "http_inv s \<Longrightarrow> http_exec c s e = Some t \<Longrightarrow> http_inv t"
  unfolding http_inv_def
  by (blast intro: http_chan_inv_exec http_result_inv_exec http_closed_inv_exec)

lemma http_rank_exec: "http_exec c s e = Some t \<Longrightarrow> http_rank t < http_rank s"
  by (erule http_execE) (auto simp: http_rank_def split: option.splits)

lemma http_rank_le: "http_rank s \<le> 7"
  by (cases "h_pc s"; cases "h_serve s") (simp_all add: http_rank_def)

lemma http_result_exec: "http_exec c s e = Some t \<Longrightarrow> http_result s = Some r \<Longrightarrow> http_result t = Some r"
  by (erule http_execE) (auto simp: http_result_def split: http_pc.splits option.splits)

text \<open>The serving goroutine can always move, and once it ended \<^verbatim>\<open>Run\<close> can.\<close>

lemma http_progress:
  assumes "http_inv s" and "http_result s = None"
  shows "\<exists>e t. http_exec True s e = Some t"
proof (cases "h_pc s")
  case HSelect
  then show ?thesis by (intro exI [of _ HSelectDone]) simp
next
  case HShutdown
  then show ?thesis by (intro exI [of _ HShutdownCall]) simp
next
  case HShuttingDown
  then show ?thesis by (intro exI [of _ "HShutdownReturns None"]) simp
next
  case HReceive
  show ?thesis
  proof (cases "h_serve s")
    case ServeCalling
    then show ?thesis by (intro exI [of _ HServe]) simp
  next
    case Serving
    with HReceive assms(1) show ?thesis
      by (intro exI [of _ "HServeReturns ErrServerClosed"]) (simp add: http_inv_defs)
  next
    case (ServeSending r)
    with assms(1) show ?thesis by (intro exI [of _ HSend]) (simp add: http_inv_defs)
  next
    case ServeEnded
    with HReceive assms(1) obtain r rs where "h_errCh s = r # rs" by (cases "h_errCh s") (auto simp: http_inv_defs)
    with HReceive show ?thesis by (intro exI [of _ HReceiveErr]) simp
  qed
next
  case (HReturned r)
  with assms(2) show ?thesis by (simp add: http_result_def)
qed

lemma http_result_start: "http_result http_start = None"
  by (simp add: http_result_def http_start_def)

interpretation http: task http_exec http_start http_result http_inv http_rank
  by unfold_locales
     (simp_all add: http_inv_start http_inv_exec http_rank_exec http_result_exec http_progress http_result_start)

text \<open>Without a cancelled context the server is never shut down.\<close>

lemma http_uncancelled:
  assumes "http.steps s es t" and "\<forall>(c, e) \<in> set es. \<not> c" and "h_pc s \<notin> {HShutdown, HShuttingDown, HReceive}"
  shows "h_closed t = h_closed s \<and> h_pc t \<notin> {HShutdown, HShuttingDown, HReceive}"
  using assms unfolding http.steps_def
proof (induction rule: run.induct)
  case (run_Cons s x t es u)
  obtain c e where x: "x = (c, e)" by fastforce
  with run_Cons.hyps run_Cons.prems have "http_exec False s e = Some t" by auto
  then have "h_closed t = h_closed s \<and> h_pc t \<notin> {HShutdown, HShuttingDown, HReceive}"
    using run_Cons.prems(2) by (cases rule: http_execE) auto
  with run_Cons show ?case by auto
qed simp

text \<open>
  \<^bold>\<open>C38.\<close> What \<^verbatim>\<open>HTTPServer.Run\<close> returns, however the serving goroutine, the cancellation and the
  shutdown interleave: the wrapped error of \<^verbatim>\<open>ListenAndServe\<close> when serving failed, even if the
  context was cancelled at the same time; the wrapped error of \<^verbatim>\<open>Shutdown\<close> when that failed;
  nil exactly if the server was shut down without an error and \<^verbatim>\<open>ListenAndServe\<close> reported the
  closed server, and never unless the context was cancelled.
\<close>

theorem http_run_outcome:
  assumes "run (\<lambda>s (c, e) t. http_exec c s e = Some t) http_start es s" and "http_result s = Some r"
  shows "(case h_shutdown s of
      None \<Rightarrow> \<exists>e. h_served s = Some e \<and> r = Some (Wrapf ''http server: '' e '''')
    | Some (Some e) \<Rightarrow> r = Some (Wrapf ''http server shutdown: '' e '''')
    | Some None \<Rightarrow> \<exists>e. h_served s = Some e \<and>
        r = (if errors_is e ErrServerClosed then None else Some (Wrapf ''http server: '' e ''''))) \<and>
    (r = None \<longrightarrow> (\<exists>(c, e) \<in> set es. c))"
proof -
  from assms(1) have steps: "http.steps http_start es s" by (simp add: http.steps_def)
  from http.steps_inv [OF this http_inv_start] have inv: "http_inv s" .
  from assms(2) have pc: "h_pc s = HReturned r" by (auto simp: http_result_def split: http_pc.splits)
  have out: "case h_shutdown s of
      None \<Rightarrow> (\<exists>e. h_served s = Some e \<and> r = Some (Wrapf ''http server: '' e '''')) \<and> \<not> h_closed s
    | Some (Some e) \<Rightarrow> r = Some (Wrapf ''http server shutdown: '' e '''')
    | Some None \<Rightarrow> (\<exists>e. h_served s = Some e \<and>
        r = (if errors_is e ErrServerClosed then None else Some (Wrapf ''http server: '' e ''''))) \<and> h_closed s"
    using inv pc by (auto simp: http_inv_defs http_serve_result_def split: option.splits)
  moreover have "\<exists>(c, e) \<in> set es. c" if "r = None"
  proof (rule ccontr)
    assume "\<not> (\<exists>(c, e) \<in> set es. c)"
    with http_uncancelled [OF steps] have "\<not> h_closed s" by (auto simp: http_start_def)
    with out that show False by (auto split: option.splits)
  qed
  ultimately show ?thesis by (auto split: option.splits)
qed

definition demo_shutdown :: "(bool \<times> http_event) list" where
  "demo_shutdown = [(False, HServe), (True, HSelectDone), (True, HShutdownCall), (True, HServeReturns ErrServerClosed),
     (True, HSend), (True, HShutdownReturns None), (True, HReceiveErr)]"

theorem http_run_outcome_witness:
  "\<exists>s. run (\<lambda>s (c, e) t. http_exec c s e = Some t) http_start demo_shutdown s \<and> http_result s = Some None \<and>
    (\<exists>(c, e) \<in> set demo_shutdown. c)"
proof -
  have "\<exists>s. run (\<lambda>s (c, e) t. http_exec c s e = Some t) http_start demo_shutdown s \<and> http_result s = Some None"
    by (simp add: demo_shutdown_def run_Cons_iff http_start_def http_result_def http_serve_result_def)
  then show ?thesis using http_run_outcome by blast
qed

section \<open>The gRPC server keeps the contract of a task\<close>

fun grpc_pc_rank :: "grpc_pc \<Rightarrow> nat" where
  "grpc_pc_rank GListen = 4" | "grpc_pc_rank GSelect = 3" | "grpc_pc_rank GStopping = 2"
| "grpc_pc_rank GReceive = 1" | "grpc_pc_rank (GReturned r) = 0"

fun stop_rank :: "stop_pc \<Rightarrow> nat" where
  "stop_rank StopIdle = 3" | "stop_rank StopCalling = 2" | "stop_rank StopWaiting = 1" | "stop_rank StopClosed = 0"

definition grpc_rank :: "grpc_run \<Rightarrow> nat" where
  "grpc_rank s = grpc_pc_rank (g_pc s) + stop_rank (g_stop s) +
     (case g_serve s of None \<Rightarrow> (if g_pc s = GListen then 3 else 0) | Some p \<Rightarrow> serve_rank p)"

definition grpc_chan_inv :: "grpc_run \<Rightarrow> bool" where
  "grpc_chan_inv s \<longleftrightarrow>
     (case g_serve s of
        Some (ServeSending r) \<Rightarrow> g_served s = Some r \<and> g_errCh s = []
      | Some ServeEnded \<Rightarrow> (\<exists>r. g_served s = Some r \<and> g_errCh s \<in> {[], [r]}) \<and>
          (g_errCh s = [] \<longrightarrow> (\<exists>r. g_pc s = GReturned r))
      | _ \<Rightarrow> g_served s = None \<and> g_errCh s = [])"

text \<open>
  \<^verbatim>\<open>Run\<close> has reached the second select exactly when the stopping goroutine was started, and
  leaves it only after one of the two stops; the result is what \<^verbatim>\<open>Serve\<close> returned.
\<close>

definition grpc_result_inv :: "string \<Rightarrow> grpc_run \<Rightarrow> bool" where
  "grpc_result_inv addr s \<longleftrightarrow>
     (case g_pc s of
        GListen \<Rightarrow> g_serve s = None \<and> g_stop s = StopIdle \<and> \<not> g_forced s
      | GSelect \<Rightarrow> g_serve s \<noteq> None \<and> g_stop s = StopIdle \<and> \<not> g_forced s
      | GStopping \<Rightarrow> g_serve s \<noteq> None \<and> g_stop s \<noteq> StopIdle \<and> \<not> g_forced s
      | GReceive \<Rightarrow> g_serve s \<noteq> None \<and> stop_called s
      | GReturned r \<Rightarrow>
          (if g_serve s = None
           then (\<exists>e. r = Some (Wrapf (''grpc server: listening on '' @ addr @ '': '') e '''')) \<and> g_stop s = StopIdle
           else g_served s = Some r))"

definition grpc_closed_inv :: "grpc_run \<Rightarrow> bool" where
  "grpc_closed_inv s \<longleftrightarrow> (g_served s = Some None \<longrightarrow> stop_called s)"

definition grpc_inv :: "string \<Rightarrow> grpc_run \<Rightarrow> bool" where
  "grpc_inv addr s \<longleftrightarrow> grpc_chan_inv s \<and> grpc_result_inv addr s \<and> grpc_closed_inv s"

lemmas grpc_inv_defs = grpc_inv_def grpc_chan_inv_def grpc_result_inv_def grpc_closed_inv_def

lemma grpc_execE:
  assumes "grpc_exec addr c s e = Some t"
  obtains (nolisten) err where "g_pc s = GListen"
      "t = s\<lparr>g_pc := GReturned (Some (Wrapf (''grpc server: listening on '' @ addr @ '': '') err ''''))\<rparr>"
  | (listen) "g_pc s = GListen" "t = s\<lparr>g_pc := GSelect, g_serve := Some ServeCalling\<rparr>"
  | (call) "g_serve s = Some ServeCalling" "t = s\<lparr>g_serve := Some Serving\<rparr>"
  | (served) r where "g_serve s = Some Serving" "r = None \<longrightarrow> stop_called s"
      "t = s\<lparr>g_serve := Some (ServeSending r), g_served := Some r\<rparr>"
  | (send) r where "g_serve s = Some (ServeSending r)" "g_errCh s = []"
      "t = s\<lparr>g_serve := Some ServeEnded, g_errCh := [r]\<rparr>"
  | (got) r rs where "g_pc s \<in> {GSelect, GReceive}" "g_errCh s = r # rs"
      "t = s\<lparr>g_pc := GReturned r, g_errCh := rs\<rparr>"
  | (cancelled) "g_pc s = GSelect" "c" "t = s\<lparr>g_pc := GStopping, g_stop := StopCalling\<rparr>"
  | (graceful) "g_stop s = StopCalling" "t = s\<lparr>g_stop := StopWaiting\<rparr>"
  | (stopped) "g_stop s = StopWaiting" "t = s\<lparr>g_stop := StopClosed\<rparr>"
  | (selected) "g_pc s = GStopping" "g_stop s = StopClosed" "t = s\<lparr>g_pc := GReceive\<rparr>"
  | (forced) "g_pc s = GStopping" "t = s\<lparr>g_pc := GReceive, g_forced := True\<rparr>"
proof (cases e)
  case (GListens err)
  with assms show ?thesis by (cases err) (auto split: if_splits intro: nolisten listen)
next
  case GServe
  with assms show ?thesis by (auto split: if_splits intro: call)
next
  case (GServeReturns r)
  with assms show ?thesis by (auto split: if_splits intro: served)
next
  case GSend
  with assms show ?thesis by (auto split: if_splits option.splits serve_pc.splits intro: send)
next
  case GSelectErr
  with assms show ?thesis by (auto split: grpc_pc.splits list.splits intro: got)
next
  case GSelectDone
  with assms show ?thesis by (auto split: if_splits intro: cancelled)
next
  case GGracefulCall
  with assms show ?thesis by (auto split: if_splits intro: graceful)
next
  case GGracefulReturns
  with assms show ?thesis by (auto split: if_splits intro: stopped)
next
  case GSelectStopped
  with assms show ?thesis by (auto split: if_splits intro: selected)
next
  case GSelectTimeout
  with assms show ?thesis by (auto split: if_splits intro: forced)
next
  case GReceiveErr
  with assms show ?thesis by (auto split: grpc_pc.splits list.splits intro: got)
qed

lemma grpc_inv_start: "grpc_inv addr grpc_start"
  by (simp add: grpc_inv_defs grpc_start_def)

lemma grpc_chan_inv_exec:
  assumes "grpc_chan_inv s" and "grpc_result_inv addr s" and "grpc_exec addr c s e = Some t"
  shows "grpc_chan_inv t"
  using assms(3)
proof (cases rule: grpc_execE)
  case listen
  with assms(1,2) show ?thesis by (auto simp: grpc_chan_inv_def grpc_result_inv_def)
next
  case (got r rs)
  with assms(1) show ?thesis
    by (cases "g_serve s") (auto simp: grpc_chan_inv_def split: serve_pc.splits)
qed (use assms(1) in \<open>auto simp: grpc_chan_inv_def split: option.splits serve_pc.splits\<close>)

lemma grpc_result_inv_exec:
  assumes "grpc_chan_inv s" and "grpc_result_inv addr s" and "grpc_exec addr c s e = Some t"
  shows "grpc_result_inv addr t"
  using assms(3)
proof (cases rule: grpc_execE)
  case (got r rs)
  with assms(1) have "g_served s = Some r" "g_serve s \<noteq> None"
    by (auto simp: grpc_chan_inv_def split: option.splits serve_pc.splits)
  with got show ?thesis by (auto simp: grpc_result_inv_def)
next
  case (served r)
  with assms(1,2) show ?thesis
    by (auto simp: grpc_chan_inv_def grpc_result_inv_def stop_called_def split: grpc_pc.splits)
next
  case graceful
  with assms(2) show ?thesis
    by (auto simp: grpc_result_inv_def stop_called_def split: grpc_pc.splits if_splits)
next
  case stopped
  with assms(2) show ?thesis
    by (auto simp: grpc_result_inv_def stop_called_def split: grpc_pc.splits if_splits)
qed (use assms(2) in \<open>auto simp: grpc_result_inv_def stop_called_def split: grpc_pc.splits\<close>)

lemma stop_called_exec: "grpc_exec addr c s e = Some t \<Longrightarrow> stop_called s \<Longrightarrow> grpc_result_inv addr s \<Longrightarrow> stop_called t"
  by (erule grpc_execE) (auto simp: stop_called_def grpc_result_inv_def)

lemma grpc_closed_inv_exec:
  assumes "grpc_closed_inv s" and "grpc_result_inv addr s" and "grpc_exec addr c s e = Some t"
  shows "grpc_closed_inv t"
proof -
  have "g_served t = g_served s \<or> (g_served t = Some None \<longrightarrow> stop_called s)"
    using assms(3) by (cases rule: grpc_execE) auto
  then show ?thesis using assms stop_called_exec [OF assms(3)] by (auto simp: grpc_closed_inv_def)
qed

lemma grpc_inv_exec: "grpc_inv addr s \<Longrightarrow> grpc_exec addr c s e = Some t \<Longrightarrow> grpc_inv addr t"
  unfolding grpc_inv_def
  by (blast intro: grpc_chan_inv_exec grpc_result_inv_exec grpc_closed_inv_exec)

lemma grpc_rank_exec: "grpc_inv addr s \<Longrightarrow> grpc_exec addr c s e = Some t \<Longrightarrow> grpc_rank t < grpc_rank s"
  by (erule grpc_execE) (auto simp: grpc_rank_def grpc_inv_def grpc_result_inv_def split: option.splits)

lemma grpc_rank_le: "grpc_rank s \<le> 10"
proof -
  have "grpc_pc_rank (g_pc s) \<le> 4" by (cases "g_pc s") simp_all
  moreover have "stop_rank (g_stop s) \<le> 3" by (cases "g_stop s") simp_all
  moreover have "serve_rank p \<le> 3" for p by (cases p) simp_all
  then have "(case g_serve s of None \<Rightarrow> (if g_pc s = GListen then 3 else 0) | Some p \<Rightarrow> serve_rank p) \<le> 3"
    by (cases "g_serve s") simp_all
  ultimately show ?thesis unfolding grpc_rank_def by linarith
qed

lemma grpc_result_exec: "grpc_exec addr c s e = Some t \<Longrightarrow> grpc_result s = Some r \<Longrightarrow> grpc_result t = Some r"
  by (erule grpc_execE) (auto simp: grpc_result_def split: grpc_pc.splits)

lemma grpc_progress:
  assumes "grpc_inv addr s" and "grpc_result s = None"
  shows "\<exists>e t. grpc_exec addr True s e = Some t"
proof (cases "g_pc s")
  case GListen
  then show ?thesis by (intro exI [of _ "GListens None"]) simp
next
  case GSelect
  then show ?thesis by (intro exI [of _ GSelectDone]) simp
next
  case GStopping
  then show ?thesis by (intro exI [of _ GSelectTimeout]) simp
next
  case GReceive
  with assms(1) obtain p where p: "g_serve s = Some p" "stop_called s" by (auto simp: grpc_inv_defs)
  show ?thesis
  proof (cases p)
    case ServeCalling
    with p show ?thesis by (intro exI [of _ GServe]) simp
  next
    case Serving
    with p show ?thesis by (intro exI [of _ "GServeReturns None"]) simp
  next
    case (ServeSending r)
    with p assms(1) show ?thesis by (intro exI [of _ GSend]) (simp add: grpc_inv_defs)
  next
    case ServeEnded
    with p GReceive assms(1) obtain r rs where "g_errCh s = r # rs" by (cases "g_errCh s") (auto simp: grpc_inv_defs)
    with GReceive show ?thesis by (intro exI [of _ GReceiveErr]) simp
  qed
next
  case (GReturned r)
  with assms(2) show ?thesis by (simp add: grpc_result_def)
qed

lemma grpc_result_start: "grpc_result grpc_start = None"
  by (simp add: grpc_result_def grpc_start_def)

interpretation grpc: task "grpc_exec addr" grpc_start grpc_result "grpc_inv addr" grpc_rank for addr
  by unfold_locales
     (simp_all add: grpc_inv_start grpc_inv_exec grpc_rank_exec grpc_result_exec grpc_progress grpc_result_start)

lemma grpc_uncancelled:
  assumes "grpc.steps addr s es t" and "\<forall>(c, e) \<in> set es. \<not> c"
    and "g_stop s = StopIdle" and "\<not> g_forced s" and "g_pc s \<notin> {GStopping, GReceive}"
  shows "g_stop t = StopIdle \<and> \<not> g_forced t \<and> g_pc t \<notin> {GStopping, GReceive}"
  using assms unfolding grpc.steps_def
proof (induction rule: run.induct)
  case (run_Cons s x t es u)
  obtain c e where x: "x = (c, e)" by fastforce
  with run_Cons.hyps run_Cons.prems have "grpc_exec addr False s e = Some t" by auto
  then have "g_stop t = StopIdle \<and> \<not> g_forced t \<and> g_pc t \<notin> {GStopping, GReceive}"
    using run_Cons.prems by (cases rule: grpc_execE) auto
  with run_Cons show ?case by auto
qed simp

text \<open>
  What \<^verbatim>\<open>GRPCServer.Run\<close> returns, however the serving and the stopping goroutine, the
  cancellation and the timeout interleave: the wrapped error of listening, in which case
  nothing was served, or else exactly what \<^verbatim>\<open>Serve\<close> returned. In the second case the result is
  nil only if the server was told to stop, which happens only after the context was cancelled.
\<close>

lemma grpc_run_outcome:
  assumes "run (\<lambda>s (c, e) t. grpc_exec addr c s e = Some t) grpc_start es s" and "grpc_result s = Some r"
  shows "(if g_serve s = None
      then \<exists>e. r = Some (Wrapf (''grpc server: listening on '' @ addr @ '': '') e '''')
      else g_served s = Some r \<and> (r = None \<longrightarrow> stop_called s \<and> (\<exists>(c, e) \<in> set es. c)))"
proof -
  from assms(1) have steps: "grpc.steps addr grpc_start es s" by (simp add: grpc.steps_def)
  from grpc.steps_inv [OF this grpc_inv_start] have inv: "grpc_inv addr s" .
  from assms(2) have pc: "g_pc s = GReturned r" by (auto simp: grpc_result_def split: grpc_pc.splits)
  have "\<exists>(c, e) \<in> set es. c" if "stop_called s"
  proof (rule ccontr)
    assume "\<not> (\<exists>(c, e) \<in> set es. c)"
    with grpc_uncancelled [OF steps] have "g_stop s = StopIdle \<and> \<not> g_forced s" by (auto simp: grpc_start_def)
    with that show False by (simp add: stop_called_def)
  qed
  with inv pc show ?thesis by (auto simp: grpc_inv_defs)
qed


end
