(* ===== verification/Go_JSON.thy ===== *)
theory Go_JSON
  imports Go_UTF8
begin

text \<open>
  The parts of Go's \<^verbatim>\<open>encoding/json\<close> that the program's HTTP bodies go through: quoting and
  unquoting of strings, the printer, and the parser that checks a value before it is decoded.
  A value is a syntax tree whose strings are the bytes between the quotes and whose numbers
  are their literals, because decoding looks at these.
\<close>

section \<open>Strings\<close>

abbreviation Quote :: char where "Quote \<equiv> CHR 0x22"
abbreviation Backslash :: char where "Backslash \<equiv> CHR 0x5C"

text \<open>\<^verbatim>\<open>appendString\<close> with HTML escaping on, as \<^verbatim>\<open>Marshal\<close> and an \<^verbatim>\<open>Encoder\<close> call it, rune by rune.\<close>

definition quote_ascii :: "char \<Rightarrow> string" where
  "quote_ascii c =
     (if c = Quote \<or> c = Backslash then [Backslash, c]
      else if byte c = 8 then [Backslash, CHR ''b'']
      else if byte c = 12 then [Backslash, CHR ''f'']
      else if byte c = 10 then [Backslash, CHR ''n'']
      else if byte c = 13 then [Backslash, CHR ''r'']
      else if byte c = 9 then [Backslash, CHR ''t'']
      else if byte c < 0x20 \<or> c \<in> set ''<>&''
      then Backslash # ''u00'' @ [hex_digit (byte c div 16), hex_digit (byte c mod 16)]
      else [c])"

definition quote_rune :: "string \<Rightarrow> string" where
  "quote_rune r =
     (case r of
        [c] \<Rightarrow> if byte c < 0x80 then quote_ascii c else Backslash # ''ufffd''
      | _ \<Rightarrow>
          if r = [CHR 0xE2, CHR 0x80, CHR 0xA8] then Backslash # ''u2028''
          else if r = [CHR 0xE2, CHR 0x80, CHR 0xA9] then Backslash # ''u2029''
          else r)"

definition json_quote :: "string \<Rightarrow> string" where
  "json_quote s = concat (map quote_rune (runes s))"

text \<open>\<^verbatim>\<open>getu4\<close>, on the text after a backslash and the letter u.\<close>

definition hex_value :: "char \<Rightarrow> nat option" where
  "hex_value c =
     (if 48 \<le> byte c \<and> byte c \<le> 57 then Some (byte c - 48)
      else if 97 \<le> byte c \<and> byte c \<le> 102 then Some (byte c - 87)
      else if 65 \<le> byte c \<and> byte c \<le> 70 then Some (byte c - 55)
      else None)"

fun hex4 :: "string \<Rightarrow> nat option" where
  "hex4 (a # b # c # d # _) =
     (case (hex_value a, hex_value b, hex_value c, hex_value d) of
        (Some w, Some x, Some y, Some z) \<Rightarrow> Some (((w * 16 + x) * 16 + y) * 16 + z)
      | _ \<Rightarrow> None)"
| "hex4 _ = None"

definition is_surrogate :: "nat \<Rightarrow> bool" where
  "is_surrogate r \<longleftrightarrow> 0xD800 \<le> r \<and> r \<le> 0xDFFF"

text \<open>\<^verbatim>\<open>utf16.DecodeRune\<close>, where the two halves form a pair.\<close>

definition surrogate_pair :: "nat \<Rightarrow> nat \<Rightarrow> nat option" where
  "surrogate_pair hi lo =
     (if 0xD800 \<le> hi \<and> hi < 0xDC00 \<and> 0xDC00 \<le> lo \<and> lo < 0xE000
      then Some ((hi - 0xD800) * 1024 + (lo - 0xDC00) + 0x10000) else None)"

definition low_half :: "string \<Rightarrow> nat option" where
  "low_half s = (if take 2 s = [Backslash, CHR ''u''] then hex4 (drop 2 s) else None)"

text \<open>What an escape of four hexadecimal digits stands for, and how many bytes after them it takes.\<close>

definition unicode_escape :: "nat \<Rightarrow> string \<Rightarrow> string \<times> nat" where
  "unicode_escape r s =
     (if is_surrogate r
      then (case Option.bind (low_half s) (surrogate_pair r) of
              Some r' \<Rightarrow> (encode_rune r', 6)
            | None \<Rightarrow> (replacement, 0))
      else (encode_rune r, 0))"

definition simple_escape :: "char \<Rightarrow> char option" where
  "simple_escape c =
     (if c \<in> {Quote, Backslash, CHR ''/''} then Some c
      else map_of [(CHR ''b'', CHR 0x08), (CHR ''f'', CHR 0x0C), (CHR ''n'', CHR 0x0A),
        (CHR ''r'', CHR 0x0D), (CHR ''t'', CHR 0x09)] c)"

text \<open>\<^verbatim>\<open>unquote\<close>, on the bytes between the quotes.\<close>

fun unquote :: "string \<Rightarrow> string option" where
  "unquote [] = Some []"
| "unquote (c # cs) =
     (if c = Backslash then
        (case cs of
           [] \<Rightarrow> None
         | e # es \<Rightarrow>
             if e = CHR ''u'' then
               (case hex4 es of
                  None \<Rightarrow> None
                | Some r \<Rightarrow>
                    (case unicode_escape r (drop 4 es) of
                       (t, n) \<Rightarrow> map_option (append t) (unquote (drop (4 + n) es))))
             else (case simple_escape e of
                     None \<Rightarrow> None
                   | Some x \<Rightarrow> map_option (Cons x) (unquote es)))
      else if c = Quote \<or> byte c < 0x20 then None
      else if rune_size (c # cs) = 0 then map_option (append replacement) (unquote cs)
      else let n = rune_size (c # cs) - 1 in map_option (append (c # take n cs)) (unquote (drop n cs)))"

declare unquote.simps [simp del]

lemma hex_value_digit: "n < 16 \<Longrightarrow> hex_value (hex_digit n) = Some n"
proof -
  have "list_all (\<lambda>n. hex_value (hex_digit n) = Some n) [0..<16]" by code_simp
  then show "n < 16 \<Longrightarrow> hex_value (hex_digit n) = Some n" by (simp add: list_all_iff)
qed

text \<open>One step of \<^verbatim>\<open>unquote\<close> for each kind of piece the quoted text consists of.\<close>

lemma unquote_simple:
  "e \<noteq> CHR ''u'' \<Longrightarrow> simple_escape e = Some x \<Longrightarrow>
     unquote (Backslash # e # t) = map_option (Cons x) (unquote t)"
  by (simp add: unquote.simps)

lemma unquote_hex:
  assumes "hex4 h = Some r" and "length h = 4" and "\<not> is_surrogate r"
  shows "unquote (Backslash # CHR ''u'' # h @ t) = map_option (append (encode_rune r)) (unquote t)"
proof -
  obtain a b c d where "h = [a, b, c, d]" using assms(2) by (auto simp: numeral_eq_Suc length_Suc_conv)
  with assms show ?thesis by (simp add: unquote.simps(2) [of Backslash] unicode_escape_def split: option.splits)
qed

lemma unquote_rune:
  assumes "well_formed r" and "hd r \<noteq> Backslash" and "hd r \<noteq> Quote" and "0x20 \<le> byte (hd r)"
  shows "unquote (r @ t) = map_option (append r) (unquote t)"
proof -
  obtain c cs where r: "r = c # cs" using assms(1) by (cases r) (auto simp: well_formed_def)
  with rune_size_prefix [OF assms(1), of t] have "rune_size (c # cs @ t) = Suc (length cs)" by simp
  with assms r show ?thesis by (simp add: unquote.simps Let_def)
qed

lemma unquote_quote_ascii:
  assumes "byte c < 0x80"
  shows "unquote (quote_ascii c @ t) = map_option (Cons c) (unquote t)"
proof -
  have simple: "simple_escape Quote = Some Quote" "simple_escape Backslash = Some Backslash"
    "simple_escape (CHR ''b'') = Some (CHR 0x08)" "simple_escape (CHR ''f'') = Some (CHR 0x0C)"
    "simple_escape (CHR ''n'') = Some (CHR 0x0A)" "simple_escape (CHR ''r'') = Some (CHR 0x0D)"
    "simple_escape (CHR ''t'') = Some (CHR 0x09)" by code_simp+
  have same: "c = d" if "byte c = byte d" for d using that by (metis of_char_eq_iff)
  have hex: "unquote (Backslash # ''u00'' @ [hex_digit (byte c div 16), hex_digit (byte c mod 16)] @ t) =
      map_option (Cons c) (unquote t)"
  proof -
    have "hex4 (''00'' @ [hex_digit (byte c div 16), hex_digit (byte c mod 16)]) = Some (byte c)"
      using hex_value_digit [of "byte c div 16"] hex_value_digit [of "byte c mod 16"] assms
      by (simp add: hex_value_def [of "CHR ''0''"])
    moreover have "append [c] = Cons c" by (rule ext) simp
    ultimately show ?thesis using unquote_hex [of _ "byte c" t] assms
      by (fastforce simp: is_surrogate_def encode_rune_def)
  qed
  have keep: "unquote (c # t) = map_option (Cons c) (unquote t)"
    if "c \<noteq> Quote" "c \<noteq> Backslash" "0x20 \<le> byte c"
    using unquote_rune [of "[c]" t] that assms by (simp cong: map_option_cong)
  show ?thesis
    using hex keep unquote_simple simple same [of "CHR 0x08"] same [of "CHR 0x0C"] same [of "CHR 0x0A"]
      same [of "CHR 0x0D"] same [of "CHR 0x09"]
    unfolding quote_ascii_def by auto
qed

lemma unquote_quote_rune:
  assumes "well_formed r"
  shows "unquote (quote_rune r @ t) = map_option (append r) (unquote t)"
proof -
  consider (ascii) c where "r = [c]" "byte c < 0x80" | (sep) "r \<in> {[CHR 0xE2, CHR 0x80, CHR 0xA8], [CHR 0xE2, CHR 0x80, CHR 0xA9]}"
    | (long) "1 < length r" "quote_rune r = r"
  proof (cases r rule: remdups_adj.cases)
    case (3 c d ds)
    show ?thesis
    proof (cases "r \<in> {[CHR 0xE2, CHR 0x80, CHR 0xA8], [CHR 0xE2, CHR 0x80, CHR 0xA9]}")
      case False
      then have "quote_rune r = r" unfolding 3 quote_rune_def by (simp del: list.inject)
      then show ?thesis using long 3 by simp
    qed (rule sep)
  next
    case (2 c)
    then show ?thesis using assms ascii by simp
  qed (use assms in \<open>simp add: well_formed_def\<close>)
  then show ?thesis
  proof cases
    case ascii
    then show ?thesis using unquote_quote_ascii [of c t] by (simp add: quote_rune_def cong: map_option_cong)
  next
    case sep
    have "encode_rune 0x2028 = [CHR 0xE2, CHR 0x80, CHR 0xA8]" "encode_rune 0x2029 = [CHR 0xE2, CHR 0x80, CHR 0xA9]"
      "hex4 ''2028'' = Some 0x2028" "hex4 ''2029'' = Some 0x2029" by (simp_all add: hex_value_def encode_rune_def char_of_eq_iff)
    with sep unquote_hex [of "''2028''" "0x2028" t] unquote_hex [of "''2029''" "0x2029" t] show ?thesis
      by (auto simp: quote_rune_def is_surrogate_def)
  next
    case long
    then obtain c cs where "r = c # cs" by (cases r) auto
    moreover from this not_ascii_in_rune [OF assms long(1), of c] have "0x80 \<le> byte c" by simp
    moreover from this have "c \<noteq> Backslash" "c \<noteq> Quote" by auto
    ultimately show ?thesis using unquote_rune [OF assms, of t] long(2) by auto
  qed
qed

text \<open>
  Quoting and unquoting a string gives it back with the bytes that are not UTF-8 replaced.
\<close>

lemma json_quote_Nil [simp]: "json_quote [] = []"
  by (simp add: json_quote_def)

lemma json_quote_rune: "well_formed r \<Longrightarrow> json_quote (r @ t) = quote_rune r @ json_quote t"
  by (simp add: json_quote_def runes_well_formed)

lemma json_quote_bad:
  assumes "rune_size (c # t) = 0" and "\<not> well_formed [c]"
  shows "json_quote (c # t) = (Backslash # ''ufffd'') @ json_quote t"
proof -
  have "quote_rune [c] = Backslash # ''ufffd''" using assms(2) by (simp add: quote_rune_def)
  then show ?thesis unfolding json_quote_def runes_ill_formed [OF assms(1)] by simp
qed

lemma unquote_json_quote: "unquote (json_quote s) = Some (coerce_utf8 s)"
proof (induction s rule: runes_induct)
  case Nil
  show ?case by (simp add: unquote.simps)
next
  case (rune r t)
  then show ?case using unquote_quote_rune [of r "json_quote t"] by (simp add: json_quote_rune coerce_utf8_rune)
next
  case (bad c t)
  have hex: "hex4 ''fffd'' = Some 0xFFFD" "length ''fffd'' = 4" "\<not> is_surrogate 0xFFFD"
    and enc: "encode_rune 0xFFFD = replacement"
    by (simp_all add: hex_value_def is_surrogate_def encode_rune_def replacement_def char_of_eq_iff)
  from unquote_hex [OF hex, of "json_quote t"]
  have "unquote ((Backslash # ''ufffd'') @ json_quote t) = Some (replacement @ coerce_utf8 t)"
    unfolding enc bad(3) by simp
  then show ?case unfolding json_quote_bad [OF bad(1,2)] coerce_utf8_bad [OF bad(1,2)] .
qed

section \<open>The scanner's strings and numbers\<close>

definition pre :: "string \<Rightarrow> (string \<times> string) option \<Rightarrow> (string \<times> string) option" where
  "pre p = map_option (\<lambda>(r, t). (p @ r, t))"

text \<open>The text after an opening quote, up to the closing one, and what follows.\<close>

fun scan_string :: "string \<Rightarrow> (string \<times> string) option" where
  "scan_string [] = None"
| "scan_string (c # cs) =
     (if c = Quote then Some ([], cs)
      else if c = Backslash then
        (case cs of
           [] \<Rightarrow> None
         | e # es \<Rightarrow>
             if e = CHR ''u'' then
               (if hex4 es = None then None else pre (c # e # take 4 es) (scan_string (drop 4 es)))
             else if simple_escape e = None then None
             else pre [c, e] (scan_string es))
      else if byte c < 0x20 then None
      else pre [c] (scan_string cs))"

declare scan_string.simps [simp del]

text \<open>A text the scanner passes over whatever follows, leaving it for \<^verbatim>\<open>unquote\<close>.\<close>

definition raw_text :: "string \<Rightarrow> bool" where
  "raw_text p \<longleftrightarrow> (\<forall>t. scan_string (p @ t) = pre p (scan_string t))"

lemma pre_Nil [simp]: "pre [] x = x"
  by (cases x) (auto simp: pre_def)

lemma pre_pre [simp]: "pre p (pre q x) = pre (p @ q) x"
  by (cases x) (auto simp: pre_def)

lemma raw_text_Nil [simp]: "raw_text []"
  by (simp add: raw_text_def)

lemma raw_text_append [intro]: "raw_text p \<Longrightarrow> raw_text q \<Longrightarrow> raw_text (p @ q)"
  by (simp add: raw_text_def)

lemma raw_text_concat: "list_all raw_text ps \<Longrightarrow> raw_text (concat ps)"
  by (induction ps) auto

lemma raw_text_char [intro]: "c \<noteq> Quote \<Longrightarrow> c \<noteq> Backslash \<Longrightarrow> 0x20 \<le> byte c \<Longrightarrow> raw_text [c]"
  by (simp add: raw_text_def scan_string.simps)

lemma raw_text_plain: "list_all (\<lambda>c. c \<noteq> Quote \<and> c \<noteq> Backslash \<and> 0x20 \<le> byte c) s \<Longrightarrow> raw_text s"
proof (induction s)
  case (Cons c s)
  then show ?case using raw_text_append [of "[c]" s] raw_text_char [of c] by simp
qed simp

lemma raw_text_simple [intro]: "e \<noteq> CHR ''u'' \<Longrightarrow> simple_escape e \<noteq> None \<Longrightarrow> raw_text [Backslash, e]"
  by (auto simp: raw_text_def scan_string.simps)

lemma raw_text_hex:
  assumes "hex4 h = Some r" and "length h = 4"
  shows "raw_text (Backslash # CHR ''u'' # h)"
proof -
  obtain a b c d where "h = [a, b, c, d]" using assms(2) by (auto simp: numeral_eq_Suc length_Suc_conv)
  with assms show ?thesis by (simp add: raw_text_def scan_string.simps split: option.splits)
qed

lemma raw_text_quote_ascii:
  assumes "byte c < 0x80"
  shows "raw_text (quote_ascii c)"
proof -
  have simple: "simple_escape Quote \<noteq> None" "simple_escape Backslash \<noteq> None" "simple_escape (CHR ''b'') \<noteq> None"
    "simple_escape (CHR ''f'') \<noteq> None" "simple_escape (CHR ''n'') \<noteq> None" "simple_escape (CHR ''r'') \<noteq> None"
    "simple_escape (CHR ''t'') \<noteq> None" by code_simp+
  have "hex4 (''00'' @ [hex_digit (byte c div 16), hex_digit (byte c mod 16)]) = Some (byte c)"
    using hex_value_digit [of "byte c div 16"] hex_value_digit [of "byte c mod 16"] assms
    by (simp add: hex_value_def [of "CHR ''0''"])
  from raw_text_hex [OF this] show ?thesis
    using simple raw_text_char [of c] unfolding quote_ascii_def by (auto intro: raw_text_simple)
qed

lemma raw_text_quote_rune:
  assumes "well_formed r"
  shows "raw_text (quote_rune r)"
proof (cases "length r = 1")
  case True
  with assms obtain c where "r = [c]" "byte c < 0x80" by (auto simp: length_Suc_conv)
  then show ?thesis using raw_text_quote_ascii by (simp add: quote_rune_def)
next
  case False
  with assms have "1 < length r" by (cases r) (auto simp: well_formed_def)
  from not_ascii_in_rune [OF assms this] have "list_all (\<lambda>c. c \<noteq> Quote \<and> c \<noteq> Backslash \<and> 0x20 \<le> byte c) r"
    unfolding list_all_iff by force
  then have "raw_text r" by (rule raw_text_plain)
  moreover have "raw_text (Backslash # ''u2028'')" "raw_text (Backslash # ''u2029'')"
    by (rule raw_text_hex; simp add: hex_value_def)+
  ultimately show ?thesis using False by (auto simp: quote_rune_def split: list.split)
qed

lemma raw_text_json_quote: "raw_text (json_quote s)"
proof (induction s rule: runes_induct)
  case (bad c t)
  have "raw_text (Backslash # ''ufffd'')" by (rule raw_text_hex) (simp_all add: hex_value_def)
  with bad show ?case unfolding json_quote_bad [OF bad(1,2)] by (intro raw_text_append)
qed (auto simp: json_quote_rune raw_text_quote_rune)

lemma scan_raw_text: "raw_text p \<Longrightarrow> scan_string (p @ Quote # t) = Some (p, t)"
  by (simp add: raw_text_def scan_string.simps pre_def)

text \<open>A number literal at the start of a text: sign, integer part, fraction, exponent.\<close>

definition scan_int :: "string \<Rightarrow> (string \<times> string) option" where
  "scan_int s =
     (case s of
        [] \<Rightarrow> None
      | c # cs \<Rightarrow>
          if c = CHR ''0'' then Some ([c], cs)
          else if is_digit c then Some (c # takeWhile is_digit cs, dropWhile is_digit cs)
          else None)"

definition scan_digits :: "string \<Rightarrow> (string \<times> string) option" where
  "scan_digits s =
     (if takeWhile is_digit s = [] then None else Some (takeWhile is_digit s, dropWhile is_digit s))"

definition scan_fraction :: "string \<Rightarrow> (string \<times> string) option" where
  "scan_fraction s =
     (case s of
        c # cs \<Rightarrow> if c = CHR ''.'' then pre [c] (scan_digits cs) else Some ([], s)
      | [] \<Rightarrow> Some ([], s))"

definition scan_exponent :: "string \<Rightarrow> (string \<times> string) option" where
  "scan_exponent s =
     (case s of
        c # cs \<Rightarrow>
          if c = CHR ''e'' \<or> c = CHR ''E''
          then (case cs of
                  d # ds \<Rightarrow> if d = CHR ''+'' \<or> d = CHR ''-'' then pre [c, d] (scan_digits ds) else pre [c] (scan_digits cs)
                | [] \<Rightarrow> None)
          else Some ([], s)
      | [] \<Rightarrow> Some ([], s))"

definition scan_then :: "(string \<times> string) option \<Rightarrow> (string \<Rightarrow> (string \<times> string) option) \<Rightarrow> (string \<times> string) option" where
  "scan_then x f = (case x of None \<Rightarrow> None | Some (p, t) \<Rightarrow> pre p (f t))"

definition scan_number :: "string \<Rightarrow> (string \<times> string) option" where
  "scan_number s =
     (case s of
        c # cs \<Rightarrow>
          if c = CHR ''-'' then pre [c] (scan_then (scan_then (scan_int cs) scan_fraction) scan_exponent)
          else scan_then (scan_then (scan_int s) scan_fraction) scan_exponent
      | [] \<Rightarrow> None)"

text \<open>What may follow a number without becoming a part of it.\<close>

definition number_end :: "string \<Rightarrow> bool" where
  "number_end t \<longleftrightarrow> (case t of [] \<Rightarrow> True | c # _ \<Rightarrow> \<not> is_digit c \<and> c \<notin> set ''.eE'')"

definition number_literal :: "string \<Rightarrow> bool" where
  "number_literal n \<longleftrightarrow> (\<forall>t. number_end t \<longrightarrow> scan_number (n @ t) = Some (n, t))"

lemma number_end_tail: "number_end t \<Longrightarrow> scan_fraction t = Some ([], t)" "number_end t \<Longrightarrow> scan_exponent t = Some ([], t)"
  by (auto simp: number_end_def scan_fraction_def scan_exponent_def split: list.splits)

lemma dec_nat_no_leading_zero: "dec_nat n = CHR ''0'' # cs \<Longrightarrow> cs = []"
proof (induction n arbitrary: cs rule: dec_nat.induct)
  case (1 n)
  show ?case
  proof (cases "n < 10")
    case False
    obtain d ds where d: "dec_nat (n div 10) = d # ds" using dec_nat_Cons [of "n div 10"] by blast
    with 1(2) False have "d = CHR ''0''" by (simp add: dec_nat.simps [of n])
    with 1(1) [OF False] d have "dec_nat (n div 10) = ''0''" by simp
    then have "digits_value (dec_nat (n div 10)) = 0" by (simp add: digits_value_def)
    with False show ?thesis by simp
  qed (use 1 in \<open>simp add: dec_nat.simps [of n]\<close>)
qed

lemma scan_int_dec_nat:
  assumes "number_end t"
  shows "scan_int (dec_nat n @ t) = Some (dec_nat n, t)"
proof -
  obtain c cs where d: "dec_nat n = c # cs" using dec_nat_Cons [of n] by blast
  from dec_nat_digits [of n] d have digits: "is_digit c" "list_all is_digit cs" by simp_all
  have stop: "takeWhile is_digit t = []" "dropWhile is_digit t = t"
    using assms by (auto simp: number_end_def split: list.splits)
  have "takeWhile is_digit (cs @ t) = cs" "dropWhile is_digit (cs @ t) = t"
    using digits(2) stop by (auto simp: takeWhile_append2 dropWhile_append2 list_all_iff)
  moreover have "c = CHR ''0'' \<Longrightarrow> cs = []" using dec_nat_no_leading_zero [of n cs] d by simp
  ultimately show ?thesis using d digits(1) by (auto simp: scan_int_def)
qed

lemma scan_unsigned_dec_nat:
  "number_end t \<Longrightarrow>
     scan_then (scan_then (scan_int (dec_nat n @ t)) scan_fraction) scan_exponent = Some (dec_nat n, t)"
  by (simp add: scan_int_dec_nat scan_then_def number_end_tail pre_def)

lemma number_literal_dec_nat: "number_literal (dec_nat n)"
proof -
  obtain c cs where c: "dec_nat n = c # cs" "c \<noteq> CHR ''-''" using dec_nat_Cons [of n] by blast
  have "scan_number (dec_nat n @ t) = scan_then (scan_then (scan_int (dec_nat n @ t)) scan_fraction) scan_exponent" for t
    unfolding scan_number_def c(1) using c(2) by simp
  then show ?thesis by (simp add: number_literal_def scan_unsigned_dec_nat)
qed

lemma number_literal_itoa: "number_literal (itoa i)"
proof (cases "i < 0")
  case True
  then show ?thesis by (simp add: itoa_def number_literal_def scan_number_def scan_unsigned_dec_nat pre_def)
next
  case False
  then show ?thesis using number_literal_dec_nat by (simp add: itoa_def)
qed

lemma number_literal_first:
  assumes "number_literal n"
  obtains c cs where "n = c # cs" "c = CHR ''-'' \<or> is_digit c"
proof -
  have "scan_number n = Some (n, [])" using assms [unfolded number_literal_def, rule_format, of "[]"] by (simp add: number_end_def)
  then show thesis
    using that by (auto simp: scan_number_def scan_then_def scan_int_def pre_def is_digit_def
        split: list.splits if_splits option.splits)
qed

section \<open>Values\<close>

datatype json =
    JNull
  | JBool bool
  | JNumber string
  | JString string
  | JArray "json list"
  | JObject "(string \<times> json) list"

fun commas :: "string list \<Rightarrow> string" where
  "commas [] = ''''"
| "commas [s] = s"
| "commas (s # ss) = s @ CHR '','' # commas ss"

definition quoted :: "string \<Rightarrow> string" where
  "quoted raw = Quote # raw @ [Quote]"

text \<open>The compact text \<^verbatim>\<open>Marshal\<close> produces.\<close>

fun json_text :: "json \<Rightarrow> string" where
  "json_text JNull = ''null''"
| "json_text (JBool b) = (if b then ''true'' else ''false'')"
| "json_text (JNumber n) = n"
| "json_text (JString raw) = quoted raw"
| "json_text (JArray vs) = ''['' @ commas (map json_text vs) @ '']''"
| "json_text (JObject kvs) =
     ''{'' @ commas (map (\<lambda>(k, v). quoted k @ CHR '':'' # json_text v) kvs) @ ''}''"

section \<open>The parser\<close>

definition is_space :: "char \<Rightarrow> bool" where
  "is_space c \<longleftrightarrow> byte c \<in> {9, 10, 13, 32}"

abbreviation skip_space :: "string \<Rightarrow> string" where
  "skip_space s \<equiv> dropWhile is_space s"

definition literal :: "string \<Rightarrow> json \<Rightarrow> string \<Rightarrow> (json \<times> string) option" where
  "literal word v s = (if has_prefix s word then Some (v, drop (length word) s) else None)"

text \<open>
  What follows an opening bracket, at least one item up to the closing bracket. Every round
  consumes a byte, so the length of the text is enough fuel.
\<close>

primrec parse_list :: "(string \<Rightarrow> ('a \<times> string) option) \<Rightarrow> char \<Rightarrow> nat \<Rightarrow> string \<Rightarrow> ('a list \<times> string) option" where
  "parse_list item close 0 s = None"
| "parse_list item close (Suc n) s =
     (case item s of
        None \<Rightarrow> None
      | Some (x, t) \<Rightarrow>
          (case skip_space t of
             [] \<Rightarrow> None
           | c # u \<Rightarrow>
               if c = CHR '','' then map_option (map_prod (Cons x) (\<lambda>y. y)) (parse_list item close n u)
               else if c = close then Some ([x], u) else None))"

definition parse_member :: "(string \<Rightarrow> (json \<times> string) option) \<Rightarrow> string \<Rightarrow> ((string \<times> json) \<times> string) option" where
  "parse_member pv s =
     (case skip_space s of
        [] \<Rightarrow> None
      | c # t \<Rightarrow>
          if c \<noteq> Quote then None
          else (case scan_string t of
                  None \<Rightarrow> None
                | Some (k, u) \<Rightarrow>
                    (case skip_space u of
                       [] \<Rightarrow> None
                     | c # w \<Rightarrow>
                         if c \<noteq> CHR '':'' then None
                         else (case pv w of None \<Rightarrow> None | Some (v, x) \<Rightarrow> Some ((k, v), x)))))"

text \<open>
  One value. \<open>inner\<close> parses what is nested in it; there is none beyond the nesting depth the
  scanner allows.
\<close>

definition parse_step :: "(string \<Rightarrow> (json \<times> string) option) option \<Rightarrow> string \<Rightarrow> (json \<times> string) option" where
  "parse_step inner s =
     (case skip_space s of
        [] \<Rightarrow> None
      | c # t \<Rightarrow>
          if c = Quote then map_option (map_prod JString (\<lambda>x. x)) (scan_string t)
          else if c = CHR ''['' then
            (case inner of
               None \<Rightarrow> None
             | Some pv \<Rightarrow>
                 if has_prefix (skip_space t) '']'' then Some (JArray [], drop 1 (skip_space t))
                 else map_option (map_prod JArray (\<lambda>x. x)) (parse_list pv (CHR '']'') (length t) t))
          else if c = CHR ''{'' then
            (case inner of
               None \<Rightarrow> None
             | Some pv \<Rightarrow>
                 if has_prefix (skip_space t) ''}'' then Some (JObject [], drop 1 (skip_space t))
                 else map_option (map_prod JObject (\<lambda>x. x)) (parse_list (parse_member pv) (CHR ''}'') (length t) t))
          else if c = CHR ''n'' then literal ''null'' JNull (c # t)
          else if c = CHR ''t'' then literal ''true'' (JBool True) (c # t)
          else if c = CHR ''f'' then literal ''false'' (JBool False) (c # t)
          else map_option (map_prod JNumber (\<lambda>x. x)) (scan_number (c # t)))"

fun parse_value :: "nat \<Rightarrow> string \<Rightarrow> (json \<times> string) option" where
  "parse_value d s = parse_step (if d = 0 then None else Some (parse_value (d - 1))) s"

declare parse_value.simps [simp del]

definition maxNestingDepth :: nat where
  "maxNestingDepth = 10000"

text \<open>\<^verbatim>\<open>Decoder.Decode\<close> reads one value and leaves what follows unread.\<close>

definition read_value :: "string \<Rightarrow> json option" where
  "read_value s = map_option fst (parse_value maxNestingDepth s)"

section \<open>Printing and parsing\<close>

text \<open>A value the printer may be given: well-formed leaves, nested at most \<open>d\<close> deep.\<close>

fun json_fits :: "nat \<Rightarrow> json \<Rightarrow> bool" where
  "json_fits d JNull = True"
| "json_fits d (JBool b) = True"
| "json_fits d (JNumber n) = number_literal n"
| "json_fits d (JString raw) = raw_text raw"
| "json_fits d (JArray vs) = (d \<noteq> 0 \<and> list_all (json_fits (d - 1)) vs)"
| "json_fits d (JObject kvs) = (d \<noteq> 0 \<and> list_all (\<lambda>(k, v). raw_text k \<and> json_fits (d - 1) v) kvs)"

lemma number_first_char:
  "c = CHR ''-'' \<or> is_digit c \<Longrightarrow> \<not> is_space c \<and> c \<notin> set ''[]{}ntf'' \<and> c \<noteq> Quote"
  by (auto simp: is_digit_def is_space_def)

lemma json_text_first:
  assumes "json_fits d v"
  obtains c cs where "json_text v = c # cs" "\<not> is_space c" "c \<noteq> CHR '']''" "c \<noteq> CHR ''}''"
proof (cases v)
  case (JNumber n)
  with assms obtain c cs where "n = c # cs" "c = CHR ''-'' \<or> is_digit c" by (auto elim: number_literal_first)
  moreover from this number_first_char [of c] have "\<not> is_space c" "c \<noteq> CHR '']''" "c \<noteq> CHR ''}''" by auto
  ultimately show thesis using that JNumber by simp
next
  case (JBool b)
  then show thesis using that by (cases b) (simp_all add: is_space_def)
qed (use that in \<open>auto simp: is_space_def quoted_def split: if_splits\<close>)

lemma number_end_delimiter: "c \<in> set '',]}'' \<Longrightarrow> number_end (c # t)"
  by (auto simp: number_end_def is_digit_def)

lemma not_space_delimiter: "c \<in> set '',]}:'' \<Longrightarrow> \<not> is_space c"
  by (auto simp: is_space_def)

lemma parse_list_commas:
  assumes "\<forall>x \<in> set xs. \<forall>t. number_end t \<longrightarrow> item (txt x @ t) = Some (x, t)"
    and "close \<in> set '']}''" and "xs \<noteq> []" and "length xs \<le> n"
  shows "parse_list item close n (commas (map txt xs) @ close # t) = Some (xs, t)"
  using assms
proof (induction "map txt xs" arbitrary: xs n rule: commas.induct)
  case (2 s)
  then obtain x where "xs = [x]" by auto
  with 2 show ?case by (cases n) (auto simp: number_end_delimiter not_space_delimiter)
next
  case (3 s s' ss)
  then obtain x y xs' where xs: "xs = x # y # xs'" by (auto simp: Cons_eq_map_conv)
  from 3(6) xs obtain m where n: "n = Suc m" "length (y # xs') \<le> m" by (cases n) auto
  have "parse_list item close m (commas (map txt (y # xs')) @ close # t) = Some (y # xs', t)"
    using 3 xs n(2) by (intro 3(1)) auto
  with 3(3) xs n(1) show ?case by (simp add: number_end_delimiter not_space_delimiter)
qed simp

definition member_text :: "string \<times> json \<Rightarrow> string" where
  "member_text = (\<lambda>(k, v). quoted k @ CHR '':'' # json_text v)"

lemma parse_member_text:
  assumes "raw_text k" and "pv (json_text v @ t) = Some (v, t)"
  shows "parse_member pv (member_text (k, v) @ t) = Some ((k, v), t)"
proof -
  have quote: "\<not> is_space Quote" by (simp add: is_space_def)
  show ?thesis
    using assms scan_raw_text [OF assms(1), of "CHR '':'' # json_text v @ t"] quote
    by (simp add: parse_member_def member_text_def quoted_def not_space_delimiter)
qed

lemma length_commas: "length ss \<le> Suc (length (commas ss))"
  by (induction ss rule: commas.induct) auto

lemma skip_commas_first:
  assumes "ss \<noteq> []" and "hd ss = c # cs" and "\<not> is_space c"
  shows "\<exists>u. skip_space (commas ss @ t) = c # u"
  using assms by (cases ss rule: commas.cases) auto

lemma parse_array_text:
  assumes "\<forall>v \<in> set vs. \<forall>t. number_end t \<longrightarrow> pv (json_text v @ t) = Some (v, t)" and "list_all (json_fits d) vs"
  shows "parse_step (Some pv) (json_text (JArray vs) @ t) = Some (JArray vs, t)"
proof (cases vs)
  case Nil
  then show ?thesis by (simp add: parse_step_def is_space_def)
next
  case (Cons v vs')
  with assms(2) obtain c cs where "json_text v = c # cs" "\<not> is_space c" "c \<noteq> CHR '']''"
    by (auto elim: json_text_first)
  with skip_commas_first [of "map json_text vs" c cs "CHR '']'' # t"] Cons obtain u where
    "skip_space (commas (map json_text vs) @ CHR '']'' # t) = c # u" "c \<noteq> CHR '']''" by auto
  then have "\<not> has_prefix (skip_space (commas (map json_text vs) @ CHR '']'' # t)) '']''"
    by (simp add: has_prefix_iff)
  moreover have "parse_list pv (CHR '']'') (length (commas (map json_text vs) @ CHR '']'' # t))
      (commas (map json_text vs) @ CHR '']'' # t) = Some (vs, t)"
    using assms(1) Cons length_commas [of "map json_text vs"] by (intro parse_list_commas) auto
  ultimately show ?thesis by (simp add: parse_step_def is_space_def)
qed

lemma parse_object_text:
  assumes "\<forall>(k, v) \<in> set kvs. raw_text k \<and> (\<forall>t. number_end t \<longrightarrow> pv (json_text v @ t) = Some (v, t))"
  shows "parse_step (Some pv) (json_text (JObject kvs) @ t) = Some (JObject kvs, t)"
proof (cases kvs)
  case Nil
  then show ?thesis by (simp add: parse_step_def is_space_def)
next
  case (Cons m kvs')
  have members: "\<forall>m \<in> set kvs. \<forall>t. number_end t \<longrightarrow> parse_member pv (member_text m @ t) = Some (m, t)"
    using assms parse_member_text by fastforce
  have "\<exists>u. hd (map member_text kvs) = Quote # u" using Cons by (cases m) (simp add: member_text_def quoted_def)
  then obtain u where "skip_space (commas (map member_text kvs) @ CHR ''}'' # t) = Quote # u"
    using skip_commas_first [of "map member_text kvs" Quote _ "CHR ''}'' # t"] Cons by (auto simp: is_space_def)
  then have "\<not> has_prefix (skip_space (commas (map member_text kvs) @ CHR ''}'' # t)) ''}''"
    by (simp add: has_prefix_iff)
  moreover have "parse_list (parse_member pv) (CHR ''}'') (length (commas (map member_text kvs) @ CHR ''}'' # t))
      (commas (map member_text kvs) @ CHR ''}'' # t) = Some (kvs, t)"
    using Cons length_commas [of "map member_text kvs"] by (intro parse_list_commas [OF members]) auto
  ultimately show ?thesis by (simp add: parse_step_def is_space_def member_text_def)
qed

text \<open>Parsing the text of a value gives the value back and leaves what follows.\<close>

lemma parse_json_text:
  "json_fits d v \<Longrightarrow> number_end t \<Longrightarrow> parse_value d (json_text v @ t) = Some (v, t)"
proof (induction v arbitrary: d t)
  case (JNumber n)
  then obtain c cs where n: "n = c # cs" and c: "c = CHR ''-'' \<or> is_digit c" by (auto elim: number_literal_first)
  from JNumber have "scan_number (n @ t) = Some (n, t)" by (simp add: number_literal_def)
  with n number_first_char [OF c] show ?case by (simp add: parse_value.simps [of d] parse_step_def)
next
  case (JString raw)
  then show ?case
    using scan_raw_text [of raw t] by (simp add: parse_value.simps [of d] parse_step_def is_space_def quoted_def)
next
  case (JArray vs)
  then have d: "d \<noteq> 0" "list_all (json_fits (d - 1)) vs" by auto
  with JArray have "\<forall>v \<in> set vs. \<forall>t. number_end t \<longrightarrow> parse_value (d - 1) (json_text v @ t) = Some (v, t)"
    by (simp add: list_all_iff)
  from parse_array_text [OF this d(2), of t] d(1) show ?case by (simp add: parse_value.simps [of d] del: json_text.simps)
next
  case (JObject kvs)
  then have d: "d \<noteq> 0" "list_all (\<lambda>(k, v). raw_text k \<and> json_fits (d - 1) v) kvs" by auto
  with JObject(1) have "\<forall>(k, v) \<in> set kvs. raw_text k \<and>
      (\<forall>t. number_end t \<longrightarrow> parse_value (d - 1) (json_text v @ t) = Some (v, t))"
    by (fastforce simp: list_all_iff)
  from parse_object_text [OF this, of t] d(1) show ?case by (simp add: parse_value.simps [of d] del: json_text.simps)
qed (simp_all add: parse_value.simps [of d for d] parse_step_def is_space_def literal_def has_prefix_iff)

section \<open>The fuel of the parser\<close>

lemma pre_SomeD: "pre p x = Some (r, t) \<Longrightarrow> \<exists>q. x = Some (q, t) \<and> r = p @ q"
  by (auto simp: pre_def)

lemma scan_string_shorter: "scan_string s = Some (r, t) \<Longrightarrow> length t < length s"
proof (induction s arbitrary: r t rule: scan_string.induct)
  case (2 c cs)
  consider "c = Quote" | (u) es where "c = Backslash" "cs = CHR ''u'' # es" "hex4 es \<noteq> None"
    | (simple) e es where "c = Backslash" "cs = e # es" "e \<noteq> CHR ''u''" "simple_escape e \<noteq> None"
    | (char) "c \<noteq> Quote" "c \<noteq> Backslash" "\<not> byte c < 0x20"
    using 2(4) by (auto simp: scan_string.simps split: if_splits list.splits)
  then show ?case
  proof cases
    case u
    with 2(4) obtain q where "scan_string (drop 4 es) = Some (q, t)"
      by (auto simp: scan_string.simps dest!: pre_SomeD)
    from 2(1) [OF _ _ u(2) refl _ this] u show ?thesis by auto
  next
    case simple
    with 2(4) obtain q where "scan_string es = Some (q, t)" by (auto simp: scan_string.simps dest!: pre_SomeD)
    from 2(2) [OF _ _ simple(2,3) _ this] simple show ?thesis by auto
  next
    case char
    with 2(4) obtain q where "scan_string cs = Some (q, t)" by (auto simp: scan_string.simps dest!: pre_SomeD)
    from 2(3) [OF char this] show ?thesis by simp
  qed (use 2(4) in \<open>simp add: scan_string.simps\<close>)
qed (simp add: scan_string.simps)

lemma scan_digits_shorter: "scan_digits s = Some (r, t) \<Longrightarrow> length t \<le> length s"
  by (auto simp: scan_digits_def length_dropWhile_le split: if_splits)

lemma scan_fraction_shorter: "scan_fraction s = Some (r, t) \<Longrightarrow> length t \<le> length s"
  by (fastforce simp: scan_fraction_def dest!: pre_SomeD dest: scan_digits_shorter split: list.splits if_splits)

lemma scan_exponent_shorter: "scan_exponent s = Some (r, t) \<Longrightarrow> length t \<le> length s"
  by (fastforce simp: scan_exponent_def dest!: pre_SomeD dest: scan_digits_shorter split: list.splits if_splits)

lemma scan_int_shorter: "scan_int s = Some (r, t) \<Longrightarrow> length t < length s"
  by (auto simp: scan_int_def le_imp_less_Suc length_dropWhile_le split: list.splits if_splits)

lemma scan_number_shorter:
  assumes "scan_number s = Some (r, t)"
  shows "length t < length s"
proof -
  have "length t < length u"
    if "scan_then (scan_then (scan_int u) scan_fraction) scan_exponent = Some (q, t)" for u q
    using that by (fastforce simp: scan_then_def dest!: pre_SomeD
        dest: scan_int_shorter scan_fraction_shorter scan_exponent_shorter split: option.splits prod.splits)
  with assms show ?thesis
    by (fastforce simp: scan_number_def dest!: pre_SomeD split: list.splits if_splits)
qed

definition consumes :: "(string \<Rightarrow> ('a \<times> string) option) \<Rightarrow> bool" where
  "consumes p \<longleftrightarrow> (\<forall>s x t. p s = Some (x, t) \<longrightarrow> length t < length s)"

lemma consumesD: "consumes p \<Longrightarrow> p s = Some (x, t) \<Longrightarrow> length t < length s"
  by (simp add: consumes_def)

lemma skip_space_shorter: "skip_space s = c # t \<Longrightarrow> length t < length s"
  using length_dropWhile_le [of is_space s] by simp

lemma parse_member_consumes: "consumes pv \<Longrightarrow> consumes (parse_member pv)"
  unfolding consumes_def parse_member_def
  by (fastforce dest: skip_space_shorter scan_string_shorter split: list.splits if_splits option.splits)

lemma parse_list_shorter:
  assumes "consumes item"
  shows "parse_list item close n s = Some (xs, t) \<Longrightarrow> length t < length s"
proof (induction n arbitrary: s xs)
  case (Suc n)
  then obtain x u c w where "item s = Some (x, u)" "skip_space u = c # w"
    and w: "w = t \<or> (\<exists>xs'. parse_list item close n w = Some (xs', t))"
    by (auto split: option.splits list.splits if_splits)
  then have "length w < length s" using consumesD [OF assms] skip_space_shorter by (meson less_trans)
  with w Suc.IH show ?case by (meson less_trans)
qed simp

text \<open>More fuel than the length of the text changes nothing.\<close>

lemma parse_list_fuel:
  assumes "consumes item"
  shows "length s \<le> n \<Longrightarrow> parse_list item close n s = parse_list item close (length s) s"
proof (induction n arbitrary: s rule: less_induct)
  case (less n)
  show ?case
  proof (cases "item s")
    case (Some p)
    obtain x u where p: "p = (x, u)" by fastforce
    with consumesD [OF assms] Some have "length u < length s" by blast
    then obtain k m where k: "length s = Suc k" "n = Suc m" "k \<le> m" using less.prems by (cases "length s"; cases n) auto
    have "parse_list item close m w = parse_list item close k w" if "skip_space u = c # w" for c w
    proof -
      have "length w \<le> k" using skip_space_shorter [OF that] \<open>length u < length s\<close> k by simp
      then show ?thesis using less.IH [of m w] less.IH [of k w] k by simp
    qed
    then show ?thesis using Some p k by (cases "skip_space u") (simp_all del: dropWhile_eq_Nil_conv)
  qed (cases n; cases "length s"; simp)
qed

lemma literal_shorter: "literal word v s = Some (x, t) \<Longrightarrow> word \<noteq> [] \<Longrightarrow> length t < length s"
  by (auto simp: literal_def has_prefix_iff split: if_splits)

lemma parse_step_consumes:
  assumes "\<And>pv. inner = Some pv \<Longrightarrow> consumes pv"
  shows "consumes (parse_step inner)"
  unfolding consumes_def
proof (intro allI impI)
  fix s v t assume parsed: "parse_step inner s = Some (v, t)"
  then obtain c u where cu: "skip_space s = c # u" by (auto simp: parse_step_def split: list.splits)
  from parsed cu consider r where "scan_string u = Some (r, t)" | r where "scan_number (c # u) = Some (r, t)"
    | pv n vs where "inner = Some pv" "parse_list pv (CHR '']'') n u = Some (vs, t)"
    | pv n kvs where "inner = Some pv" "parse_list (parse_member pv) (CHR ''}'') n u = Some (kvs, t)"
    | w x where "literal w x (c # u) = Some (v, t)" "w \<in> {''null'', ''true'', ''false''}" | "t = drop 1 (skip_space u)"
    unfolding parse_step_def by (simp split: if_splits option.splits) blast+
  then have "length t < Suc (length u)"
  proof cases
    case 1
    then show ?thesis using scan_string_shorter by fastforce
  next
    case 2
    then show ?thesis using scan_number_shorter by fastforce
  next
    case 3
    with parse_list_shorter [OF assms] show ?thesis by fastforce
  next
    case 4
    with parse_list_shorter [OF parse_member_consumes [OF assms]] show ?thesis by fastforce
  next
    case 5
    then show ?thesis using literal_shorter [of _ _ "c # u" v t] by fastforce
  next
    case 6
    then show ?thesis using length_dropWhile_le [of is_space u] by simp
  qed
  then show "length t < length s" using cu length_dropWhile_le [of is_space s] by simp
qed

lemma parse_value_consumes: "consumes (parse_value d)"
proof (induction d rule: less_induct)
  case (less d)
  let ?inner = "if d = 0 then None else Some (parse_value (d - 1))"
  have step: "parse_value d = parse_step ?inner" by (rule ext) (rule parse_value.simps)
  have "consumes pv" if "?inner = Some pv" for pv using that less by (auto split: if_splits)
  then have "consumes (parse_step ?inner)" by (rule parse_step_consumes)
  then show ?case by (subst step)
qed

end
