(* ===== verification/Go_Time.thy ===== *)
theory Go_Time
  imports Go_Text
begin

text \<open>
  Times as they stand in JSON bodies: the calendar of \<^verbatim>\<open>time.Date\<close>, the text that
  \<^verbatim>\<open>Time.MarshalJSON\<close> writes (RFC 3339 with nanoseconds) and the reader that
  \<^verbatim>\<open>Time.UnmarshalJSON\<close> tries first. A time is an instant; the offset of its location is an
  argument of what depends on it.
\<close>

section \<open>The calendar\<close>

definition leap_year :: "nat \<Rightarrow> bool" where
  "leap_year y \<longleftrightarrow> 4 dvd y \<and> (\<not> 100 dvd y \<or> 400 dvd y)"

definition year_length :: "nat \<Rightarrow> nat" where
  "year_length y = (if leap_year y then 366 else 365)"

definition month_lengths :: "nat \<Rightarrow> nat list" where
  "month_lengths y = [31, if leap_year y then 29 else 28, 31, 30, 31, 30, 31, 31, 30, 31, 30, 31]"

text \<open>The days of 400 years, after which the calendar repeats.\<close>

definition cycle_days :: nat where
  "cycle_days = 146097"

text \<open>Days since the first of January of year 0.\<close>

definition days_of_date :: "nat \<Rightarrow> nat \<Rightarrow> nat \<Rightarrow> nat" where
  "days_of_date y m d =
     y div 400 * cycle_days + sum_list (map year_length [0..<y mod 400]) +
     sum_list (take (m - 1) (month_lengths y)) + (d - 1)"

function find_year :: "nat \<Rightarrow> nat \<Rightarrow> nat \<times> nat" where
  "find_year y r = (if r < year_length y then (y, r) else find_year (Suc y) (r - year_length y))"
  by auto
termination
  by (relation "measure snd") (auto simp: year_length_def split: if_splits)

fun find_month :: "nat \<Rightarrow> nat list \<Rightarrow> nat \<Rightarrow> nat \<times> nat" where
  "find_month m [] r = (m, r)"
| "find_month m (l # ls) r = (if r < l then (m, r) else find_month (Suc m) ls (r - l))"

declare find_year.simps [simp del]

definition date_of_days :: "nat \<Rightarrow> nat \<times> nat \<times> nat" where
  "date_of_days n =
     (case find_year 0 (n mod cycle_days) of
        (y, r) \<Rightarrow>
          (case find_month 1 (month_lengths y) r of
             (m, d) \<Rightarrow> (n div cycle_days * 400 + y, m, Suc d)))"

lemma find_year_spec:
  "find_year y r = (y', r') \<Longrightarrow>
     y \<le> y' \<and> r = sum_list (map year_length [y..<y']) + r' \<and> r' < year_length y'"
proof (induction y r rule: find_year.induct)
  case (1 y r)
  show ?case
  proof (cases "r < year_length y")
    case True
    with 1(2) show ?thesis by (simp add: find_year.simps)
  next
    case False
    with 1(2) have "find_year (Suc y) (r - year_length y) = (y', r')" by (simp add: find_year.simps [of y])
    with 1(1) [OF False this] False have
      "Suc y \<le> y'" "r = year_length y + sum_list (map year_length [Suc y..<y']) + r'" "r' < year_length y'" by auto
    then show ?thesis by (simp add: upt_conv_Cons)
  qed
qed

lemma find_month_spec:
  "find_month m ls r = (m', r') \<Longrightarrow> r < sum_list ls \<Longrightarrow>
     m \<le> m' \<and> m' - m < length ls \<and> r = sum_list (take (m' - m) ls) + r' \<and> r' < ls ! (m' - m)"
proof (induction m ls r rule: find_month.induct)
  case (2 m l ls r)
  show ?case
  proof (cases "r < l")
    case False
    with 2 have "Suc m \<le> m' \<and> m' - Suc m < length ls \<and>
        r - l = sum_list (take (m' - Suc m) ls) + r' \<and> r' < ls ! (m' - Suc m)" by simp
    moreover from this have "m' - m = Suc (m' - Suc m)" by linarith
    ultimately show ?thesis using False by auto
  qed (use 2 in simp)
qed simp

lemma leap_year_mod: "leap_year (a * 400 + y) = leap_year y"
proof -
  have "k dvd a * 400 + y \<longleftrightarrow> k dvd y" if "k dvd 400" for k :: nat
    using that by (simp add: dvd_add_right_iff)
  then show ?thesis by (simp add: leap_year_def)
qed

lemma month_lengths_mod: "month_lengths (a * 400 + y) = month_lengths y"
  by (simp add: month_lengths_def leap_year_mod)

lemma sum_month_lengths: "sum_list (month_lengths y) = year_length y"
  by (simp add: month_lengths_def year_length_def)

lemma multiples_below_Suc:
  fixes n k :: nat
  assumes "0 < k"
  shows "(n + k) div k = (n + (k - 1)) div k + (if k dvd n then 1 else 0)"
  using assms div_Suc [of "n + (k - 1)" k] by (auto simp: dvd_eq_mod_eq_0)

lemma sum_year_lengths_closed:
  "sum_list (map year_length [0..<n]) + (n + 99) div 100 = 365 * n + (n + 3) div 4 + (n + 399) div 400"
proof (induction n)
  case (Suc n)
  have "400 dvd n \<Longrightarrow> 100 dvd n" "100 dvd n \<Longrightarrow> 4 dvd n" by (auto elim: dvd_trans [rotated])
  with Suc show ?case
    using multiples_below_Suc [of 4 n] multiples_below_Suc [of 100 n] multiples_below_Suc [of 400 n]
    by (auto simp: year_length_def leap_year_def)
qed simp

lemma sum_year_lengths: "sum_list (map year_length [0..<400]) = cycle_days"
  using sum_year_lengths_closed [of 400] by (simp add: cycle_days_def)

text \<open>Every day has a date, which is a date of the calendar and counts back to the day.\<close>

lemma date_of_days_spec:
  assumes "date_of_days n = (y, m, d)"
  shows "days_of_date y m d = n \<and> 1 \<le> m \<and> m \<le> 12 \<and> 1 \<le> d \<and> d \<le> month_lengths y ! (m - 1) \<and>
    y div 400 = n div cycle_days"
proof -
  obtain y' r where y': "find_year 0 (n mod cycle_days) = (y', r)" by fastforce
  obtain m' d' where m': "find_month 1 (month_lengths y') r = (m', d')" by fastforce
  from find_year_spec [OF y'] have r: "n mod cycle_days = sum_list (map year_length [0..<y']) + r" "r < year_length y'"
    by simp_all
  have "y' < 400"
  proof (rule ccontr)
    assume "\<not> y' < 400"
    then have "[0..<y'] = [0..<400] @ [400..<y']" using upt_add_eq_append [of 0 400 "y' - 400"] by simp
    then have "cycle_days \<le> n mod cycle_days" using r(1) sum_year_lengths by simp
    moreover have "n mod cycle_days < cycle_days" by (simp add: cycle_days_def)
    ultimately show False by simp
  qed
  from find_month_spec [OF m'] r(2) sum_month_lengths [of y'] have m: "1 \<le> m'" "m' - 1 < length (month_lengths y')"
      "r = sum_list (take (m' - 1) (month_lengths y')) + d'" "d' < month_lengths y' ! (m' - 1)" by simp_all
  have date: "y = n div cycle_days * 400 + y'" "m = m'" "d = Suc d'" using assms y' m' by (simp_all add: date_of_days_def)
  then have "y mod 400 = y'" "y div 400 = n div cycle_days" using \<open>y' < 400\<close> by simp_all
  moreover have "month_lengths y = month_lengths y'" using date(1) month_lengths_mod by simp
  moreover have "n = n div cycle_days * cycle_days + n mod cycle_days" by simp
  ultimately show ?thesis using r(1) m date(2,3) by (simp add: days_of_date_def) (simp add: month_lengths_def)
qed

section \<open>The text of a time\<close>

primrec pad :: "nat \<Rightarrow> nat \<Rightarrow> string" where
  "pad 0 n = []"
| "pad (Suc w) n = pad w (n div 10) @ [digit_char (n mod 10)]"

definition trim_zeros :: "string \<Rightarrow> string" where
  "trim_zeros s = rev (dropWhile (\<lambda>c. c = CHR ''0'') (rev s))"

definition fraction_text :: "nat \<Rightarrow> string" where
  "fraction_text ns = (if ns = 0 then '''' else CHR ''.'' # trim_zeros (pad 9 ns))"

text \<open>An offset in seconds is written in whole minutes, rounded towards zero.\<close>

definition zone_minutes :: "int \<Rightarrow> int" where
  "zone_minutes off = (if off < 0 then - (- off div 60) else off div 60)"

definition zone_text :: "int \<Rightarrow> string" where
  "zone_text off =
     (if off = 0 then ''Z''
      else let z = zone_minutes off; m = nat \<bar>z\<bar> in
        (if z < 0 then CHR ''-'' else CHR ''+'') # pad 2 (m div 60) @ CHR '':'' # pad 2 (m mod 60))"

definition day :: int where
  "day = 86400 * second"

text \<open>The first day of year 1, from which times count, is day 366 of the calendar.\<close>

definition calendar_day :: "Time \<Rightarrow> int" where
  "calendar_day t = t div day + 366"

definition clock_text :: "nat \<Rightarrow> string" where
  "clock_text s = pad 2 (s div 3600) @ CHR '':'' # pad 2 (s div 60 mod 60) @ CHR '':'' # pad 2 (s mod 60)"

definition date_text :: "nat \<Rightarrow> string" where
  "date_text n = (case date_of_days n of (y, m, d) \<Rightarrow> pad 4 y @ CHR ''-'' # pad 2 m @ CHR ''-'' # pad 2 d)"

text \<open>
  \<^verbatim>\<open>Time.MarshalJSON\<close> without the quotes: an error for a year outside 0 to 9999 and for an
  offset of a day or more.
\<close>

definition format_time :: "int \<Rightarrow> Time \<Rightarrow> string option" where
  "format_time off t =
     (let loc = t + off * second; n = calendar_day loc; ns = nat (loc mod day) in
      if n < 0 \<or> 25 * int cycle_days \<le> n \<or> 24 * 60 \<le> \<bar>zone_minutes off\<bar> then None
      else Some (date_text (nat n) @ CHR ''T'' # clock_text (ns div 1000000000) @
             fraction_text (ns mod 1000000000) @ zone_text off))"

text \<open>The text of the error where there is none.\<close>

definition format_error :: "int \<Rightarrow> Time \<Rightarrow> string" where
  "format_error off t =
     (let n = calendar_day (t + off * second) in
      if n < 0 \<or> 25 * int cycle_days \<le> n then ''year outside of range [0,9999]''
      else ''timezone hour outside of range [0,23]'')"

section \<open>Reading a time\<close>

definition parse_uint :: "string \<Rightarrow> nat \<Rightarrow> nat \<Rightarrow> nat option" where
  "parse_uint s lo hi =
     (let x = digits_value s in if list_all is_digit s \<and> lo \<le> x \<and> x \<le> hi then Some x else None)"

definition substr :: "nat \<Rightarrow> nat \<Rightarrow> string \<Rightarrow> string" where
  "substr i j s = take (j - i) (drop i s)"

text \<open>The nanoseconds after the seconds, digits beyond the ninth ignored, and what follows.\<close>

definition parse_fraction :: "string \<Rightarrow> nat \<times> string" where
  "parse_fraction s =
     (case s of
        c # cs \<Rightarrow>
          (let ds = takeWhile is_digit cs; ds' = take 9 ds in
           if c = CHR ''.'' \<and> ds \<noteq> [] then (digits_value ds' * 10 ^ (9 - length ds'), drop (length ds) cs) else (0, s))
      | [] \<Rightarrow> (0, s))"

text \<open>The offset in seconds.\<close>

definition parse_zone :: "string \<Rightarrow> int option" where
  "parse_zone s =
     (if s = ''Z'' then Some 0
      else if length s \<noteq> 6 then None
      else (case (parse_uint (substr 1 3 s) 0 23, parse_uint (substr 4 6 s) 0 59) of
              (Some hr, Some mm) \<Rightarrow>
                if (s ! 0 = CHR ''-'' \<or> s ! 0 = CHR ''+'') \<and> s ! 3 = CHR '':''
                then Some ((if s ! 0 = CHR ''-'' then - 1 else 1) * int ((hr * 60 + mm) * 60))
                else None
            | _ \<Rightarrow> None))"

definition instant :: "nat \<Rightarrow> nat \<Rightarrow> nat \<Rightarrow> Time" where
  "instant days secs ns = (int days - 366) * day + int secs * second + int ns"

text \<open>\<^verbatim>\<open>parseRFC3339\<close>: the instant and the offset that was written.\<close>

definition parse_date :: "string \<Rightarrow> nat option" where
  "parse_date s =
     (case (parse_uint (substr 0 4 s) 0 9999, parse_uint (substr 5 7 s) 1 12) of
        (Some y, Some m) \<Rightarrow>
          (case parse_uint (substr 8 10 s) 1 (month_lengths y ! (m - 1)) of
             Some d \<Rightarrow> if s ! 4 = CHR ''-'' \<and> s ! 7 = CHR ''-'' then Some (days_of_date y m d) else None
           | None \<Rightarrow> None)
      | _ \<Rightarrow> None)"

definition parse_clock :: "string \<Rightarrow> nat option" where
  "parse_clock s =
     (case (parse_uint (substr 11 13 s) 0 23, parse_uint (substr 14 16 s) 0 59, parse_uint (substr 17 19 s) 0 59) of
        (Some h, Some m, Some sec) \<Rightarrow>
          if s ! 10 = CHR ''T'' \<and> s ! 13 = CHR '':'' \<and> s ! 16 = CHR '':'' then Some (h * 3600 + m * 60 + sec) else None
      | _ \<Rightarrow> None)"

definition parseRFC3339 :: "string \<Rightarrow> (Time \<times> int) option" where
  "parseRFC3339 s =
     (if length s < 19 then None
      else (case (parse_date s, parse_clock s, parse_fraction (drop 19 s)) of
              (Some days, Some secs, (ns, rest)) \<Rightarrow>
                map_option (\<lambda>off. (instant days secs ns - off * second, off)) (parse_zone rest)
            | _ \<Rightarrow> None))"

text \<open>
  What \<^verbatim>\<open>parseRFC3339\<close> refuses is read along the layout, which is more tolerant: an hour of one
  digit, a comma before the fraction, offsets of up to 24 hours and 60 minutes.
\<close>

definition getnum :: "bool \<Rightarrow> string \<Rightarrow> (nat \<times> string) option" where
  "getnum fixed s =
     (case s of
        [] \<Rightarrow> None
      | c # t \<Rightarrow>
          if \<not> is_digit c then None
          else if t \<noteq> [] \<and> is_digit (hd t) then Some (digits_value [c, hd t], tl t)
          else if fixed then None else Some (digits_value [c], t))"

definition number :: "bool \<Rightarrow> nat \<Rightarrow> nat \<Rightarrow> string \<Rightarrow> (nat \<times> string) option" where
  "number fixed lo hi s =
     Option.bind (getnum fixed s) (\<lambda>(n, t). if lo \<le> n \<and> n \<le> hi then Some (n, t) else None)"

definition expect :: "char \<Rightarrow> string \<Rightarrow> string option" where
  "expect c s = (if has_prefix s [c] then Some (tl s) else None)"

definition long_year :: "string \<Rightarrow> (nat \<times> string) option" where
  "long_year s =
     (if 4 \<le> length s \<and> list_all is_digit (take 4 s) then Some (digits_value (take 4 s), drop 4 s) else None)"

definition layout_fraction :: "string \<Rightarrow> nat \<times> string" where
  "layout_fraction s =
     parse_fraction (case s of c # cs \<Rightarrow> if c = CHR '','' then CHR ''.'' # cs else s | [] \<Rightarrow> s)"

definition layout_zone :: "string \<Rightarrow> int option" where
  "layout_zone s =
     (if has_prefix s ''Z'' then (if tl s = [] then Some 0 else None)
      else if length s \<noteq> 6 \<or> s ! 3 \<noteq> CHR '':'' \<or> s ! 0 \<notin> set ''+-'' then None
      else (case (number True 0 24 (substr 1 3 s), number True 0 60 (substr 4 6 s)) of
              (Some (hr, _), Some (mm, _)) \<Rightarrow> Some ((if s ! 0 = CHR ''-'' then - 1 else 1) * int ((hr * 60 + mm) * 60))
            | _ \<Rightarrow> None))"

definition layout_date :: "string \<Rightarrow> (nat \<times> string) option" where
  "layout_date s =
     Option.bind (long_year s) (\<lambda>(y, s).
     Option.bind (expect (CHR ''-'') s) (\<lambda>s.
     Option.bind (number True 1 12 s) (\<lambda>(m, s).
     Option.bind (expect (CHR ''-'') s) (\<lambda>s.
     Option.bind (number True 1 (month_lengths y ! (m - 1)) s) (\<lambda>(d, s). Some (days_of_date y m d, s))))))"

definition layout_clock :: "string \<Rightarrow> (nat \<times> string) option" where
  "layout_clock s =
     Option.bind (number False 0 23 s) (\<lambda>(h, s).
     Option.bind (expect (CHR '':'') s) (\<lambda>s.
     Option.bind (number True 0 59 s) (\<lambda>(m, s).
     Option.bind (expect (CHR '':'') s) (\<lambda>s.
     Option.bind (number True 0 59 s) (\<lambda>(sec, s). Some (h * 3600 + m * 60 + sec, s))))))"

definition parse_layout :: "string \<Rightarrow> (Time \<times> int) option" where
  "parse_layout s =
     Option.bind (layout_date s) (\<lambda>(days, s).
     Option.bind (expect (CHR ''T'') s) (\<lambda>s.
     Option.bind (layout_clock s) (\<lambda>(secs, s).
     case layout_fraction s of (ns, s) \<Rightarrow>
       map_option (\<lambda>off. (instant days secs ns - off * second, off)) (layout_zone s))))"

text \<open>
  \<^verbatim>\<open>time.Parse\<close> with the layouts \<^verbatim>\<open>RFC3339\<close> and \<^verbatim>\<open>RFC3339Nano\<close>, and \<^verbatim>\<open>Time.UnmarshalJSON\<close> on the
  text between the quotes: the instant, and the offset of its location.
\<close>

definition parse_time :: "string \<Rightarrow> (Time \<times> int) option" where
  "parse_time s = (case parseRFC3339 s of Some t \<Rightarrow> Some t | None \<Rightarrow> parse_layout s)"

section \<open>Reading back what was written\<close>

lemma length_pad [simp]: "length (pad w n) = w"
  by (induction w arbitrary: n) simp_all

lemma pad_2: "pad 2 n = [digit_char (n div 10 mod 10), digit_char (n mod 10)]"
  by (simp add: numeral_2_eq_2)

lemma pad_4:
  "pad 4 n = [digit_char (n div 10 div 10 div 10 mod 10), digit_char (n div 10 div 10 mod 10),
    digit_char (n div 10 mod 10), digit_char (n mod 10)]"
proof -
  have "4 = Suc (Suc (Suc (Suc 0)))" by simp
  then show ?thesis by (simp only: pad.simps append_Nil append_Cons)
qed

lemma pad_digits [simp]: "list_all is_digit (pad w n)"
  by (induction w arbitrary: n) simp_all

lemma digits_value_pad: "digits_value (pad w n) = n mod 10 ^ w"
proof (induction w arbitrary: n)
  case (Suc w)
  have "n mod 10 ^ Suc w = 10 * (n div 10 mod 10 ^ w) + n mod 10" by (simp add: mod_mult2_eq)
  then show ?case by (simp add: digits_value_snoc Suc of_char_digit_char)
qed (simp add: digits_value_def)

lemma parse_uint_pad: "n < 10 ^ w \<Longrightarrow> lo \<le> n \<Longrightarrow> n \<le> hi \<Longrightarrow> parse_uint (pad w n) lo hi = Some n"
  by (simp add: parse_uint_def digits_value_pad)

lemma digits_value_zeros: "digits_value (s @ replicate k (CHR ''0'')) = digits_value s * 10 ^ k"
proof (induction k)
  case (Suc k)
  have "s @ replicate (Suc k) (CHR ''0'') = (s @ replicate k (CHR ''0'')) @ [CHR ''0'']"
    by (simp add: replicate_append_same)
  then show ?case by (simp only: digits_value_snoc Suc) simp
qed simp

lemma trim_zeros_spec:
  obtains k where "s = trim_zeros s @ replicate k (CHR ''0'')"
proof -
  let ?p = "\<lambda>c. c = CHR ''0''"
  have "takeWhile ?p (rev s) = replicate (length (takeWhile ?p (rev s))) (CHR ''0'')"
    by (rule replicate_eqI) (auto dest: set_takeWhileD)
  then have "rev (takeWhile ?p (rev s)) = replicate (length (takeWhile ?p (rev s))) (CHR ''0'')"
    by (metis rev_replicate)
  moreover have "s = rev (dropWhile ?p (rev s)) @ rev (takeWhile ?p (rev s))"
    by (metis rev_append rev_rev_ident takeWhile_dropWhile_id)
  ultimately show thesis using that unfolding trim_zeros_def by metis
qed

lemma parse_fraction_text:
  assumes "ns < 10 ^ 9" and "t \<noteq> []" and "\<not> is_digit (hd t)" and "hd t \<noteq> CHR ''.''"
  shows "parse_fraction (fraction_text ns @ t) = (ns, t)"
proof (cases "ns = 0")
  case True
  with assms show ?thesis by (cases t) (simp_all add: fraction_text_def parse_fraction_def Let_def)
next
  case False
  obtain k where k: "pad 9 ns = trim_zeros (pad 9 ns) @ replicate k (CHR ''0'')" by (rule trim_zeros_spec)
  let ?ds = "trim_zeros (pad 9 ns)"
  have len: "length ?ds + k = 9" using arg_cong [OF k, of length] by simp
  have digits: "list_all is_digit ?ds" using pad_digits [of 9 ns] by (subst (asm) k) simp
  have "digits_value ?ds * 10 ^ k = ns"
    using digits_value_pad [of 9 ns] assms(1) by (subst (asm) k) (simp add: digits_value_zeros)
  moreover from this False have "?ds \<noteq> []" by (auto simp: digits_value_def)
  moreover have "takeWhile is_digit (?ds @ t) = ?ds"
    using digits assms(2,3) by (cases t) (simp_all add: list_all_iff takeWhile_append2)
  moreover have "9 - length ?ds = k" "take 9 ?ds = ?ds" using len by simp_all
  ultimately show ?thesis using False by (simp add: fraction_text_def parse_fraction_def Let_def)
qed

lemma parse_zone_text:
  assumes "\<bar>zone_minutes off\<bar> < 24 * 60"
  shows "parse_zone (zone_text off) = Some (60 * zone_minutes off)"
proof (cases "off = 0")
  case True
  then show ?thesis by (simp add: zone_text_def parse_zone_def zone_minutes_def)
next
  case False
  let ?m = "nat \<bar>zone_minutes off\<bar>"
  have bound: "?m div 60 < 24" using assms by linarith
  let ?s = "(if zone_minutes off < 0 then CHR ''-'' else CHR ''+'') # pad 2 (?m div 60) @ CHR '':'' # pad 2 (?m mod 60)"
  have "substr 1 3 ?s = pad 2 (?m div 60)" "substr 4 6 ?s = pad 2 (?m mod 60)" "?s ! 3 = CHR '':''" "?s \<noteq> ''Z''"
    by (simp_all add: substr_def pad_2)
  moreover have "parse_uint (pad 2 (?m div 60)) 0 23 = Some (?m div 60)" "parse_uint (pad 2 (?m mod 60)) 0 59 = Some (?m mod 60)"
    using bound by (auto intro!: parse_uint_pad)
  moreover have "int ((?m div 60 * 60 + ?m mod 60) * 60) = 60 * \<bar>zone_minutes off\<bar>" by simp
  ultimately have "parse_zone ?s = Some ((if ?s ! 0 = CHR ''-'' then - 1 else 1) * (60 * \<bar>zone_minutes off\<bar>))"
    unfolding parse_zone_def by simp
  then show ?thesis using False by (auto simp: zone_text_def Let_def)
qed

lemma month_length_le: "m < 12 \<Longrightarrow> month_lengths y ! m \<le> 31"
proof -
  have "list_all (\<lambda>l. l \<le> 31) (month_lengths y)" "length (month_lengths y) = 12" by (simp_all add: month_lengths_def)
  then show "m < 12 \<Longrightarrow> month_lengths y ! m \<le> 31" by (simp add: list_all_length)
qed

lemma length_date_text: "length (date_text n) = 10"
  by (simp add: date_text_def split: prod.split)

lemma length_clock_text: "length (clock_text s) = 8"
  by (simp add: clock_text_def)

lemma parse_date_text:
  assumes "n < 25 * cycle_days"
  shows "parse_date (date_text n @ t) = Some n"
proof -
  obtain y m d where date: "date_of_days n = (y, m, d)" by (cases "date_of_days n") auto
  from date_of_days_spec [OF date] have days: "days_of_date y m d = n" and m: "1 \<le> m" "m \<le> 12"
    and d: "1 \<le> d" "d \<le> month_lengths y ! (m - 1)" and "y div 400 = n div cycle_days" by simp_all
  moreover have "n div cycle_days < 25" using assms by (simp add: div_less_iff_less_mult cycle_days_def)
  ultimately have y: "y \<le> 9999" by linarith
  have "m - 1 < 12" using m by linarith
  from month_length_le [OF this] d(2) have "d \<le> 31" by (rule order_trans [rotated])
  then have uints: "parse_uint (pad 4 y) 0 9999 = Some y" "parse_uint (pad 2 m) 1 12 = Some m"
    "parse_uint (pad 2 d) 1 (month_lengths y ! (m - 1)) = Some d"
    using y m d by (auto intro!: parse_uint_pad)
  let ?s = "pad 4 y @ CHR ''-'' # pad 2 m @ CHR ''-'' # pad 2 d @ t"
  have "substr 0 4 ?s = pad 4 y" "substr 5 7 ?s = pad 2 m" "substr 8 10 ?s = pad 2 d" "?s ! 4 = CHR ''-''" "?s ! 7 = CHR ''-''"
    by (simp_all add: substr_def pad_2 pad_4)
  then have "parse_date ?s = Some n" unfolding parse_date_def by (simp add: uints [unfolded One_nat_def] days)
  then show ?thesis by (simp add: date_text_def date)
qed

lemma parse_clock_text:
  assumes "length p = 10" and "s < 86400"
  shows "parse_clock (p @ CHR ''T'' # clock_text s @ t) = Some s"
proof -
  have h: "s div 3600 < 24" using assms(2) by (simp add: div_less_iff_less_mult)
  then have uints: "parse_uint (pad 2 (s div 3600)) 0 23 = Some (s div 3600)"
    "parse_uint (pad 2 (s div 60 mod 60)) 0 59 = Some (s div 60 mod 60)" "parse_uint (pad 2 (s mod 60)) 0 59 = Some (s mod 60)"
    by (auto intro!: parse_uint_pad)
  let ?s = "p @ CHR ''T'' # clock_text s @ t"
  have slices: "substr 11 13 ?s = pad 2 (s div 3600)" "substr 14 16 ?s = pad 2 (s div 60 mod 60)" "substr 17 19 ?s = pad 2 (s mod 60)"
    and chars: "?s ! 10 = CHR ''T''" "?s ! 13 = CHR '':''" "?s ! 16 = CHR '':''"
    using assms(1) by (simp_all add: substr_def clock_text_def pad_2 nth_append)
  have "s div 3600 = s div 60 div 60" by (simp add: div_mult2_eq [symmetric])
  moreover have "s div 60 div 60 * 60 + s div 60 mod 60 = s div 60" "s div 60 * 60 + s mod 60 = s" by simp_all
  ultimately have "s div 3600 * 3600 + s div 60 mod 60 * 60 + s mod 60 = s" by linarith
  then show ?thesis unfolding parse_clock_def slices by (simp add: uints chars)
qed

lemma split_seconds: "int n = int (n div 1000000000) * second + int (n mod 1000000000)"
  by (simp add: zdiv_int zmod_int)

lemma zone_text_first: "zone_text off \<noteq> [] \<and> \<not> is_digit (hd (zone_text off)) \<and> hd (zone_text off) \<noteq> CHR ''.''"
  by (simp add: zone_text_def Let_def is_digit_def)

text \<open>
  A time that can be written is read back as the same instant, up to the part of a minute that
  the offset of its location has, which is lost.
\<close>

lemma parse_format_time:
  assumes "format_time off t = Some s"
  shows "parseRFC3339 s = Some (t + (off - 60 * zone_minutes off) * second, 60 * zone_minutes off)"
proof -
  let ?loc = "t + off * second"
  let ?n = "nat (calendar_day ?loc)" and ?ns = "nat (?loc mod day)"
  from assms have n: "0 \<le> calendar_day ?loc" "calendar_day ?loc < 25 * int cycle_days" and z: "\<bar>zone_minutes off\<bar> < 24 * 60"
    and s: "s = date_text ?n @ CHR ''T'' # clock_text (?ns div 1000000000) @ fraction_text (?ns mod 1000000000) @ zone_text off"
    by (auto simp: format_time_def Let_def split: if_splits)
  have "0 \<le> ?loc mod day" "?loc mod day < day" by (simp_all add: day_def)
  then have ns: "int ?ns = ?loc mod day" "?ns div 1000000000 < 86400" by (simp_all add: day_def)
  from parse_date_text [of ?n] n have date: "parse_date s = Some ?n" unfolding s by simp
  have clock: "parse_clock s = Some (?ns div 1000000000)"
    unfolding s by (rule parse_clock_text [OF length_date_text ns(2)])
  have frac: "parse_fraction (drop 19 s) = (?ns mod 1000000000, zone_text off)"
    unfolding s by (simp add: length_date_text length_clock_text parse_fraction_text zone_text_first)
  from split_seconds [of ?ns] have "instant ?n (?ns div 1000000000) (?ns mod 1000000000) = (calendar_day ?loc - 366) * day + ?loc mod day"
    using n(1) ns(1) by (simp add: instant_def)
  also have "\<dots> = ?loc" by (simp add: calendar_day_def)
  finally have "instant ?n (?ns div 1000000000) (?ns mod 1000000000) - 60 * zone_minutes off * second =
      t + (off - 60 * zone_minutes off) * second" by (simp add: algebra_simps)
  moreover have "\<not> length s < 19" unfolding s by (simp add: length_date_text length_clock_text)
  ultimately show ?thesis by (simp add: parseRFC3339_def date clock frac parse_zone_text [OF z])
qed

lemma zone_minutes_whole: "zone_minutes (60 * m) = m"
  using nonzero_mult_div_cancel_left [of 60 "- m"] by (simp add: zone_minutes_def)

end
