(* ===== verification/Json_Codec.thy ===== *)
theory Json_Codec
  imports Go_JSON Go_Time "HOL-Library.Char_ord" "HOL-Library.List_Lexorder"
begin

text \<open>
  How \<^verbatim>\<open>encoding/json\<close> converts between a parsed value and the Go types of the program's
  bodies: strings, booleans, integers, times, maps from strings to strings, slices and structs
  with field tags. A decoder gets the value and what the variable held before, and gives what
  it holds afterwards and how decoding went: a value of the wrong type is skipped and reported
  at the end, an error of a type's own \<^verbatim>\<open>UnmarshalJSON\<close> ends decoding at once.
\<close>

section \<open>Decoding\<close>

datatype decode_status = Fine | Saved | Aborted

type_synonym 'a decoder = "json \<Rightarrow> 'a \<Rightarrow> 'a \<times> decode_status"

fun worst :: "decode_status \<Rightarrow> decode_status \<Rightarrow> decode_status" where
  "worst Fine o' = o'"
| "worst Aborted o' = Aborted"
| "worst Saved o' = (if o' = Aborted then Aborted else Saved)"

definition decode_string :: "string decoder" where
  "decode_string v x =
     (case v of
        JNull \<Rightarrow> (x, Fine)
      | JString raw \<Rightarrow> (case unquote raw of Some s \<Rightarrow> (s, Fine) | None \<Rightarrow> (x, Aborted))
      | _ \<Rightarrow> (x, Saved))"

definition decode_bool :: "bool decoder" where
  "decode_bool v x = (case v of JNull \<Rightarrow> (x, Fine) | JBool b \<Rightarrow> (b, Fine) | _ \<Rightarrow> (x, Saved))"

text \<open>\<^verbatim>\<open>strconv.ParseInt\<close> with base 10 and 64 bits accepts what \<^verbatim>\<open>Atoi\<close> does.\<close>

definition decode_int :: "int decoder" where
  "decode_int v x =
     (case v of
        JNull \<Rightarrow> (x, Fine)
      | JNumber n \<Rightarrow> (case atoi n of (i, ok) \<Rightarrow> if ok then (i, Fine) else (x, Saved))
      | _ \<Rightarrow> (x, Saved))"

definition decode_uint64 :: "64 word decoder" where
  "decode_uint64 v x =
     (case v of
        JNull \<Rightarrow> (x, Fine)
      | JNumber n \<Rightarrow>
          (case atoi_body n of
             Some m \<Rightarrow> if m < 2 ^ 64 then (of_nat m, Fine) else (x, Saved)
           | None \<Rightarrow> (x, Saved))
      | _ \<Rightarrow> (x, Saved))"

text \<open>\<^verbatim>\<open>Time.UnmarshalJSON\<close> sees the bytes between the quotes as they are.\<close>

definition decode_time :: "Time decoder" where
  "decode_time v x =
     (case v of
        JNull \<Rightarrow> (x, Fine)
      | JString raw \<Rightarrow> (case parse_time raw of Some (t, _) \<Rightarrow> (t, Fine) | None \<Rightarrow> (x, Aborted))
      | _ \<Rightarrow> (x, Aborted))"

text \<open>The members of an object in their order; the last of several with one name wins.\<close>

fun decode_members :: "(string \<Rightarrow> 'a decoder option) \<Rightarrow> (string \<times> json) list \<Rightarrow> 'a \<Rightarrow> 'a \<times> decode_status" where
  "decode_members target [] x = (x, Fine)"
| "decode_members target ((k, v) # kvs) x =
     (case unquote k of
        None \<Rightarrow> (x, Aborted)
      | Some key \<Rightarrow>
          (case target key of
             None \<Rightarrow> decode_members target kvs x
           | Some dec \<Rightarrow>
               (case dec v x of
                  (y, out1) \<Rightarrow>
                    if out1 = Aborted then (y, Aborted)
                    else (case decode_members target kvs y of (z, out2) \<Rightarrow> (z, worst out1 out2)))))"

text \<open>
  A map keeps its entries, and each value is decoded into a fresh variable; \<^verbatim>\<open>null\<close> makes the map
  nil.
\<close>

definition map_entry :: "'v decoder \<Rightarrow> 'v \<Rightarrow> string \<Rightarrow> (string, 'v) fmap decoder" where
  "map_entry dec zero key v m =
     (case dec v zero of (y, o') \<Rightarrow> (if o' = Aborted then m else fmupd key y m, o'))"

definition decode_map_of :: "'v decoder \<Rightarrow> 'v \<Rightarrow> (string, 'v) fmap decoder" where
  "decode_map_of dec zero v m =
     (case v of
        JNull \<Rightarrow> (fmempty, Fine)
      | JObject kvs \<Rightarrow> decode_members (\<lambda>key. Some (map_entry dec zero key)) kvs m
      | _ \<Rightarrow> (m, Saved))"

abbreviation decode_map :: "(string, string) fmap decoder" where
  "decode_map \<equiv> decode_map_of decode_string ''''"

text \<open>
  A slice is nil or has a length and an array, whose elements beyond the length are what it
  held before: an array of the body is decoded into the elements that are there, from the first
  on, and zero elements after them. Behind the array are zeros. An error leaves the length that
  was reached.
\<close>

datatype 'a slice = NilSlice | Slice nat "'a list"

primrec slice_array :: "'a slice \<Rightarrow> 'a list" where
  "slice_array NilSlice = []"
| "slice_array (Slice n xs) = xs"

primrec slice_len :: "'a slice \<Rightarrow> nat" where
  "slice_len NilSlice = 0"
| "slice_len (Slice n xs) = n"

definition slice_items :: "'a slice \<Rightarrow> 'a list" where
  "slice_items s = take (slice_len s) (slice_array s)"

text \<open>The elements, with nil told apart.\<close>

primrec slice_value :: "'a slice \<Rightarrow> 'a list option" where
  "slice_value NilSlice = None"
| "slice_value (Slice n xs) = Some (take n xs)"

fun decode_elems :: "'a decoder \<Rightarrow> 'a \<Rightarrow> json list \<Rightarrow> 'a list \<Rightarrow> 'a list \<times> nat \<times> decode_status" where
  "decode_elems dec zero [] xs = (xs, 0, Fine)"
| "decode_elems dec zero (v # vs) xs =
     (case dec v (case xs of [] \<Rightarrow> zero | x # _ \<Rightarrow> x) of
        (y, out1) \<Rightarrow>
          if out1 = Aborted then (y # tl xs, 1, Aborted)
          else (case decode_elems dec zero vs (tl xs) of (ys, n, out2) \<Rightarrow> (y # ys, Suc n, worst out1 out2)))"

definition decode_slice :: "'a decoder \<Rightarrow> 'a \<Rightarrow> 'a slice decoder" where
  "decode_slice dec zero v s =
     (case v of
        JNull \<Rightarrow> (NilSlice, Fine)
      | JArray vs \<Rightarrow>
          (case decode_elems dec zero vs (slice_array s) of
             (ys, n, o') \<Rightarrow>
               (if o' = Aborted then Slice (max (slice_len s) n) ys
                else if n = 0 then Slice 0 [] else Slice n ys, o'))
      | _ \<Rightarrow> (s, Saved))"

text \<open>
  Case folding of a name, as far as it matters against names in ASCII: the long s and the
  Kelvin sign fold to letters.
\<close>

definition fold_rune :: "string \<Rightarrow> string" where
  "fold_rune r =
     (case r of
        [c] \<Rightarrow> if 97 \<le> byte c \<and> byte c \<le> 122 then [char_of (byte c - 32)] else r
      | _ \<Rightarrow>
          if r = [CHR 0xC5, CHR 0xBF] then ''S''
          else if r = [CHR 0xE2, CHR 0x84, CHR 0xAA] then ''K''
          else r)"

definition foldName :: "string \<Rightarrow> string" where
  "foldName s = concat (map fold_rune (runes s))"

text \<open>The field a name selects: the one with this tag, or the first one up to case.\<close>

definition field_for :: "(string \<times> 'a decoder) list \<Rightarrow> string \<Rightarrow> 'a decoder option" where
  "field_for fields key =
     (case map_of fields key of
        Some dec \<Rightarrow> Some dec
      | None \<Rightarrow> map_option snd (find (\<lambda>f. foldName (fst f) = foldName key) fields))"

definition decode_struct :: "(string \<times> 'a decoder) list \<Rightarrow> 'a decoder" where
  "decode_struct fields v x =
     (case v of
        JNull \<Rightarrow> (x, Fine)
      | JObject kvs \<Rightarrow> decode_members (field_for fields) kvs x
      | _ \<Rightarrow> (x, Saved))"

text \<open>A field as a part of its struct.\<close>

definition at_field :: "('a \<Rightarrow> 'b) \<Rightarrow> ('b \<Rightarrow> 'a \<Rightarrow> 'a) \<Rightarrow> 'b decoder \<Rightarrow> 'a decoder" where
  "at_field get upd dec v x = (case dec v (get x) of (y, o') \<Rightarrow> (upd y x, o'))"

text \<open>
  \<^verbatim>\<open>json.NewDecoder(r).Decode(&x)\<close> on a variable that holds \<open>x\<close>: a text with no value at its
  start leaves the variable as it is.
\<close>

definition decode_body :: "'a decoder \<Rightarrow> 'a \<Rightarrow> string \<Rightarrow> 'a \<times> decode_status" where
  "decode_body dec x text = (case read_value text of None \<Rightarrow> (x, Aborted) | Some v \<Rightarrow> dec v x)"

section \<open>Encoding\<close>

definition encode_string :: "string \<Rightarrow> json" where
  "encode_string s = JString (json_quote s)"

definition encode_int :: "int \<Rightarrow> json" where
  "encode_int i = JNumber (itoa i)"

definition encode_uint64 :: "64 word \<Rightarrow> json" where
  "encode_uint64 w = JNumber (dec_nat (unat w))"

definition encode_time :: "(Time \<Rightarrow> int) \<Rightarrow> Time \<Rightarrow> json option" where
  "encode_time zone t = map_option JString (format_time (zone t) t)"

text \<open>The entries of a map in the order of their keys.\<close>

definition encode_map :: "(string, string) fmap \<Rightarrow> json" where
  "encode_map m = JObject (map (\<lambda>(k, s). (json_quote k, encode_string s)) (sorted_list_of_fmap m))"

definition omitempty :: "string \<Rightarrow> (string, string) fmap \<Rightarrow> (string \<times> json) list" where
  "omitempty name m = (if m = fmempty then [] else [(name, encode_map m)])"

text \<open>\<^verbatim>\<open>Encoder.Encode\<close> ends the text with a newline and writes nothing when there is an error.\<close>

definition encoder_text :: "json option \<Rightarrow> string" where
  "encoder_text v = (case v of None \<Rightarrow> '''' | Some v \<Rightarrow> json_text v @ [CHR 0x0A])"

section \<open>What is encoded is decoded\<close>

lemma decode_encode_string [simp]: "decode_string (encode_string s) x = (coerce_utf8 s, Fine)"
  by (simp add: decode_string_def encode_string_def unquote_json_quote)

lemma decode_encode_bool [simp]: "decode_bool (JBool b) x = (b, Fine)"
  by (simp add: decode_bool_def)

lemma decode_encode_int: "- (2 ^ 63) \<le> i \<Longrightarrow> i < 2 ^ 63 \<Longrightarrow> decode_int (encode_int i) x = (i, Fine)"
  by (simp add: decode_int_def encode_int_def atoi_itoa)

lemma decode_encode_uint64 [simp]: "decode_uint64 (encode_uint64 w) x = (w, Fine)"
proof -
  have "unat w < 2 ^ 64" using unsigned_less [of w] by simp
  then show ?thesis by (simp add: decode_uint64_def encode_uint64_def)
qed

text \<open>The instant that comes back: the seconds of an offset that is no whole minute are lost.\<close>

definition written_time :: "(Time \<Rightarrow> int) \<Rightarrow> Time \<Rightarrow> Time" where
  "written_time zone t = t + (zone t - 60 * zone_minutes (zone t)) * second"

lemma decode_encode_time:
  assumes "encode_time zone t = Some v"
  shows "decode_time v x = (written_time zone t, Fine)"
proof -
  from assms obtain s where s: "format_time (zone t) t = Some s" "v = JString s" by (auto simp: encode_time_def)
  from parse_format_time [OF s(1)] s(2) show ?thesis by (simp add: decode_time_def parse_time_def written_time_def)
qed

lemma written_time_minutes: "60 dvd zone t \<Longrightarrow> written_time zone t = t"
  by (metis add.right_neutral cancel_comm_monoid_add_class.diff_cancel dvd_def mult_zero_left written_time_def
      zone_minutes_whole)

lemma decode_map_members:
  "decode_members (\<lambda>key. Some (map_entry decode_string '''' key)) (map (\<lambda>(k, s). (json_quote k, encode_string s)) kvs) m =
     (fold (\<lambda>(k, s). fmupd (coerce_utf8 k) (coerce_utf8 s)) kvs m, Fine)"
  by (induction kvs arbitrary: m) (auto simp: unquote_json_quote map_entry_def)

lemma fmlookup_fold_upd:
  assumes "distinct (map fst kvs)"
  shows "fmlookup (fold (\<lambda>(k, s). fmupd k (f s)) kvs m) key =
    (case map_of kvs key of Some s \<Rightarrow> Some (f s) | None \<Rightarrow> fmlookup m key)"
  using assms
proof (induction kvs arbitrary: m)
  case (Cons p kvs)
  obtain k s where p: "p = (k, s)" by fastforce
  with Cons.prems have "map_of kvs k = None" by (simp add: map_of_eq_None_iff)
  with Cons p show ?case by (auto split: option.split)
qed simp

definition valid_keys :: "(string, string) fmap \<Rightarrow> bool" where
  "valid_keys m \<longleftrightarrow> (\<forall>k. fmlookup m k \<noteq> None \<longrightarrow> valid_utf8 k)"

lemma decode_encode_map:
  assumes "valid_keys m"
  shows "decode_map (encode_map m) fmempty = (fmmap coerce_utf8 m, Fine)"
proof -
  let ?kvs = "sorted_list_of_fmap m"
  have "coerce_utf8 k = k" if "(k, s) \<in> set ?kvs" for k s
  proof -
    from weak_map_of_SomeI [OF that] obtain s' where "fmlookup m k = Some s'" by auto
    with assms have "valid_utf8 k" by (simp add: valid_keys_def)
    then show ?thesis by simp
  qed
  then have "fold (\<lambda>(k, s). fmupd (coerce_utf8 k) (coerce_utf8 s)) ?kvs fmempty =
      fold (\<lambda>(k, s). fmupd k (coerce_utf8 s)) ?kvs fmempty"
    by (intro fold_cong) auto
  also have "\<dots> = fmmap coerce_utf8 m"
  proof (rule fmap_ext)
    fix key
    have "distinct (map fst ?kvs)" by (simp add: sorted_list_of_fmap_def comp_def sorted_list_of_fset.rep_eq)
    then show "fmlookup (fold (\<lambda>(k, s). fmupd k (coerce_utf8 s)) ?kvs fmempty) key = fmlookup (fmmap coerce_utf8 m) key"
      by (simp add: fmlookup_fold_upd split: option.split)
  qed
  finally show ?thesis by (simp add: decode_map_of_def encode_map_def decode_map_members)
qed

text \<open>Names in ASCII without quotes are their own raw text.\<close>

definition plain_name :: "string \<Rightarrow> bool" where
  "plain_name s \<longleftrightarrow> list_all (\<lambda>c. c \<noteq> Quote \<and> c \<noteq> Backslash \<and> 0x20 \<le> byte c \<and> byte c < 0x80) s"

lemma unquote_plain: "plain_name s \<Longrightarrow> unquote s = Some s"
proof (induction s)
  case (Cons c s)
  then have "unquote ([c] @ s) = map_option (append [c]) (unquote s)"
    by (intro unquote_rune) (auto simp: plain_name_def)
  with Cons show ?case by (simp add: plain_name_def)
qed (simp add: unquote.simps)

lemma raw_text_plain_name: "plain_name s \<Longrightarrow> raw_text s"
  by (rule raw_text_plain) (auto simp: plain_name_def list_all_iff)

lemma encode_fits [simp]:
  "json_fits d (encode_string s)" "json_fits d (encode_int i)" "json_fits d (encode_uint64 w)"
  by (simp_all add: encode_string_def encode_int_def encode_uint64_def raw_text_json_quote number_literal_itoa
      number_literal_dec_nat)

lemma encode_map_fits: "d \<noteq> 0 \<Longrightarrow> json_fits d (encode_map m)"
  by (auto simp: encode_map_def list_all_iff raw_text_json_quote)

abbreviation plain_char :: "char \<Rightarrow> bool" where
  "plain_char c \<equiv> c \<noteq> Quote \<and> c \<noteq> Backslash \<and> 0x20 \<le> byte c \<and> byte c < 0x80"

lemma plain_digits: "list_all is_digit s \<Longrightarrow> list_all plain_char s"
  by (auto simp: list_all_iff is_digit_def)

lemma plain_trim_zeros: "list_all is_digit s \<Longrightarrow> list_all plain_char (trim_zeros s)"
  by (rule plain_digits) (auto simp: trim_zeros_def list_all_iff dest: set_dropWhileD)

lemma plain_parts:
  "list_all plain_char (pad w n)" "list_all plain_char (date_text n)" "list_all plain_char (clock_text n)"
  "list_all plain_char (fraction_text n)" "list_all plain_char (zone_text off)"
proof -
  show pad: "list_all plain_char (pad w n)" for w n by (simp add: plain_digits)
  show "list_all plain_char (date_text n)" using pad by (simp add: date_text_def split: prod.split)
  show "list_all plain_char (clock_text n)" using pad by (simp add: clock_text_def)
  show "list_all plain_char (fraction_text n)" by (simp add: fraction_text_def plain_trim_zeros)
  show "list_all plain_char (zone_text off)" using pad by (simp add: zone_text_def Let_def)
qed

lemma format_time_plain: "format_time off t = Some s \<Longrightarrow> plain_name s"
  using plain_parts by (auto simp: format_time_def plain_name_def Let_def split: if_splits)

lemma encode_time_fits: "encode_time zone t = Some v \<Longrightarrow> json_fits d v"
  by (auto simp: encode_time_def raw_text_plain_name format_time_plain)

section \<open>Codecs\<close>

text \<open>
  The contract of a type that travels as JSON: what is encoded from an acceptable value fits
  the parser and decodes, into a variable that holds the zero value, to the value's normal
  form. The texts of \<^verbatim>\<open>Marshal\<close> and of an \<^verbatim>\<open>Encoder\<close> are then both read back this way.
\<close>

locale json_codec =
  fixes enc :: "'a \<Rightarrow> json option" and dec :: "'a decoder" and zero :: 'a
    and ok :: "'a \<Rightarrow> bool" and norm :: "'a \<Rightarrow> 'a"
  assumes enc_fits: "enc x = Some v \<Longrightarrow> json_fits maxNestingDepth v"
    and dec_enc: "ok x \<Longrightarrow> enc x = Some v \<Longrightarrow> dec v zero = (norm x, Fine)"
begin

lemma read_encoded:
  assumes "enc x = Some v" and "number_end t"
  shows "read_value (json_text v @ t) = Some v"
  using parse_json_text [OF enc_fits [OF assms(1)] assms(2)] by (simp add: read_value_def)

lemma decode_marshalled:
  assumes "ok x" and "enc x = Some v"
  shows "decode_body dec zero (json_text v) = (norm x, Fine)"
  using read_encoded [OF assms(2), of "[]"] dec_enc [OF assms] by (simp add: decode_body_def number_end_def)

lemma decode_written:
  assumes "ok x" and "enc x = Some v"
  shows "decode_body dec zero (encoder_text (enc x)) = (norm x, Fine)"
proof -
  have "number_end [CHR 0x0A]" by (simp add: number_end_def is_digit_def)
  from read_encoded [OF assms(2) this] dec_enc [OF assms] show ?thesis
    by (simp add: decode_body_def encoder_text_def assms(2))
qed

end

section \<open>What a decoded body can hold\<close>

text \<open>
  Whatever bytes a body consists of, decoding keeps the types of the fields: strings come out
  as UTF-8, integers in their range.
\<close>

lemma well_formed_2:
  fixes a b :: nat
  assumes "2 \<le> a" and "a < 32" and "b < 64"
  shows "well_formed [char_of (0xC0 + a), char_of (0x80 + b)]"
  using assms by (simp add: well_formed_def rune_size.simps accept_ranges_def byte_in_def)

lemma well_formed_3:
  fixes a b c :: nat
  assumes "a < 16" and "a = 0 \<longrightarrow> 32 \<le> b" and "a = 13 \<longrightarrow> b < 32" and "b < 64" and "c < 64"
  shows "well_formed [char_of (0xE0 + a), char_of (0x80 + b), char_of (0x80 + c)]"
  using assms by (simp add: well_formed_def rune_size.simps accept_ranges_def byte_in_def) linarith

lemma well_formed_4:
  fixes a b c d :: nat
  assumes "a < 5" and "a = 0 \<longrightarrow> 16 \<le> b" and "a = 4 \<longrightarrow> b < 16" and "b < 64" and "c < 64" and "d < 64"
  shows "well_formed [char_of (0xF0 + a), char_of (0x80 + b), char_of (0x80 + c), char_of (0x80 + d)]"
  using assms by (simp add: well_formed_def rune_size.simps accept_ranges_def byte_in_def) linarith

lemma well_formed_encode_rune: "well_formed (encode_rune r)"
proof -
  consider "r < 0x80" | "0x80 \<le> r" "r < 0x800" | "0x800 \<le> r" "0xD800 \<le> r \<and> r \<le> 0xDFFF \<or> 0x10FFFF < r"
    | "0x800 \<le> r" "r < 0x10000" "\<not> (0xD800 \<le> r \<and> r \<le> 0xDFFF)" | "0x10000 \<le> r" "r \<le> 0x10FFFF"
    by linarith
  then show ?thesis
  proof cases
    case 1
    then show ?thesis by (simp add: encode_rune_def)
  next
    case 2
    then have "2 \<le> r div 64" "r div 64 < 32" by (simp_all add: div_less_iff_less_mult)
    with 2 well_formed_2 [of "r div 64" "r mod 64"] show ?thesis by (simp add: encode_rune_def)
  next
    case 3
    then show ?thesis by (simp add: encode_rune_def)
  next
    case 4
    let ?a = "r div 4096" and ?b = "r div 64 mod 64"
    have ab: "r div 64 = ?a * 64 + ?b" by (simp add: div_mult2_eq [of r 64 64, simplified])
    have "r div 64 < 1024" "32 \<le> r div 64" "r div 64 < 864 \<or> 896 \<le> r div 64"
      using 4 by (auto simp: div_less_iff_less_mult)
    with ab have a: "?a < 16" "?a = 0 \<longrightarrow> 32 \<le> ?b" "?a = 13 \<longrightarrow> ?b < 32" by linarith+
    with 4 well_formed_3 [of ?a ?b "r mod 64"] show ?thesis by (auto simp: encode_rune_def)
  next
    case 5
    let ?a = "r div 262144" and ?b = "r div 4096 mod 64"
    have ab: "r div 4096 = ?a * 64 + ?b" by (simp add: div_mult2_eq [of r 4096 64, simplified])
    have "r div 4096 < 272" "16 \<le> r div 4096" using 5 by (auto simp: div_less_iff_less_mult)
    with ab have a: "?a < 5" "?a = 0 \<longrightarrow> 16 \<le> ?b" "?a = 4 \<longrightarrow> ?b < 16" by linarith+
    with 5 well_formed_4 [of ?a ?b "r div 64 mod 64" "r mod 64"] show ?thesis by (simp add: encode_rune_def)
  qed
qed

lemma valid_utf8_Cons_ascii: "byte c < 0x80 \<Longrightarrow> valid_utf8 (c # s) \<longleftrightarrow> valid_utf8 s"
  using valid_utf8_rune [of "[c]" s] by simp

lemma simple_escape_ascii: "simple_escape e = Some x \<Longrightarrow> byte x < 0x80"
  by (auto simp: simple_escape_def split: if_splits)

lemma unquote_valid: "unquote raw = Some s \<Longrightarrow> valid_utf8 s"
proof (induction raw arbitrary: s rule: unquote.induct)
  case (2 c cs)
  show ?case
  proof (cases "c = Backslash")
    case True
    with 2(5) obtain e es where cs: "cs = e # es" by (auto simp: unquote.simps split: list.splits)
    show ?thesis
    proof (cases "e = CHR ''u''")
      case True
      with 2(5) \<open>c = Backslash\<close> cs obtain r t n u where h: "hex4 es = Some r" "unicode_escape r (drop 4 es) = (t, n)"
          "unquote (drop (4 + n) es) = Some u" "s = t @ u"
        by (auto simp: unquote.simps(2) [of Backslash] split: option.splits prod.splits)
      have "well_formed t" using h(2) well_formed_encode_rune
        by (auto simp: unicode_escape_def split: if_splits option.splits)
      with 2(1) [OF \<open>c = Backslash\<close> cs True h(1) h(2) [symmetric] h(3)] h(4) show ?thesis by simp
    next
      case False
      with 2(5) \<open>c = Backslash\<close> cs obtain x u where "simple_escape e = Some x" "unquote es = Some u" "s = x # u"
        by (auto simp: unquote.simps(2) [of Backslash] split: option.splits)
      with 2(2) [OF \<open>c = Backslash\<close> cs False] simple_escape_ascii valid_utf8_Cons_ascii show ?thesis by blast
    qed
  next
    case False
    with 2(5) have plain: "\<not> (c = Quote \<or> byte c < 0x20)" by (auto simp: unquote.simps split: if_splits)
    show ?thesis
    proof (cases "rune_size (c # cs) = 0")
      case True
      with 2(5) False plain obtain u where "unquote cs = Some u" "s = replacement @ u"
        by (auto simp: unquote.simps(2) [of c])
      with 2(3) [OF False plain True] show ?thesis by simp
    next
      case size: False
      let ?n = "rune_size (c # cs) - 1"
      from 2(5) False plain size obtain u where u: "unquote (drop ?n cs) = Some u" "s = (c # take ?n cs) @ u"
        by (auto simp: unquote.simps(2) [of c] Let_def)
      have "c # take ?n cs = take (rune_size (c # cs)) (c # cs)" using size by (cases "rune_size (c # cs)") auto
      then have "well_formed (c # take ?n cs)"
        using rune_size_take [OF size, of "[]"] rune_size_le [of "c # cs"] size by (simp add: well_formed_def)
      with 2(4) [OF False plain size refl u(1)] u(2) show ?thesis by (simp only: valid_utf8_rune)
    qed
  qed
qed (simp add: unquote.simps)

text \<open>A decoder that keeps a property of the variable it decodes into.\<close>

definition keeps :: "('a \<Rightarrow> bool) \<Rightarrow> 'a decoder \<Rightarrow> bool" where
  "keeps P dec \<longleftrightarrow> (\<forall>v x. P x \<longrightarrow> P (fst (dec v x)))"

lemma keeps_string: "keeps valid_utf8 decode_string"
  by (auto simp: keeps_def decode_string_def dest: unquote_valid split: json.split option.split)

definition int64 :: "int \<Rightarrow> bool" where
  "int64 i \<longleftrightarrow> - (2 ^ 63) \<le> i \<and> i < 2 ^ 63"

lemma atoi_int64: "atoi n = (i, True) \<Longrightarrow> int64 i"
  by (auto simp: atoi_def clamp64_def int64_def Let_def split: option.splits if_splits prod.splits)

lemma keeps_int: "keeps int64 decode_int"
  by (auto simp: keeps_def decode_int_def dest: atoi_int64 split: json.split prod.split)

lemma keeps_members:
  assumes "\<And>k key dec. unquote k = Some key \<Longrightarrow> target key = Some dec \<Longrightarrow> keeps P dec"
  shows "P x \<Longrightarrow> P (fst (decode_members target kvs x))"
proof (induction kvs arbitrary: x)
  case (Cons p kvs)
  obtain k v where p: "p = (k, v)" by fastforce
  show ?case
  proof (cases "unquote k")
    case (Some key)
    show ?thesis
    proof (cases "target key")
      case dec: (Some dec)
      obtain y o' where d: "dec v x = (y, o')" by fastforce
      with assms [OF Some dec] Cons.prems have "P y" unfolding keeps_def by (metis fst_conv)
      with Cons.IH [of y] show ?thesis by (simp add: p Some dec d split: prod.split) (metis fst_conv)
    qed (simp add: p Some Cons)
  qed (simp add: p Cons)
qed simp

lemma keeps_struct:
  assumes "\<And>f. f \<in> set fields \<Longrightarrow> keeps P (snd f)"
  shows "keeps P (decode_struct fields)"
proof -
  have "keeps P dec" if found: "field_for fields key = Some dec" for key dec
  proof (cases "map_of fields key")
    case None
    with found obtain f where "find (\<lambda>f. foldName (fst f) = foldName key) fields = Some f" "dec = snd f"
      by (auto simp: field_for_def)
    moreover from this have "f \<in> set fields" by (auto simp: find_Some_iff)
    ultimately show ?thesis using assms by blast
  next
    case (Some d)
    with found have "dec = d" by (simp add: field_for_def)
    with assms [OF map_of_SomeD [OF Some]] show ?thesis by simp
  qed
  with keeps_members [of "field_for fields" P] show ?thesis
    unfolding keeps_def [of P "decode_struct fields"] by (simp add: decode_struct_def split: json.split)
qed

lemma keeps_field:
  assumes "keeps Q dec" and "\<And>x. P x \<Longrightarrow> Q (get x)" and "\<And>x y. P x \<Longrightarrow> Q y \<Longrightarrow> P (upd y x)"
  shows "keeps P (at_field get upd dec)"
  using assms unfolding keeps_def at_field_def by (auto split: prod.split) (metis fst_conv)

lemma keeps_any: "keeps (\<lambda>_. True) dec"
  by (simp add: keeps_def)

text \<open>A map whose keys and values are UTF-8.\<close>

definition text_map :: "(string, string) fmap \<Rightarrow> bool" where
  "text_map m \<longleftrightarrow> (\<forall>k s. fmlookup m k = Some s \<longrightarrow> valid_utf8 k \<and> valid_utf8 s)"

lemma keeps_body: "keeps P dec \<Longrightarrow> P x \<Longrightarrow> P (fst (decode_body dec x text))"
  by (auto simp: keeps_def decode_body_def split: option.split)

section \<open>Reading what another program wrote\<close>

text \<open>Members that no field is for do not matter.\<close>

lemma decode_members_known:
  assumes "list_all (\<lambda>(k, v). unquote k \<noteq> None) kvs"
  shows "decode_members target kvs x = decode_members target (filter (\<lambda>(k, v). target (the (unquote k)) \<noteq> None) kvs) x"
  using assms
proof (induction kvs arbitrary: x)
  case (Cons p kvs)
  obtain k v where p: "p = (k, v)" by fastforce
  with Cons.prems obtain key where "unquote k = Some key" by auto
  with Cons p show ?case by (cases "target key") (auto split: prod.split)
qed simp

text \<open>A fresh slice gets the elements of the array.\<close>

lemma decode_elems_fresh:
  "list_all2 (\<lambda>v y. dec v zero = (y, Fine)) vs ys \<Longrightarrow> decode_elems dec zero vs [] = (ys, length ys, Fine)"
  by (induction rule: list_all2_induct) simp_all

lemma decode_slice_fresh:
  assumes "list_all2 (\<lambda>v y. dec v zero = (y, Fine)) vs ys"
  shows "decode_slice dec zero (JArray vs) NilSlice = (Slice (length ys) ys, Fine)"
  using decode_elems_fresh [of dec zero vs ys] assms by (simp add: decode_slice_def)

lemma slice_items_Slice [simp]: "slice_items (Slice (length xs) xs) = xs" "slice_items NilSlice = []"
  by (simp_all add: slice_items_def)

lemma keeps_elems:
  assumes "keeps P dec" and "P zero"
  shows "list_all P xs \<Longrightarrow> list_all P (fst (decode_elems dec zero vs xs))"
proof (induction vs arbitrary: xs)
  case (Cons v vs)
  let ?x = "case xs of [] \<Rightarrow> zero | x # _ \<Rightarrow> x"
  from Cons.prems assms(2) have "P ?x" by (cases xs) auto
  with assms(1) have y: "P (fst (dec v ?x))" by (simp add: keeps_def)
  from Cons.prems have "list_all P (tl xs)" by (cases xs) auto
  with Cons.IH [of "tl xs"] y show ?case by (auto split: prod.split)
qed simp

lemma keeps_slice:
  assumes "keeps P dec" and "P zero"
  shows "keeps (\<lambda>s. list_all P (slice_array s)) (decode_slice dec zero)"
  unfolding keeps_def
proof (intro allI impI)
  fix v s assume "list_all P (slice_array s)"
  then show "list_all P (slice_array (fst (decode_slice dec zero v s)))"
    using keeps_elems [OF assms, of "slice_array s"]
    by (auto simp: decode_slice_def split: json.split prod.split) (metis fst_conv)+
qed

text \<open>A map whose keys are UTF-8 and whose values have a property.\<close>

definition map_all :: "('v \<Rightarrow> bool) \<Rightarrow> (string, 'v) fmap \<Rightarrow> bool" where
  "map_all P m \<longleftrightarrow> (\<forall>k y. fmlookup m k = Some y \<longrightarrow> valid_utf8 k \<and> P y)"

lemma keeps_map_of:
  assumes "keeps P dec" and "P zero"
  shows "keeps (map_all P) (decode_map_of dec zero)"
proof -
  have entry: "keeps (map_all P) (map_entry dec zero key)" if "valid_utf8 key" for key
    unfolding keeps_def
  proof (intro allI impI)
    fix v m assume m: "map_all P m"
    have "P (fst (dec v zero))" using assms by (simp add: keeps_def)
    with m that show "map_all P (fst (map_entry dec zero key v m))"
      by (cases "dec v zero") (auto simp: map_entry_def map_all_def)
  qed
  have "map_all P (fst (decode_members (\<lambda>key. Some (map_entry dec zero key)) kvs m))" if "map_all P m" for kvs m
  proof (rule keeps_members)
    show "keeps (map_all P) d" if "unquote k = Some key" "Some (map_entry dec zero key) = Some d" for k key d
      using entry [OF unquote_valid [OF that(1)]] that(2) by simp
  qed (rule that)
  moreover have "map_all P fmempty" by (simp add: map_all_def)
  ultimately show ?thesis by (simp add: keeps_def decode_map_of_def split: json.split)
qed

lemma keeps_map: "keeps text_map decode_map"
  using keeps_map_of [OF keeps_string] by (simp add: text_map_def [abs_def] map_all_def [abs_def])

end
