(* ===== verification/Wire_Bodies.thy ===== *)
theory Wire_Bodies
  imports Contracts Json_Codec
begin

text \<open>
  The HTTP bodies as text: for every struct of \<^verbatim>\<open>pkg/protocol\<close> and \<^verbatim>\<open>pkg/api\<close> the JSON value its
  field tags describe, and the decoder of its fields where a part of the program reads it. The
  interpretations of \<open>json_codec\<close> show that the two fit.
\<close>

section \<open>pkg/protocol\<close>

definition encode_register_request :: "DeviceRegisterRequest \<Rightarrow> json" where
  "encode_register_request r =
     JObject [(''device_id'', encode_string (req_DeviceID r)), (''hostname'', encode_string (req_Hostname r)),
       (''operating_system'', encode_string (req_OperatingSystem r)), (''architecture'', encode_string (req_Architecture r)),
       (''cpu_cores'', encode_int (req_CPUCores r)), (''memory_bytes'', encode_uint64 (req_MemoryBytes r)),
       (''deployos_version'', encode_string (req_DeployOSVersion r))]"

definition register_request_fields :: "(string \<times> DeviceRegisterRequest decoder) list" where
  "register_request_fields =
     [(''device_id'', at_field req_DeviceID (\<lambda>s. req_DeviceID_update (\<lambda>_. s)) decode_string),
      (''hostname'', at_field req_Hostname (\<lambda>s. req_Hostname_update (\<lambda>_. s)) decode_string),
      (''operating_system'', at_field req_OperatingSystem (\<lambda>s. req_OperatingSystem_update (\<lambda>_. s)) decode_string),
      (''architecture'', at_field req_Architecture (\<lambda>s. req_Architecture_update (\<lambda>_. s)) decode_string),
      (''cpu_cores'', at_field req_CPUCores (\<lambda>i. req_CPUCores_update (\<lambda>_. i)) decode_int),
      (''memory_bytes'', at_field req_MemoryBytes (\<lambda>w. req_MemoryBytes_update (\<lambda>_. w)) decode_uint64),
      (''deployos_version'', at_field req_DeployOSVersion (\<lambda>s. req_DeployOSVersion_update (\<lambda>_. s)) decode_string)]"

definition zero_register_request :: DeviceRegisterRequest where
  "zero_register_request =
     \<lparr>req_DeviceID = '''', req_Hostname = '''', req_OperatingSystem = '''', req_Architecture = '''',
      req_CPUCores = 0, req_MemoryBytes = 0, req_DeployOSVersion = ''''\<rparr>"

definition encode_register_response :: "(Time \<Rightarrow> int) \<Rightarrow> DeviceRegisterResponse \<Rightarrow> json option" where
  "encode_register_response zone r =
     map_option (\<lambda>t. JObject [(''device_id'', encode_string (resp_DeviceID r)), (''token'', encode_string (resp_Token r)),
       (''expires_at'', t)]) (encode_time zone (resp_ExpiresAt r))"

definition register_response_fields :: "(string \<times> DeviceRegisterResponse decoder) list" where
  "register_response_fields =
     [(''device_id'', at_field resp_DeviceID (\<lambda>s. resp_DeviceID_update (\<lambda>_. s)) decode_string),
      (''token'', at_field resp_Token (\<lambda>s. resp_Token_update (\<lambda>_. s)) decode_string),
      (''expires_at'', at_field resp_ExpiresAt (\<lambda>t. resp_ExpiresAt_update (\<lambda>_. t)) decode_time)]"

definition zero_register_response :: DeviceRegisterResponse where
  "zero_register_response = \<lparr>resp_DeviceID = '''', resp_Token = '''', resp_ExpiresAt = 0\<rparr>"

definition encode_heartbeat :: "Heartbeat \<Rightarrow> json" where
  "encode_heartbeat h =
     JObject [(''agent_id'', encode_string (hb_AgentID h)), (''agent_version'', encode_string (hb_AgentVersion h)),
       (''timestamp'', encode_int (hb_Timestamp h))]"

definition heartbeat_fields :: "(string \<times> Heartbeat decoder) list" where
  "heartbeat_fields =
     [(''agent_id'', at_field hb_AgentID (\<lambda>s. hb_AgentID_update (\<lambda>_. s)) decode_string),
      (''agent_version'', at_field hb_AgentVersion (\<lambda>s. hb_AgentVersion_update (\<lambda>_. s)) decode_string),
      (''timestamp'', at_field hb_Timestamp (\<lambda>i. hb_Timestamp_update (\<lambda>_. i)) decode_int)]"

definition zero_heartbeat :: Heartbeat where
  "zero_heartbeat = \<lparr>hb_AgentID = '''', hb_AgentVersion = '''', hb_Timestamp = 0\<rparr>"

section \<open>pkg/api\<close>

definition encode_command_request :: "SendCommandRequest \<Rightarrow> json" where
  "encode_command_request r =
     JObject ((''kind'', encode_string (scr_Kind r)) # omitempty ''arguments'' (scr_Arguments r))"

definition command_request_fields :: "(string \<times> SendCommandRequest decoder) list" where
  "command_request_fields =
     [(''kind'', at_field scr_Kind (\<lambda>s. scr_Kind_update (\<lambda>_. s)) decode_string),
      (''arguments'', at_field scr_Arguments (\<lambda>m. scr_Arguments_update (\<lambda>_. m)) decode_map)]"

definition zero_command_request :: SendCommandRequest where
  "zero_command_request = \<lparr>scr_Kind = '''', scr_Arguments = fmempty\<rparr>"

definition encode_command_response :: "SendCommandResponse \<Rightarrow> json" where
  "encode_command_response r =
     JObject ([(''command_id'', encode_string (scp_CommandID r)), (''success'', JBool (scp_Success r)),
       (''message'', encode_string (scp_Message r))] @ omitempty ''details'' (scp_Details r))"

definition command_response_fields :: "(string \<times> SendCommandResponse decoder) list" where
  "command_response_fields =
     [(''command_id'', at_field scp_CommandID (\<lambda>s. scp_CommandID_update (\<lambda>_. s)) decode_string),
      (''success'', at_field scp_Success (\<lambda>b. scp_Success_update (\<lambda>_. b)) decode_bool),
      (''message'', at_field scp_Message (\<lambda>s. scp_Message_update (\<lambda>_. s)) decode_string),
      (''details'', at_field scp_Details (\<lambda>m. scp_Details_update (\<lambda>_. m)) decode_map)]"

definition zero_command_response :: SendCommandResponse where
  "zero_command_response = \<lparr>scp_CommandID = '''', scp_Success = False, scp_Message = '''', scp_Details = fmempty\<rparr>"

definition encode_device :: "(Time \<Rightarrow> int) \<Rightarrow> api_Device \<Rightarrow> json option" where
  "encode_device zone d =
     map_option (\<lambda>t. JObject [(''id'', encode_string (apid_ID d)), (''hostname'', encode_string (apid_Hostname d)),
       (''operating_system'', encode_string (apid_OperatingSystem d)), (''architecture'', encode_string (apid_Architecture d)),
       (''status'', encode_string (apid_Status d)), (''created_at'', t)]) (encode_time zone (apid_CreatedAt d))"

definition encode_device_list :: "(Time \<Rightarrow> int) \<Rightarrow> api_Device list \<Rightarrow> json option" where
  "encode_device_list zone ds =
     map_option (\<lambda>vs. JObject [(''devices'', JArray vs)]) (those (map (encode_device zone) ds))"

definition encode_error :: "string \<Rightarrow> json" where
  "encode_error e = JObject [(''error'', encode_string e)]"

text \<open>A struct with the error text as its only field is represented by the text.\<close>

definition error_fields :: "(string \<times> string decoder) list" where
  "error_fields = [(''error'', decode_string)]"

definition encode_health :: "string \<Rightarrow> json" where
  "encode_health s = JObject [(''status'', encode_string s)]"

definition encode_version :: "VersionResponse \<Rightarrow> json" where
  "encode_version r = JObject [(''name'', encode_string (vr_Name r)), (''version'', encode_string (vr_Version r))]"

fun body_json :: "(Time \<Rightarrow> int) \<Rightarrow> body \<Rightarrow> json option" where
  "body_json zone (ErrorResponse e) = Some (encode_error e)"
| "body_json zone (HealthResponse s) = Some (encode_health s)"
| "body_json zone (VersionBody r) = Some (encode_version r)"
| "body_json zone (CommandBody r) = Some (encode_command_response r)"
| "body_json zone (RegisterBody r) = encode_register_response zone r"
| "body_json zone (ListDevicesResponse ds) = encode_device_list zone ds"

text \<open>The bytes of a response's body; \<open>zone\<close> is the offset of the process's location.\<close>

definition response_text :: "(Time \<Rightarrow> int) \<Rightarrow> http_response \<Rightarrow> string" where
  "response_text zone resp = encoder_text (body_json zone (http_body resp))"

section \<open>What the program reads\<close>

text \<open>A decoded body, where decoding reported no error.\<close>

definition decoded :: "'a \<times> decode_status \<Rightarrow> 'a option" where
  "decoded p = (if snd p = Fine then Some (fst p) else None)"

definition read_register_request :: "string \<Rightarrow> DeviceRegisterRequest option" where
  "read_register_request text = decoded (decode_body (decode_struct register_request_fields) zero_register_request text)"

definition read_register_response :: "string \<Rightarrow> DeviceRegisterResponse option" where
  "read_register_response text = decoded (decode_body (decode_struct register_response_fields) zero_register_response text)"

definition read_command_request :: "string \<Rightarrow> SendCommandRequest option" where
  "read_command_request text = decoded (decode_body (decode_struct command_request_fields) zero_command_request text)"

text \<open>The error text of a body, also where decoding it reported an error.\<close>

definition read_error :: "string \<Rightarrow> string" where
  "read_error text = fst (decode_body (decode_struct error_fields) '''' text)"

section \<open>The codecs\<close>

text \<open>Where text is not UTF-8, the other side sees the replacement character.\<close>

definition coerced_register_request :: "DeviceRegisterRequest \<Rightarrow> DeviceRegisterRequest" where
  "coerced_register_request r =
     r\<lparr>req_DeviceID := coerce_utf8 (req_DeviceID r), req_Hostname := coerce_utf8 (req_Hostname r),
       req_OperatingSystem := coerce_utf8 (req_OperatingSystem r), req_Architecture := coerce_utf8 (req_Architecture r),
       req_DeployOSVersion := coerce_utf8 (req_DeployOSVersion r)\<rparr>"

lemma plain_tags:
  "list_all plain_name [''device_id'', ''hostname'', ''operating_system'', ''architecture'', ''cpu_cores'', ''memory_bytes'',
     ''deployos_version'', ''token'', ''expires_at'', ''agent_id'', ''agent_version'', ''timestamp'', ''kind'', ''arguments'',
     ''command_id'', ''success'', ''message'', ''details'', ''id'', ''status'', ''created_at'', ''devices'', ''error'',
     ''name'', ''version'', ''email'']"
  by code_simp

lemmas tag_plain [simp] = plain_tags [unfolded list.pred_inject]

lemmas fits_defs = raw_text_plain_name maxNestingDepth_def encode_map_fits

lemmas decode_defs = decode_struct_def unquote_plain field_for_def at_field_def decode_encode_int int64_def

interpretation register_request: json_codec "\<lambda>r. Some (encode_register_request r)"
  "decode_struct register_request_fields" zero_register_request "\<lambda>r. int64 (req_CPUCores r)" coerced_register_request
proof
  show "json_fits maxNestingDepth v" if "Some (encode_register_request x) = Some v" for x v
    using that by (auto simp: encode_register_request_def fits_defs)
  show "decode_struct register_request_fields v zero_register_request = (coerced_register_request x, Fine)"
    if "int64 (req_CPUCores x)" "Some (encode_register_request x) = Some v" for x v
    using that by (auto simp: encode_register_request_def decode_defs register_request_fields_def
        coerced_register_request_def zero_register_request_def)
qed

definition coerced_register_response :: "(Time \<Rightarrow> int) \<Rightarrow> DeviceRegisterResponse \<Rightarrow> DeviceRegisterResponse" where
  "coerced_register_response zone r =
     \<lparr>resp_DeviceID = coerce_utf8 (resp_DeviceID r), resp_Token = coerce_utf8 (resp_Token r),
      resp_ExpiresAt = written_time zone (resp_ExpiresAt r)\<rparr>"

interpretation register_response: json_codec "encode_register_response zone"
  "decode_struct register_response_fields" zero_register_response "\<lambda>_. True" "coerced_register_response zone"
  for zone
proof
  show "json_fits maxNestingDepth v" if "encode_register_response zone x = Some v" for x v
    using that by (auto simp: encode_register_response_def fits_defs encode_time_fits)
  show "decode_struct register_response_fields v zero_register_response = (coerced_register_response zone x, Fine)"
    if "encode_register_response zone x = Some v" for x v
    using that by (auto simp: encode_register_response_def decode_defs register_response_fields_def decode_encode_time
        coerced_register_response_def zero_register_response_def)
qed

definition coerced_heartbeat :: "Heartbeat \<Rightarrow> Heartbeat" where
  "coerced_heartbeat h = h\<lparr>hb_AgentID := coerce_utf8 (hb_AgentID h), hb_AgentVersion := coerce_utf8 (hb_AgentVersion h)\<rparr>"

interpretation heartbeat: json_codec "\<lambda>h. Some (encode_heartbeat h)" "decode_struct heartbeat_fields" zero_heartbeat
  "\<lambda>h. int64 (hb_Timestamp h)" coerced_heartbeat
proof
  show "json_fits maxNestingDepth v" if "Some (encode_heartbeat x) = Some v" for x v
    using that by (auto simp: encode_heartbeat_def fits_defs)
  show "decode_struct heartbeat_fields v zero_heartbeat = (coerced_heartbeat x, Fine)"
    if "int64 (hb_Timestamp x)" "Some (encode_heartbeat x) = Some v" for x v
    using that by (auto simp: encode_heartbeat_def decode_defs heartbeat_fields_def coerced_heartbeat_def zero_heartbeat_def)
qed

definition coerced_command_request :: "SendCommandRequest \<Rightarrow> SendCommandRequest" where
  "coerced_command_request r =
     \<lparr>scr_Kind = coerce_utf8 (scr_Kind r), scr_Arguments = fmmap coerce_utf8 (scr_Arguments r)\<rparr>"

interpretation command_request: json_codec "\<lambda>r. Some (encode_command_request r)" "decode_struct command_request_fields"
  zero_command_request "\<lambda>r. valid_keys (scr_Arguments r)" coerced_command_request
proof
  show "json_fits maxNestingDepth v" if "Some (encode_command_request x) = Some v" for x v
    using that by (auto simp: encode_command_request_def omitempty_def fits_defs)
  show "decode_struct command_request_fields v zero_command_request = (coerced_command_request x, Fine)"
    if "valid_keys (scr_Arguments x)" "Some (encode_command_request x) = Some v" for x v
    using that by (auto simp: encode_command_request_def omitempty_def decode_defs decode_encode_map
        command_request_fields_def coerced_command_request_def zero_command_request_def)
qed

definition coerced_command_response :: "SendCommandResponse \<Rightarrow> SendCommandResponse" where
  "coerced_command_response r =
     r\<lparr>scp_CommandID := coerce_utf8 (scp_CommandID r), scp_Message := coerce_utf8 (scp_Message r),
       scp_Details := fmmap coerce_utf8 (scp_Details r)\<rparr>"

interpretation command_response: json_codec "\<lambda>r. Some (encode_command_response r)" "decode_struct command_response_fields"
  zero_command_response "\<lambda>r. valid_keys (scp_Details r)" coerced_command_response
proof
  show "json_fits maxNestingDepth v" if "Some (encode_command_response x) = Some v" for x v
    using that by (auto simp: encode_command_response_def omitempty_def fits_defs)
  show "decode_struct command_response_fields v zero_command_response = (coerced_command_response x, Fine)"
    if "valid_keys (scp_Details x)" "Some (encode_command_response x) = Some v" for x v
    using that by (auto simp: encode_command_response_def omitempty_def decode_defs decode_encode_map
        command_response_fields_def coerced_command_response_def zero_command_response_def)
qed

interpretation error_response: json_codec "\<lambda>e. Some (encode_error e)" "decode_struct error_fields" "''''" "\<lambda>_. True" coerce_utf8
  by unfold_locales (auto simp: encode_error_def fits_defs decode_defs error_fields_def)

lemma decoded_Fine [simp]: "decoded (x, Fine) = Some x"
  by (simp add: decoded_def)

text \<open>What a part of the program reads from the text another part wrote.\<close>

lemma read_written:
  "int64 (req_CPUCores r) \<Longrightarrow>
     read_register_request (json_text (encode_register_request r)) = Some (coerced_register_request r)"
  "valid_keys (scr_Arguments c) \<Longrightarrow>
     read_command_request (json_text (encode_command_request c)) = Some (coerced_command_request c)"
  "encode_register_response zone b = Some v \<Longrightarrow>
     read_register_response (encoder_text (encode_register_response zone b)) = Some (coerced_register_response zone b)"
  "read_error (encoder_text (Some (encode_error e))) = coerce_utf8 e"
  using register_request.decode_marshalled [of r] command_request.decode_marshalled [of c]
    register_response.decode_written [of zone b v] error_response.decode_written [of e]
  by (simp_all add: read_register_request_def read_command_request_def read_register_response_def read_error_def)

section \<open>What the server reads\<close>

definition text_request :: "DeviceRegisterRequest \<Rightarrow> bool" where
  "text_request r \<longleftrightarrow> valid_utf8 (req_DeviceID r) \<and> valid_utf8 (req_Hostname r) \<and> valid_utf8 (req_OperatingSystem r) \<and>
     valid_utf8 (req_Architecture r) \<and> int64 (req_CPUCores r) \<and> valid_utf8 (req_DeployOSVersion r)"

definition text_command :: "SendCommandRequest \<Rightarrow> bool" where
  "text_command r \<longleftrightarrow> valid_utf8 (scr_Kind r) \<and> text_map (scr_Arguments r)"

lemma read_register_request_text:
  assumes "read_register_request text = Some r"
  shows "text_request r"
proof -
  have "keeps text_request (snd f)" if "f \<in> set register_request_fields" for f
    using that unfolding register_request_fields_def
    by (auto intro!: keeps_field [OF keeps_string] keeps_field [OF keeps_int] keeps_field [OF keeps_any [of decode_uint64]]
        simp: text_request_def)
  then have "keeps text_request (decode_struct register_request_fields)" by (rule keeps_struct)
  moreover have "text_request zero_register_request" by (simp add: text_request_def zero_register_request_def int64_def)
  ultimately have "text_request (fst (decode_body (decode_struct register_request_fields) zero_register_request text))"
    by (rule keeps_body)
  then show ?thesis using assms by (auto simp: read_register_request_def decoded_def split: if_splits)
qed

lemma read_command_request_text:
  assumes "read_command_request text = Some r"
  shows "text_command r"
proof -
  have "keeps text_command (snd f)" if "f \<in> set command_request_fields" for f
    using that unfolding command_request_fields_def
    by (auto intro!: keeps_field [OF keeps_string] keeps_field [OF keeps_map] simp: text_command_def)
  then have "keeps text_command (decode_struct command_request_fields)" by (rule keeps_struct)
  moreover have "text_command zero_command_request" by (simp add: text_command_def zero_command_request_def text_map_def)
  ultimately have "text_command (fst (decode_body (decode_struct command_request_fields) zero_command_request text))"
    by (rule keeps_body)
  then show ?thesis using assms by (auto simp: read_command_request_def decoded_def split: if_splits)
qed

text \<open>For text there is nothing to replace.\<close>

lemma coerced_text:
  "text_request r \<Longrightarrow> coerced_register_request r = r"
  "text_command c \<Longrightarrow> coerced_command_request c = c"
proof -
  show "text_request r \<Longrightarrow> coerced_register_request r = r"
    by (cases r) (simp add: text_request_def coerced_register_request_def)
  have "fmmap coerce_utf8 m = m" if "text_map m" for m
  proof (rule fmap_ext)
    show "fmlookup (fmmap coerce_utf8 m) k = fmlookup m k" for k
      using that by (cases "fmlookup m k") (auto simp: text_map_def)
  qed
  then show "text_command c \<Longrightarrow> coerced_command_request c = c"
    by (cases c) (simp add: text_command_def coerced_command_request_def)
qed

section \<open>Properties\<close>

text \<open>
  \<^bold>\<open>C8.\<close> What one part of the program writes, the other part reads: a registration request, an
  answer to it whose expiry can be written, a command and its answer are all read back from
  the text on the wire with every field at its place and every number exact; a text comes back
  unchanged, whatever quotes, control characters or characters outside ASCII it holds, and a
  string that is no UTF-8 with the bytes at fault replaced; a time comes back as the same
  instant if the offset of the location is a whole number of minutes; the text of an error
  answer comes back as the error.
\<close>

theorem wire_roundtrip:
  "(text_request r \<longrightarrow> read_register_request (json_text (encode_register_request r)) = Some r) \<and>
   (int64 (req_CPUCores r) \<longrightarrow>
      read_register_request (json_text (encode_register_request r)) = Some (coerced_register_request r)) \<and>
   (encode_time zone (resp_ExpiresAt b) \<noteq> None \<and> 60 dvd zone (resp_ExpiresAt b) \<longrightarrow>
      read_register_response (response_text zone (writeJSON 201 (RegisterBody b))) =
        Some (b\<lparr>resp_DeviceID := coerce_utf8 (resp_DeviceID b), resp_Token := coerce_utf8 (resp_Token b)\<rparr>)) \<and>
   (text_command c \<longrightarrow> read_command_request (json_text (encode_command_request c)) = Some c) \<and>
   (valid_keys (scp_Details a) \<longrightarrow>
      decode_body (decode_struct command_response_fields) zero_command_response
        (response_text zone (writeJSON 200 (CommandBody a))) = (coerced_command_response a, Fine)) \<and>
   read_error (response_text zone (writeError status e)) = coerce_utf8 e"
proof (intro conjI impI)
  show "read_register_request (json_text (encode_register_request r)) = Some r" if "text_request r"
    using that read_written(1) [of r] coerced_text(1) [of r] by (simp add: text_request_def)
  show "read_register_request (json_text (encode_register_request r)) = Some (coerced_register_request r)"
    if "int64 (req_CPUCores r)"
    using that by (rule read_written(1))
  show "read_register_response (response_text zone (writeJSON 201 (RegisterBody b))) =
      Some (b\<lparr>resp_DeviceID := coerce_utf8 (resp_DeviceID b), resp_Token := coerce_utf8 (resp_Token b)\<rparr>)"
    if "encode_time zone (resp_ExpiresAt b) \<noteq> None \<and> 60 dvd zone (resp_ExpiresAt b)"
  proof -
    have "read_register_response (response_text zone (writeJSON 201 (RegisterBody b))) = Some (coerced_register_response zone b)"
      using that read_written(3) [of zone b] by (auto simp: response_text_def encode_register_response_def)
    then show ?thesis using that written_time_minutes [of zone "resp_ExpiresAt b"]
      by (cases b) (simp add: coerced_register_response_def)
  qed
  show "read_command_request (json_text (encode_command_request c)) = Some c" if "text_command c"
    using that read_written(2) [of c] coerced_text(2) [of c] by (auto simp: text_command_def valid_keys_def text_map_def)
  show "decode_body (decode_struct command_response_fields) zero_command_response
      (response_text zone (writeJSON 200 (CommandBody a))) = (coerced_command_response a, Fine)"
    if "valid_keys (scp_Details a)"
    using command_response.decode_written [of a] that by (simp add: response_text_def)
  show "read_error (response_text zone (writeError status e)) = coerce_utf8 e"
    using read_written(4) by (simp add: response_text_def)
qed

text \<open>A host name with a quote, a line feed, an ampersand and a byte that is no text.\<close>

definition demo_odd_request :: DeviceRegisterRequest where
  "demo_odd_request = zero_register_request\<lparr>req_Hostname := [CHR ''a'', Quote, CHR 0x0A, CHR ''&'', CHR 0xFF],
     req_CPUCores := 8, req_MemoryBytes := 1024\<rparr>"

theorem wire_roundtrip_witness:
  "map_option req_Hostname (read_register_request (json_text (encode_register_request demo_odd_request))) =
     Some ([CHR ''a'', Quote, CHR 0x0A, CHR ''&''] @ replacement) \<and>
   map_option resp_Token (read_register_response (response_text (\<lambda>_. 3600) (writeJSON 201
     (RegisterBody \<lparr>resp_DeviceID = ''d1'', resp_Token = ''tok'', resp_ExpiresAt = 5\<rparr>)))) = Some ''tok''"
proof -
  have cores: "int64 (req_CPUCores demo_odd_request)" by (simp add: demo_odd_request_def int64_def)
  have time: "encode_time (\<lambda>_. 3600) (resp_ExpiresAt \<lparr>resp_DeviceID = ''d1'', resp_Token = ''tok'', resp_ExpiresAt = 5\<rparr>) \<noteq> None"
    by (simp add: encode_time_def format_time_def Let_def calendar_day_def day_def zone_minutes_def cycle_days_def)
  have "runes (req_Hostname demo_odd_request) = [''a'', [Quote], [CHR 0x0A], ''&'', [CHR 0xFF]]"
    by (simp add: demo_odd_request_def rune_size.simps accept_ranges_def)
  then have "coerce_utf8 (req_Hostname demo_odd_request) = [CHR ''a'', Quote, CHR 0x0A, CHR ''&''] @ replacement"
    by (simp add: coerce_utf8_def)
  moreover have "coerce_utf8 ''tok'' = ''tok''" by (simp add: ascii_valid_utf8)
  ultimately show ?thesis
    using wire_roundtrip [of demo_odd_request "\<lambda>_. 3600" "\<lparr>resp_DeviceID = ''d1'', resp_Token = ''tok'', resp_ExpiresAt = 5\<rparr>"
        undefined undefined undefined undefined] cores time
    by (simp add: coerced_register_request_def)
qed

end
