(* ===== verification/Auth.thy ===== *)
theory Auth
  imports Wire_Bodies
begin

text \<open>
  Operator authentication, \<^verbatim>\<open>internal/auth\<close>: the bearer token of a request (\<^verbatim>\<open>auth.go\<close>) and the
  authenticator that asks Supabase whose token it is (\<^verbatim>\<open>supabase.go\<close>). Supabase and the
  network are arguments: \<open>newRequest\<close> says whether a URL can be turned into a request, and
  \<open>do\<close> answers a request with an error or a response. The text of a decoding error comes with
  the response, since only its presence matters.
\<close>

section \<open>auth.go\<close>

record User =
  usr_ID :: string
  usr_Email :: string

text \<open>An \<^verbatim>\<open>Authenticator\<close> answers an access token with an error or its user.\<close>

type_synonym Authenticator = "string \<Rightarrow> error + User"

definition auth_ErrInvalidToken :: error where
  "auth_ErrInvalidToken = New ''auth.ErrInvalidToken'' ''invalid or expired access token''"

text \<open>The parts of an HTTP request the handlers read: one header and the path values.\<close>

record http_request =
  hreq_Authorization :: string
  hreq_PathValue :: "string \<Rightarrow> string"

definition BearerToken :: "http_request \<Rightarrow> string option" where
  "BearerToken r =
     (let header = hreq_Authorization r; prefix = ''Bearer '' in
      if \<not> has_prefix header prefix then None
      else (let token = trim_space (trim_prefix header prefix) in
            if token = '''' then None else Some token))"

section \<open>supabase.go\<close>

record out_request =
  oreq_Method :: string
  oreq_URL :: string
  oreq_Header :: "(string \<times> string) list"

record supabaseUserResponse =
  sur_ID :: string
  sur_Email :: string

definition user_fields :: "(string \<times> supabaseUserResponse decoder) list" where
  "user_fields =
     [(''id'', at_field sur_ID (\<lambda>s. sur_ID_update (\<lambda>_. s)) decode_string),
      (''email'', at_field sur_Email (\<lambda>s. sur_Email_update (\<lambda>_. s)) decode_string)]"

definition read_user :: "string \<Rightarrow> supabaseUserResponse option" where
  "read_user text = decoded (decode_body (decode_struct user_fields) \<lparr>sur_ID = '''', sur_Email = ''''\<rparr> text)"

record supabase_response =
  sresp_StatusCode :: nat
  sresp_Body :: string
  sresp_DecodeError :: error

record SupabaseAuthenticator =
  sa_baseURL :: string
  sa_anonKey :: string

definition NewSupabaseAuthenticator :: "string \<Rightarrow> string \<Rightarrow> SupabaseAuthenticator" where
  "NewSupabaseAuthenticator baseURL anonKey =
     \<lparr>sa_baseURL = trim_suffix baseURL ''/'', sa_anonKey = anonKey\<rparr>"

definition supabase_request :: "SupabaseAuthenticator \<Rightarrow> string \<Rightarrow> out_request" where
  "supabase_request a accessToken =
     \<lparr>oreq_Method = ''GET'', oreq_URL = sa_baseURL a @ ''/auth/v1/user'',
      oreq_Header = [(''Authorization'', ''Bearer '' @ accessToken), (''apikey'', sa_anonKey a)]\<rparr>"

definition Authenticate ::
  "(string \<Rightarrow> error option) \<Rightarrow> (out_request \<Rightarrow> error + supabase_response) \<Rightarrow>
   SupabaseAuthenticator \<Rightarrow> Authenticator" where
  "Authenticate newRequest do a accessToken =
     (let req = supabase_request a accessToken in
      case newRequest (oreq_URL req) of
        Some err \<Rightarrow> Inl (Wrapf ''building supabase auth request: '' err '''')
      | None \<Rightarrow>
        (case do req of
           Inl err \<Rightarrow> Inl (Wrapf ''calling supabase auth: '' err '''')
         | Inr resp \<Rightarrow>
           (if sresp_StatusCode resp \<noteq> 200 then
              (if sresp_StatusCode resp = 401 \<or> sresp_StatusCode resp = 403
               then Inl auth_ErrInvalidToken
               else Inl (anon (''supabase auth returned status '' @ dec_nat (sresp_StatusCode resp))))
            else
              (case read_user (sresp_Body resp) of
                 None \<Rightarrow> Inl (Wrapf ''decoding supabase auth response: '' (sresp_DecodeError resp) '''')
               | Some body \<Rightarrow>
                   (if sur_ID body = '''' then Inl auth_ErrInvalidToken
                    else Inr \<lparr>usr_ID = sur_ID body, usr_Email = sur_Email body\<rparr>)))))"

section \<open>Contracts\<close>

text \<open>
  What the handlers ask of an \<^verbatim>\<open>Authenticator\<close>: an accepted token belongs to a user with a
  non-empty identifier.
\<close>

locale authenticator =
  fixes authenticate :: Authenticator
  assumes authenticated_id: "authenticate tok = Inr u \<Longrightarrow> usr_ID u \<noteq> ''''"

lemma Authenticate_Inr_iff:
  "Authenticate newRequest do a tok = Inr u \<longleftrightarrow>
     newRequest (sa_baseURL a @ ''/auth/v1/user'') = None \<and>
     (\<exists>resp body. do (supabase_request a tok) = Inr resp \<and> sresp_StatusCode resp = 200 \<and>
        read_user (sresp_Body resp) = Some body \<and> sur_ID body \<noteq> '''' \<and>
        u = \<lparr>usr_ID = sur_ID body, usr_Email = sur_Email body\<rparr>)"
  by (auto simp: Authenticate_def Let_def supabase_request_def split: option.splits sum.splits)

interpretation supabase: authenticator "Authenticate newRequest do a"
  for newRequest do a
  by unfold_locales (auto simp: Authenticate_Inr_iff)

lemma BearerToken_Some_iff:
  "BearerToken r = Some t \<longleftrightarrow>
     (\<exists>x. hreq_Authorization r = ''Bearer '' @ x \<and> t = trim_space x \<and> t \<noteq> '''')"
proof -
  have "has_prefix (hreq_Authorization r) ''Bearer '' \<longleftrightarrow> (\<exists>x. hreq_Authorization r = ''Bearer '' @ x)"
    by (rule has_prefix_iff)
  moreover have "trim_prefix (''Bearer '' @ x) ''Bearer '' = x" for x by (rule trim_prefix_append)
  ultimately show ?thesis unfolding BearerToken_def Let_def by (auto split: if_splits)
qed

lemma BearerToken_untrimmed: "BearerToken r = Some t \<Longrightarrow> untrimmed t \<and> t \<noteq> ''''"
  by (auto simp: BearerToken_Some_iff)

text \<open>
  The two ends of the bearer scheme fit: the header that the control plane's clients write
  for a token is read back as exactly this token, for every non-empty token without outer
  white space; and what the reader returns is always such a token, so the header it would
  write again is read the same way.
\<close>

lemma bearer_roundtrip:
  "(BearerToken \<lparr>hreq_Authorization = ''Bearer '' @ t, hreq_PathValue = pv\<rparr> = Some t \<longleftrightarrow>
      untrimmed t \<and> t \<noteq> '''') \<and>
   (BearerToken r = Some t \<longrightarrow>
      BearerToken \<lparr>hreq_Authorization = ''Bearer '' @ t, hreq_PathValue = pv\<rparr> = Some t)"
proof -
  have "BearerToken \<lparr>hreq_Authorization = ''Bearer '' @ t, hreq_PathValue = pv\<rparr> = Some t \<longleftrightarrow>
      t = trim_space t \<and> t \<noteq> ''''"
    unfolding BearerToken_Some_iff by auto
  moreover have "t = trim_space t \<longleftrightarrow> untrimmed t"
    by (metis trim_space_untrimmed untrimmed_trim_space)
  ultimately show ?thesis using BearerToken_untrimmed by blast
qed


text \<open>A user as Supabase describes it.\<close>

definition demo_user_body :: "string \<Rightarrow> string \<Rightarrow> string" where
  "demo_user_body i e = json_text (JObject [(''id'', encode_string i), (''email'', encode_string e)])"

lemma read_demo_user:
  "read_user (demo_user_body i e) = Some \<lparr>sur_ID = coerce_utf8 i, sur_Email = coerce_utf8 e\<rparr>"
proof -
  let ?v = "JObject [(''id'', encode_string i), (''email'', encode_string e)]"
  have "json_fits maxNestingDepth ?v" by (simp add: fits_defs)
  from parse_json_text [OF this, of "[]"] have "read_value (json_text ?v) = Some ?v"
    by (simp add: read_value_def number_end_def)
  then show ?thesis by (simp add: read_user_def demo_user_body_def decode_body_def decode_defs user_fields_def)
qed

lemma demo_user_valid: "valid_utf8 ''u1''" "valid_utf8 ''u@x''"
  by (rule ascii_valid_utf8; simp)+

definition demo_supabase :: "out_request \<Rightarrow> error + supabase_response" where
  "demo_supabase req =
     (if (''Authorization'', ''Bearer good'') \<in> set (oreq_Header req)
      then Inr \<lparr>sresp_StatusCode = 200, sresp_Body = demo_user_body ''user'' ''u@x'', sresp_DecodeError = anon ''''\<rparr>
      else Inr \<lparr>sresp_StatusCode = 401, sresp_Body = '''', sresp_DecodeError = anon ''EOF''\<rparr>)"


definition demo_operator_request :: http_request where
  "demo_operator_request = \<lparr>hreq_Authorization = ''Bearer good'', hreq_PathValue = (\<lambda>_. ''d1'')\<rparr>"

definition demo_supabase_user :: "out_request \<Rightarrow> error + supabase_response" where
  "demo_supabase_user req =
     Inr \<lparr>sresp_StatusCode = 200, sresp_Body = demo_user_body ''u1'' ''u@x'', sresp_DecodeError = anon ''''\<rparr>"

lemma demo_bearer: "BearerToken demo_operator_request = Some ''good''"
proof -
  have "untrimmed ''good''" by (simp add: untrimmed_def strip_one_None space_seqs_def)
  then show ?thesis
    unfolding demo_operator_request_def by (subst BearerToken_Some_iff) (auto intro: exI [of _ "''good''"])
qed

lemma demo_authenticate:
  "Authenticate (\<lambda>_. None) demo_supabase_user (NewSupabaseAuthenticator ''https://p'' ''key'') tok =
     Inr \<lparr>usr_ID = ''u1'', usr_Email = ''u@x''\<rparr>"
  by (simp add: Authenticate_Inr_iff demo_supabase_user_def read_demo_user demo_user_valid)

end
