(* ===== verification/Devices.thy ===== *)
theory Devices
  imports Contracts "HOL-Library.Multiset"
begin

text \<open>
  Device registration, \<^verbatim>\<open>internal/devices\<close>: \<^verbatim>\<open>device.go\<close>, \<^verbatim>\<open>repository.go\<close>, \<^verbatim>\<open>postgres.go\<close> and
  \<^verbatim>\<open>service.go\<close>. The service is written against its two interfaces, so it takes the
  repository's operations and the token issuer as arguments; the Postgres repository runs
  its two statements against a table, a finite map from the device's identifier to its row.
  What belongs to Postgres and the network is an argument of each call (\<open>pg\<close>): the text form
  of a UUID, the users that exist, the clock, faults. \<^verbatim>\<open>uuid.Parse\<close> is an argument too.
\<close>

section \<open>device.go, repository.go\<close>

definition StatusRegistered :: string where
  "StatusRegistered = ''registered''"

record Device =
  dev_ID :: AgentID
  dev_UserID :: string
  dev_Hostname :: string
  dev_OperatingSystem :: string
  dev_Architecture :: string
  dev_CPUCores :: int
  dev_MemoryBytes :: "64 word"
  dev_DeployOSVersion :: string
  dev_Status :: string
  dev_CreatedAt :: Time
  dev_UpdatedAt :: Time

definition ErrOwnedByAnotherUser :: error where
  "ErrOwnedByAnotherUser = New ''devices.ErrOwnedByAnotherUser'' ''device is registered to another user''"

section \<open>postgres.go\<close>

text \<open>
  \<open>pg_uuid t\<close> is the text Postgres returns for a UUID it was given as \<open>t\<close>; \<open>pg_user\<close> says which
  users the referenced table holds; \<open>pg_reject\<close> is the error of a statement that violates a
  type or a constraint; \<open>pg_fault\<close> is a failure of the connection, with a flag that says
  whether the statement had taken effect before it.
\<close>

record pg =
  pg_uuid :: "string \<Rightarrow> string option"
  pg_user :: "string \<Rightarrow> bool"
  pg_now :: Time
  pg_reject :: error
  pg_fault :: "(error \<times> bool) option"

text \<open>What the code relies on of Postgres: the text of a UUID is not empty.\<close>

definition uuid_ok :: "pg \<Rightarrow> bool" where
  "uuid_ok p \<longleftrightarrow> (\<forall>t c. pg_uuid p t = Some c \<longrightarrow> c \<noteq> '''')"

type_synonym table = "(string, Device) fmap"

text \<open>The constraints of the table: \<^verbatim>\<open>integer\<close> and \<^verbatim>\<open>bigint\<close> columns and their checks.\<close>

definition row_ok :: "Device \<Rightarrow> bool" where
  "row_ok d \<longleftrightarrow> 0 < dev_CPUCores d \<and> dev_CPUCores d < 2 ^ 31 \<and>
     0 < uint (dev_MemoryBytes d) \<and> uint (dev_MemoryBytes d) < 2 ^ 63"

text \<open>The row the statement inserts, and the row an existing one becomes.\<close>

definition inserted_row :: "pg \<Rightarrow> string \<Rightarrow> string \<Rightarrow> Device \<Rightarrow> Device" where
  "inserted_row p i u device =
     device\<lparr>dev_ID := i, dev_UserID := u, dev_CreatedAt := pg_now p, dev_UpdatedAt := pg_now p\<rparr>"

definition updated_row :: "pg \<Rightarrow> Device \<Rightarrow> Device \<Rightarrow> Device" where
  "updated_row p old device =
     old\<lparr>dev_Hostname := dev_Hostname device, dev_OperatingSystem := dev_OperatingSystem device,
         dev_Architecture := dev_Architecture device, dev_CPUCores := dev_CPUCores device,
         dev_MemoryBytes := dev_MemoryBytes device, dev_DeployOSVersion := dev_DeployOSVersion device,
         dev_UpdatedAt := pg_now p\<rparr>"

text \<open>
  The upsert statement: its error, or the rows it returns, and the table after it.
\<close>

definition upsert_query :: "pg \<Rightarrow> table \<Rightarrow> Device \<Rightarrow> (error + Device list) \<times> table" where
  "upsert_query p tab device =
     (case (pg_uuid p (dev_ID device), pg_uuid p (dev_UserID device)) of
        (Some i, Some u) \<Rightarrow>
          (if \<not> row_ok device then (Inl (pg_reject p), tab)
           else (case fmlookup tab i of
             None \<Rightarrow>
               (if \<not> pg_user p u then (Inl (pg_reject p), tab)
                else (Inr [inserted_row p i u device], fmupd i (inserted_row p i u device) tab))
           | Some old \<Rightarrow>
               (if dev_UserID old \<noteq> u then (Inr [], tab)
                else (Inr [updated_row p old device], fmupd i (updated_row p old device) tab))))
      | _ \<Rightarrow> (Inl (pg_reject p), tab))"

definition Upsert :: "pg \<Rightarrow> table \<Rightarrow> Device \<Rightarrow> (error + Device) \<times> table" where
  "Upsert p tab device =
     (case upsert_query p tab device of (res, tab') \<Rightarrow>
        (case pg_fault p of
           Some (err, applied) \<Rightarrow>
             (Inl (Wrapf ''upserting device: '' err ''''), if applied then tab' else tab)
         | None \<Rightarrow>
             (case res of
                Inl err \<Rightarrow> (Inl (Wrapf ''upserting device: '' err ''''), tab')
              | Inr [] \<Rightarrow> (Inl ErrOwnedByAnotherUser, tab')
              | Inr (stored # _) \<Rightarrow> (Inr stored, tab'))))"

text \<open>
  \<^verbatim>\<open>ORDER BY created_at DESC\<close> leaves the order of equal times open: \<open>ks\<close> is the order in
  which the rows happen to be scanned.
\<close>

definition ListByUser :: "pg \<Rightarrow> AgentID list \<Rightarrow> table \<Rightarrow> string \<Rightarrow> error + Device list" where
  "ListByUser p ks tab userID =
     (case pg_fault p of
        Some (err, _) \<Rightarrow> Inl (Wrapf ''listing devices: '' err '''')
      | None \<Rightarrow>
          (case pg_uuid p userID of
             None \<Rightarrow> Inl (Wrapf ''listing devices: '' (pg_reject p) '''')
           | Some u \<Rightarrow>
               Inr (sort_key (\<lambda>d. - dev_CreatedAt d)
                      (filter (\<lambda>d. dev_UserID d = u) (map snd (range_pairs tab ks))))))"

section \<open>service.go\<close>

definition ErrInvalidInput :: error where
  "ErrInvalidInput = New ''devices.ErrInvalidInput'' ''invalid device registration input''"

record RegisterInput =
  in_DeviceID :: AgentID
  in_Hostname :: string
  in_OperatingSystem :: string
  in_Architecture :: string
  in_CPUCores :: int
  in_MemoryBytes :: "64 word"
  in_DeployOSVersion :: string

definition RegisterInput_Validate :: "(string \<Rightarrow> error option) \<Rightarrow> RegisterInput \<Rightarrow> error option" where
  "RegisterInput_Validate uuidParse i =
     (case AgentID_Validate (in_DeviceID i) of
        Some err \<Rightarrow> Some (Wrapf ''device_id: '' err '''')
      | None \<Rightarrow>
        (case uuidParse (in_DeviceID i) of
           Some err \<Rightarrow> Some (Wrapf ''device_id: must be a UUID: '' err '''')
         | None \<Rightarrow>
           if in_Hostname i = '''' then Some (anon ''hostname must not be empty'')
           else if in_OperatingSystem i = '''' then Some (anon ''operating_system must not be empty'')
           else if in_Architecture i = '''' then Some (anon ''architecture must not be empty'')
           else if in_CPUCores i \<le> 0 then Some (anon ''cpu_cores must be positive'')
           else if in_MemoryBytes i = 0 then Some (anon ''memory_bytes must be positive'')
           else if in_DeployOSVersion i = '''' then Some (anon ''deployos_version must not be empty'')
           else None))"

lemma RegisterInput_Validate_id: "RegisterInput_Validate uuidParse i = None \<Longrightarrow> in_DeviceID i \<noteq> ''''"
  by (simp add: RegisterInput_Validate_def AgentID_Validate_def split: if_splits)

record RegisterResult =
  rr_Device :: Device
  rr_Token :: string
  rr_ExpiresAt :: Time

definition invalid_input :: "string \<Rightarrow> error" where
  "invalid_input msg = Wrapf '''' ErrInvalidInput ('': '' @ msg)"

definition device_of_input :: "string \<Rightarrow> RegisterInput \<Rightarrow> Device" where
  "device_of_input userID i =
     \<lparr>dev_ID = in_DeviceID i, dev_UserID = userID, dev_Hostname = in_Hostname i,
      dev_OperatingSystem = in_OperatingSystem i, dev_Architecture = in_Architecture i,
      dev_CPUCores = in_CPUCores i, dev_MemoryBytes = in_MemoryBytes i,
      dev_DeployOSVersion = in_DeployOSVersion i, dev_Status = StatusRegistered,
      dev_CreatedAt = 0, dev_UpdatedAt = 0\<rparr>"

lemma device_of_input_sel [simp]:
  "dev_ID (device_of_input u i) = in_DeviceID i" "dev_UserID (device_of_input u i) = u"
  by (simp_all add: device_of_input_def)

text \<open>A \<^verbatim>\<open>TokenIssuer\<close> makes a token for a device, with the time it expires.\<close>

type_synonym TokenIssuer = "Device \<Rightarrow> error + (string \<times> Time)"

text \<open>The interface of the store, and the service with what it was built from; \<open>'db\<close> is the store's state.\<close>

record 'db devices_Repository =
  repo_Upsert :: "'db \<Rightarrow> Device \<Rightarrow> (error + Device) \<times> 'db"
  repo_ListByUser :: "'db \<Rightarrow> string \<Rightarrow> error + Device list"

record 'db devices_Service =
  dsv_repo :: "'db devices_Repository"
  dsv_tokens :: TokenIssuer

definition devices_NewService :: "'db devices_Repository \<Rightarrow> TokenIssuer \<Rightarrow> 'db devices_Service" where
  "devices_NewService repo tokens = \<lparr>dsv_repo = repo, dsv_tokens = tokens\<rparr>"

text \<open>The Postgres store: \<open>p\<close> is the database behind the pool, \<open>ks\<close> the order of its rows.\<close>

definition NewPostgresRepository :: "pg \<Rightarrow> AgentID list \<Rightarrow> table devices_Repository" where
  "NewPostgresRepository p ks = \<lparr>repo_Upsert = Upsert p, repo_ListByUser = ListByUser p ks\<rparr>"

definition Register ::
  "(string \<Rightarrow> error option) \<Rightarrow> ('db \<Rightarrow> Device \<Rightarrow> (error + Device) \<times> 'db) \<Rightarrow>
   TokenIssuer \<Rightarrow> 'db \<Rightarrow> string \<Rightarrow> RegisterInput \<Rightarrow>
   (error + RegisterResult) \<times> 'db" where
  "Register uuidParse upsert issue db userID i =
     (if userID = '''' then (Inl (invalid_input ''user id must not be empty''), db)
      else (case RegisterInput_Validate uuidParse i of
        Some err \<Rightarrow> (Inl (invalid_input (error_text err)), db)
      | None \<Rightarrow>
        (case upsert db (device_of_input userID i) of
           (Inl err, db') \<Rightarrow>
             (if errors_is err ErrOwnedByAnotherUser then (Inl err, db')
              else (Inl (Wrapf ''storing device: '' err ''''), db'))
         | (Inr stored, db') \<Rightarrow>
             (case issue stored of
                Inl err \<Rightarrow> (Inl (Wrapf ''issuing device token: '' err ''''), db')
              | Inr (token, expiresAt) \<Rightarrow>
                  (Inr \<lparr>rr_Device = stored, rr_Token = token, rr_ExpiresAt = expiresAt\<rparr>, db')))))"

definition Service_List ::
  "('db \<Rightarrow> string \<Rightarrow> error + Device list) \<Rightarrow> 'db \<Rightarrow> string \<Rightarrow> error + Device list" where
  "Service_List listByUser db userID =
     (if userID = '''' then Inl (invalid_input ''user id must not be empty'')
      else (case listByUser db userID of
        Inl err \<Rightarrow> Inl (Wrapf ''listing devices: '' err '''')
      | Inr devices \<Rightarrow> Inr devices))"

definition IsOwner ::
  "('db \<Rightarrow> string \<Rightarrow> error + Device list) \<Rightarrow> 'db \<Rightarrow> string \<Rightarrow> AgentID \<Rightarrow> error + bool" where
  "IsOwner listByUser db userID deviceID =
     (case Service_List listByUser db userID of
        Inl err \<Rightarrow> Inl err
      | Inr devices \<Rightarrow> Inr (\<exists>d \<in> set devices. dev_ID d = deviceID))"

section \<open>The repository's contract and its client\<close>

text \<open>
  What \<^verbatim>\<open>Repository\<close> promises: rows are filed under their identifier, a stored device keeps its
  owner for ever, an accepted device is stored under the stored form (\<open>canon\<close>) of its
  identifier and owner, a device of another owner is refused without a trace, other rows
  are left alone, and a listing holds exactly the owner's rows, most recent first.
\<close>

locale device_repository =
  fixes upsert :: "'db \<Rightarrow> Device \<Rightarrow> (error + Device) \<times> 'db"
    and list_by_user :: "AgentID list \<Rightarrow> 'db \<Rightarrow> string \<Rightarrow> error + Device list"
    and row :: "'db \<Rightarrow> AgentID \<Rightarrow> Device option"
    and canon :: "string \<Rightarrow> string"
    and inv :: "'db \<Rightarrow> bool"
    and scan :: "'db \<Rightarrow> AgentID list \<Rightarrow> bool"
  assumes row_key: "inv db \<Longrightarrow> row db i = Some r \<Longrightarrow> dev_ID r = i"
    and upsert_inv: "inv db \<Longrightarrow> inv (snd (upsert db d))"
    and upsert_keeps_owner: "row db i = Some r \<Longrightarrow>
      \<exists>r'. row (snd (upsert db d)) i = Some r' \<and> dev_UserID r' = dev_UserID r \<and>
           dev_CreatedAt r' = dev_CreatedAt r"
    and upsert_other: "i \<noteq> canon (dev_ID d) \<Longrightarrow> row (snd (upsert db d)) i = row db i"
    and upsert_stored: "inv db \<Longrightarrow> upsert db d = (Inr st, db') \<Longrightarrow>
      dev_ID st = canon (dev_ID d) \<and> dev_UserID st = canon (dev_UserID d) \<and> row db' (dev_ID st) = Some st"
    and upsert_foreign: "row db (canon (dev_ID d)) = Some r \<Longrightarrow> dev_UserID r \<noteq> canon (dev_UserID d) \<Longrightarrow>
      (\<exists>e. fst (upsert db d) = Inl e) \<and> snd (upsert db d) = db"
    and list_rows: "inv db \<Longrightarrow> scan db ks \<Longrightarrow> list_by_user ks db u = Inr ds \<Longrightarrow>
      set ds = {r. \<exists>i. row db i = Some r \<and> dev_UserID r = canon u} \<and> distinct (map dev_ID ds) \<and>
      sorted_wrt (\<lambda>a b. dev_CreatedAt b \<le> dev_CreatedAt a) ds"
begin

lemma Register_db:
  "snd (Register uuidParse upsert issue db u i) \<in> {db, snd (upsert db (device_of_input u i))}"
  by (auto simp: Register_def split: option.split prod.split sum.split)

lemma Register_inv: "inv db \<Longrightarrow> inv (snd (Register uuidParse upsert issue db u i))"
  using Register_db [of uuidParse issue db u i] upsert_inv by auto

lemma Register_keeps_owner:
  assumes "row db k = Some r"
  shows "\<exists>r'. row (snd (Register uuidParse upsert issue db u i)) k = Some r' \<and>
    dev_UserID r' = dev_UserID r \<and> dev_CreatedAt r' = dev_CreatedAt r"
  using Register_db [of uuidParse issue db u i] assms upsert_keeps_owner [OF assms] by auto

lemma Register_stored:
  assumes "inv db" and "Register uuidParse upsert issue db u i = (Inr res, db')"
  shows "u \<noteq> '''' \<and> RegisterInput_Validate uuidParse i = None \<and>
    upsert db (device_of_input u i) = (Inr (rr_Device res), db') \<and>
    issue (rr_Device res) = Inr (rr_Token res, rr_ExpiresAt res) \<and>
    dev_ID (rr_Device res) = canon (in_DeviceID i) \<and> dev_UserID (rr_Device res) = canon u \<and>
    row db' (canon (in_DeviceID i)) = Some (rr_Device res)"
proof -
  from assms(2) have *: "u \<noteq> ''''" "RegisterInput_Validate uuidParse i = None"
    "upsert db (device_of_input u i) = (Inr (rr_Device res), db')"
    "issue (rr_Device res) = Inr (rr_Token res, rr_ExpiresAt res)"
    by (auto simp: Register_def split: option.splits prod.splits sum.splits if_splits)
  with upsert_stored [OF assms(1) *(3)] show ?thesis by auto
qed

lemma Register_foreign:
  assumes "row db (canon (in_DeviceID i)) = Some r" and "dev_UserID r \<noteq> canon u"
  shows "(\<exists>e. fst (Register uuidParse upsert issue db u i) = Inl e) \<and>
    snd (Register uuidParse upsert issue db u i) = db"
proof -
  from upsert_foreign [of db "device_of_input u i" r] assms obtain e where
    "upsert db (device_of_input u i) = (Inl e, db)"
    by (metis device_of_input_sel prod.collapse)
  then show ?thesis by (simp add: Register_def split: option.split)
qed

lemma IsOwner_iff:
  assumes "inv db" and "scan db ks" and "IsOwner (list_by_user ks) db u k = Inr b"
  shows "b \<longleftrightarrow> (\<exists>r. row db k = Some r \<and> dev_UserID r = canon u)"
proof -
  from assms(3) obtain ds where ds: "list_by_user ks db u = Inr ds" "b \<longleftrightarrow> (\<exists>d \<in> set ds. dev_ID d = k)"
    by (auto simp: IsOwner_def Service_List_def split: if_splits sum.splits)
  with list_rows [OF assms(1,2) ds(1)] row_key [OF assms(1)] show ?thesis by auto
qed

end

section \<open>Postgres implements it\<close>

definition table_inv :: "table \<Rightarrow> bool" where
  "table_inv tab \<longleftrightarrow> (\<forall>i r. fmlookup tab i = Some r \<longrightarrow> dev_ID r = i \<and> row_ok r)"

definition pg_canon :: "pg \<Rightarrow> string \<Rightarrow> string" where
  "pg_canon p t = (case pg_uuid p t of Some c \<Rightarrow> c | None \<Rightarrow> t)"

text \<open>
  Every run of the statement ends in one of three ways: the table is unchanged and an error
  is returned, the new row is written, or the row is written and the answer is lost.
\<close>

definition written_row :: "pg \<Rightarrow> table \<Rightarrow> Device \<Rightarrow> Device option" where
  "written_row p tab d =
     (case (pg_uuid p (dev_ID d), pg_uuid p (dev_UserID d)) of
        (Some i, Some u) \<Rightarrow>
          (if \<not> row_ok d then None
           else (case fmlookup tab i of
             None \<Rightarrow> if pg_user p u then Some (inserted_row p i u d) else None
           | Some old \<Rightarrow> if dev_UserID old = u then Some (updated_row p old d) else None))
      | _ \<Rightarrow> None)"

lemma upsert_query_unchanged:
  "written_row p tab d = None \<Longrightarrow>
     upsert_query p tab d = (Inl (pg_reject p), tab) \<or> upsert_query p tab d = (Inr [], tab)"
  by (auto simp: upsert_query_def written_row_def split: option.splits if_splits)

lemma upsert_query_written:
  assumes "written_row p tab d = Some r"
  shows "upsert_query p tab d = (Inr [r], fmupd (pg_canon p (dev_ID d)) r tab)"
proof -
  from assms obtain i u where u: "pg_uuid p (dev_ID d) = Some i" "pg_uuid p (dev_UserID d) = Some u"
    by (auto simp: written_row_def split: option.splits)
  with assms show ?thesis
    by (cases "fmlookup tab i")
       (simp_all add: upsert_query_def written_row_def pg_canon_def split: if_splits)
qed

lemma pg_canon_nonempty: "uuid_ok p \<Longrightarrow> t \<noteq> '''' \<Longrightarrow> pg_canon p t \<noteq> ''''"
  by (auto simp: uuid_ok_def pg_canon_def split: option.split)

lemma Upsert_unchanged: "written_row p tab d = None \<Longrightarrow> \<exists>e. Upsert p tab d = (Inl e, tab)"
  using upsert_query_unchanged [of p tab d] by (auto simp: Upsert_def split: option.split)

lemma Upsert_written:
  "written_row p tab d = Some r \<Longrightarrow>
     Upsert p tab d =
       (case pg_fault p of
          None \<Rightarrow> (Inr r, fmupd (pg_canon p (dev_ID d)) r tab)
        | Some (e, applied) \<Rightarrow>
            (Inl (Wrapf ''upserting device: '' e ''''),
             if applied then fmupd (pg_canon p (dev_ID d)) r tab else tab))"
  by (simp add: Upsert_def upsert_query_written split: option.split)

lemma Upsert_table:
  "snd (Upsert p tab d) = tab \<or>
   (\<exists>r. written_row p tab d = Some r \<and> snd (Upsert p tab d) = fmupd (pg_canon p (dev_ID d)) r tab)"
proof (cases "written_row p tab d")
  case None
  with Upsert_unchanged show ?thesis by (metis snd_conv)
next
  case (Some r)
  then show ?thesis by (simp add: Upsert_written split: option.split)
qed

lemma written_row_sel:
  assumes "table_inv tab" and "written_row p tab d = Some r"
  shows "dev_ID r = pg_canon p (dev_ID d)" "dev_UserID r = pg_canon p (dev_UserID d)" "row_ok r"
  using assms
  by (auto simp: written_row_def table_inv_def pg_canon_def inserted_row_def updated_row_def row_ok_def
      split: option.splits if_splits)

lemma written_row_existing:
  assumes "written_row p tab d = Some r" and "fmlookup tab (pg_canon p (dev_ID d)) = Some old"
  shows "dev_UserID old = pg_canon p (dev_UserID d)" "r = updated_row p old d"
  using assms by (auto simp: written_row_def pg_canon_def split: option.splits if_splits)

lemma sorted_wrt_created: "sorted_wrt (\<lambda>a b. dev_CreatedAt b \<le> dev_CreatedAt a) (sort_key (\<lambda>d. - dev_CreatedAt d) ds)"
proof -
  have "sorted (map (\<lambda>d. - dev_CreatedAt d) (sort_key (\<lambda>d. - dev_CreatedAt d) ds))"
    by (rule sorted_sort_key)
  then show ?thesis by (simp add: sorted_wrt_map)
qed

lemma distinct_map_sort_key: "distinct (map f (sort_key g xs)) \<longleftrightarrow> distinct (map f xs)"
proof -
  have "mset (map f (sort_key g xs)) = mset (map f xs)" by simp
  then show ?thesis by (metis mset_eq_imp_distinct_iff)
qed

text \<open>What the statements do, in the terms of the interface below.\<close>

lemma Upsert_keeps_inv:
  assumes inv: "table_inv db"
  shows "table_inv (snd (Upsert p db d))"
  using Upsert_table [of p db d]
proof (elim disjE exE conjE)
  fix r
  assume w: "written_row p db d = Some r"
    and t: "snd (Upsert p db d) = fmupd (pg_canon p (dev_ID d)) r db"
  from inv written_row_sel [OF inv w] show ?thesis unfolding t by (simp add: table_inv_def)
qed (simp add: inv)

lemma Upsert_keeps_owner:
  assumes r: "fmlookup db i = Some r"
  shows "\<exists>r'. fmlookup (snd (Upsert p db d)) i = Some r' \<and> dev_UserID r' = dev_UserID r \<and>
    dev_CreatedAt r' = dev_CreatedAt r"
  using Upsert_table [of p db d]
proof (elim disjE exE conjE)
  fix w
  assume w: "written_row p db d = Some w"
    and t: "snd (Upsert p db d) = fmupd (pg_canon p (dev_ID d)) w db"
  have "w = updated_row p r d" if "i = pg_canon p (dev_ID d)"
    using written_row_existing(2) [OF w] r that by simp
  with r show ?thesis unfolding t by (simp add: updated_row_def)
qed (simp add: r)

lemma Upsert_stored:
  assumes inv: "table_inv db" and u: "Upsert p db d = (Inr st, db')"
  shows "dev_ID st = pg_canon p (dev_ID d) \<and> dev_UserID st = pg_canon p (dev_UserID d) \<and>
    fmlookup db' (dev_ID st) = Some st"
proof -
  obtain r where w: "written_row p db d = Some r"
    using Upsert_unchanged [of p db d] u by (cases "written_row p db d") auto
  from Upsert_written [OF w] u have "st = r" "db' = fmupd (pg_canon p (dev_ID d)) r db"
    by (simp_all split: option.splits prod.splits if_splits)
  with written_row_sel(1,2) [OF inv w] show ?thesis by simp
qed

lemma Upsert_refused:
  assumes "fmlookup db (pg_canon p (dev_ID d)) = Some r" and "dev_UserID r \<noteq> pg_canon p (dev_UserID d)"
  shows "(\<exists>e. fst (Upsert p db d) = Inl e) \<and> snd (Upsert p db d) = db"
proof -
  from assms have "written_row p db d = None"
    by (cases "written_row p db d") (auto dest: written_row_existing(1))
  from Upsert_unchanged [OF this] show ?thesis by auto
qed

lemma ListByUser_rows:
  assumes inv: "table_inv db" and ks: "range_order db ks" and l: "ListByUser p ks db u = Inr ds"
  shows "set ds = {r. \<exists>i. fmlookup db i = Some r \<and> dev_UserID r = pg_canon p u} \<and>
    distinct (map dev_ID ds) \<and> sorted_wrt (\<lambda>a b. dev_CreatedAt b \<le> dev_CreatedAt a) ds"
proof -
  let ?rows = "filter (\<lambda>d. dev_UserID d = pg_canon p u) (map snd (range_pairs db ks))"
  from l have ds: "ds = sort_key (\<lambda>d. - dev_CreatedAt d) ?rows"
    by (auto simp: ListByUser_def pg_canon_def split: option.splits)
  have "map dev_ID (map snd (range_pairs db ks)) = ks"
    using inv ks by (auto simp: table_inv_def range_pairs_def o_def range_order_mem intro!: map_idI)
  then have "distinct (map dev_ID ?rows)"
    using ks distinct_map_filter unfolding range_order_def by metis
  moreover have "set ?rows = {r. \<exists>i. fmlookup db i = Some r \<and> dev_UserID r = pg_canon p u}"
    using range_pairs_mem [OF ks] by force
  ultimately show ?thesis unfolding ds by (simp add: sorted_wrt_created distinct_map_sort_key)
qed

interpretation postgres: device_repository "Upsert p" "ListByUser p" fmlookup "pg_canon p" table_inv range_order
  for p
proof unfold_locales
  fix db :: table and i r
  assume "table_inv db" and "fmlookup db i = Some r"
  then show "dev_ID r = i" by (simp add: table_inv_def)
next
  fix i and d :: Device and db :: table
  assume "i \<noteq> pg_canon p (dev_ID d)"
  then show "fmlookup (snd (Upsert p db d)) i = fmlookup db i"
    using Upsert_table [of p db d] by auto
qed (fact Upsert_keeps_inv Upsert_keeps_owner Upsert_stored Upsert_refused ListByUser_rows)+

section \<open>What registration guarantees\<close>

text \<open>One call of \<^verbatim>\<open>Register\<close> with its circumstances, and its effect on the table.\<close>

record reg_call =
  rc_pg :: pg
  rc_issue :: "Device \<Rightarrow> error + (string \<times> Time)"
  rc_user :: string
  rc_input :: RegisterInput

definition do_register :: "(string \<Rightarrow> error option) \<Rightarrow> reg_call \<Rightarrow> table \<Rightarrow> table" where
  "do_register uuidParse c tab =
     snd (Register uuidParse (Upsert (rc_pg c)) (rc_issue c) tab (rc_user c) (rc_input c))"

text \<open>
  \<^bold>\<open>C9.\<close> Ownership is never reassigned: whatever registrations follow, by whatever users, with
  whatever inputs, failures of the database or of the token issuer, a stored device keeps
  its owner and its creation time, and the table stays well formed (every row under its own
  identifier and within the table's constraints).
\<close>

theorem ownership_never_reassigned:
  assumes "table_inv tab" and "fmlookup tab k = Some r"
  shows "table_inv (fold (do_register uuidParse) cs tab) \<and>
    (\<exists>r'. fmlookup (fold (do_register uuidParse) cs tab) k = Some r' \<and>
      dev_UserID r' = dev_UserID r \<and> dev_CreatedAt r' = dev_CreatedAt r)"
  using assms
proof (induction cs arbitrary: tab r)
  case (Cons c cs)
  have "table_inv (do_register uuidParse c tab)"
    unfolding do_register_def by (rule postgres.Register_inv [OF Cons.prems(1)])
  moreover obtain r1 where "fmlookup (do_register uuidParse c tab) k = Some r1"
    "dev_UserID r1 = dev_UserID r" "dev_CreatedAt r1 = dev_CreatedAt r"
    unfolding do_register_def using postgres.Register_keeps_owner [OF Cons.prems(2)] by blast
  ultimately show ?case using Cons.IH [of "do_register uuidParse c tab" r1] by simp
qed simp

text \<open>
  Registration decides ownership: after a successful registration the device is stored
  under its identifier for the calling user, and an ownership check that gets an answer says
  yes for this user and no for every other one.
\<close>

lemma registered_device_is_owned:
  assumes "table_inv tab" and "Register uuidParse (Upsert p) issue tab u i = (Inr res, tab')"
    and "range_order tab' ks" and "pg_uuid p' = pg_uuid p"
    and "IsOwner (ListByUser p' ks) tab' u' (dev_ID (rr_Device res)) = Inr b"
  shows "fmlookup tab' (dev_ID (rr_Device res)) = Some (rr_Device res) \<and>
    dev_UserID (rr_Device res) = pg_canon p u \<and> (b \<longleftrightarrow> pg_canon p u' = pg_canon p u)"
proof -
  note st = postgres.Register_stored [OF assms(1,2)]
  from assms(4) have canon: "pg_canon p' = pg_canon p" by (simp add: pg_canon_def fun_eq_iff)
  from postgres.Register_inv [OF assms(1), of uuidParse p issue u i] assms(2) have "table_inv tab'" by simp
  from postgres.IsOwner_iff [OF this assms(3,5)] st show ?thesis by (auto simp: canon)
qed

lemma registered_unchanged:
  assumes "upsert db (device_of_input u i) = (Inl ErrOwnedByAnotherUser, db)"
    and "u \<noteq> ''''" and "RegisterInput_Validate uuidParse i = None"
  shows "Register uuidParse upsert issue db u i = (Inl ErrOwnedByAnotherUser, db)"
  using assms by (simp add: Register_def)

lemma Upsert_foreign:
  assumes "pg_fault p = None" and "row_ok d" and "pg_uuid p (dev_ID d) = Some k"
    and "pg_uuid p (dev_UserID d) = Some w" and "fmlookup tab k = Some r" and "dev_UserID r \<noteq> w"
  shows "Upsert p tab d = (Inl ErrOwnedByAnotherUser, tab)"
  using assms by (simp add: Upsert_def upsert_query_def)

text \<open>
  The refusals of \<^verbatim>\<open>Register\<close> leave no trace: without a user, or with an input that fails
  validation, the error is \<^verbatim>\<open>ErrInvalidInput\<close>; for a device that another user owns it is
  \<^verbatim>\<open>ErrOwnedByAnotherUser\<close>; in each case the table is the one before the call.
\<close>

lemma register_refusals:
  "(u = '''' \<or> RegisterInput_Validate uuidParse i \<noteq> None \<longrightarrow>
      (\<exists>e. Register uuidParse (Upsert p) issue tab u i = (Inl e, tab) \<and> errors_is e ErrInvalidInput)) \<and>
   (u \<noteq> '''' \<and> RegisterInput_Validate uuidParse i = None \<and> pg_fault p = None \<and>
      row_ok (device_of_input u i) \<and> pg_uuid p (in_DeviceID i) = Some k \<and> pg_uuid p u = Some w \<and>
      fmlookup tab k = Some r \<and> dev_UserID r \<noteq> w \<longrightarrow>
      Register uuidParse (Upsert p) issue tab u i = (Inl ErrOwnedByAnotherUser, tab))"
proof (intro conjI impI)
  assume "u = '''' \<or> RegisterInput_Validate uuidParse i \<noteq> None"
  then show "\<exists>e. Register uuidParse (Upsert p) issue tab u i = (Inl e, tab) \<and> errors_is e ErrInvalidInput"
    by (auto simp: Register_def invalid_input_def)
next
  assume a: "u \<noteq> '''' \<and> RegisterInput_Validate uuidParse i = None \<and> pg_fault p = None \<and>
      row_ok (device_of_input u i) \<and> pg_uuid p (in_DeviceID i) = Some k \<and> pg_uuid p u = Some w \<and>
      fmlookup tab k = Some r \<and> dev_UserID r \<noteq> w"
  then have "Upsert p tab (device_of_input u i) = (Inl ErrOwnedByAnotherUser, tab)"
    by (intro Upsert_foreign [of p _ k w tab r]) simp_all
  with a show "Register uuidParse (Upsert p) issue tab u i = (Inl ErrOwnedByAnotherUser, tab)"
    by (intro registered_unchanged) simp_all
qed

lemma Upsert_Inr_written:
  "Upsert p tab d = (Inr r, tab') \<Longrightarrow>
     written_row p tab d = Some r \<and> tab' = fmupd (pg_canon p (dev_ID d)) r tab"
proof (cases "written_row p tab d")
  case None
  from Upsert_unchanged [OF this] show "Upsert p tab d = (Inr r, tab') \<Longrightarrow> ?thesis" by auto
next
  case (Some w)
  from Upsert_written [OF this] Some show "Upsert p tab d = (Inr r, tab') \<Longrightarrow> ?thesis"
    by (auto split: option.splits prod.splits if_splits)
qed

text \<open>
  Registering a device again is idempotent: when a registration has succeeded, the same
  one repeated later on the resulting table writes exactly the same row but for its
  update time (the creation time and the owner stay), provided the database answers.
\<close>

lemma upsert_idempotent:
  assumes "table_inv tab" and "Upsert p tab d = (Inr r, tab')"
    and "pg_uuid p' = pg_uuid p" and "pg_fault p' = None"
  shows "Upsert p' tab' d =
    (Inr (r\<lparr>dev_UpdatedAt := pg_now p'\<rparr>),
     fmupd (pg_canon p (dev_ID d)) (r\<lparr>dev_UpdatedAt := pg_now p'\<rparr>) tab')"
proof -
  from Upsert_Inr_written [OF assms(2)] have w: "written_row p tab d = Some r"
    and t: "tab' = fmupd (pg_canon p (dev_ID d)) r tab" by simp_all
  from w obtain k u where k: "pg_uuid p (dev_ID d) = Some k" "pg_uuid p (dev_UserID d) = Some u" "row_ok d"
    by (auto simp: written_row_def split: option.splits if_splits)
  from written_row_sel(2) [OF assms(1) w] k have u: "dev_UserID r = u" by (simp add: pg_canon_def)
  have "updated_row p' r d = r\<lparr>dev_UpdatedAt := pg_now p'\<rparr>"
    using w k by (cases "fmlookup tab k")
      (auto simp: written_row_def updated_row_def inserted_row_def split: if_splits)
  with k u have "written_row p' tab' d = Some (r\<lparr>dev_UpdatedAt := pg_now p'\<rparr>)"
    by (simp add: written_row_def assms(3) t pg_canon_def)
  from Upsert_written [OF this] show ?thesis by (simp add: assms(3,4) pg_canon_def)
qed

text \<open>
  A listing is the user's devices and nothing else: when \<^verbatim>\<open>List\<close> succeeds, it holds exactly
  the stored devices of the user, each once, most recently created first.
\<close>

lemma list_is_exact:
  assumes "table_inv tab" and "range_order tab ks" and "Service_List (ListByUser p ks) tab u = Inr ds"
  shows "set ds = {r. \<exists>i. fmlookup tab i = Some r \<and> dev_UserID r = pg_canon p u} \<and>
    distinct (map dev_ID ds) \<and> sorted_wrt (\<lambda>a b. dev_CreatedAt b \<le> dev_CreatedAt a) ds"
proof -
  from assms(3) have "ListByUser p ks tab u = Inr ds"
    by (auto simp: Service_List_def split: if_splits sum.splits)
  with assms(1,2) show ?thesis by (rule postgres.list_rows)
qed

text \<open>
  Validation accepts exactly the complete inputs: a device identifier that parses as a
  UUID, and a hostname, operating system, architecture and version that are not empty, with
  at least one core and some memory.
\<close>

lemma register_input_valid_iff:
  "RegisterInput_Validate uuidParse i = None \<longleftrightarrow>
     in_DeviceID i \<noteq> '''' \<and> uuidParse (in_DeviceID i) = None \<and> in_Hostname i \<noteq> '''' \<and>
     in_OperatingSystem i \<noteq> '''' \<and> in_Architecture i \<noteq> '''' \<and> 0 < in_CPUCores i \<and>
     0 < uint (in_MemoryBytes i) \<and> in_DeployOSVersion i \<noteq> ''''"
proof -
  have "0 < uint x \<longleftrightarrow> x \<noteq> 0" for x :: "64 word"
    unfolding word_uint_eq_iff by (auto simp: order_less_le)
  then show ?thesis
    by (auto simp: RegisterInput_Validate_def AgentID_Validate_def split: option.splits)
qed

section \<open>A concrete registration\<close>

definition demo_pg :: "Time \<Rightarrow> pg" where
  "demo_pg now = \<lparr>pg_uuid = Some, pg_user = (\<lambda>_. True), pg_now = now, pg_reject = anon ''constraint'',
     pg_fault = None\<rparr>"

definition demo_input :: RegisterInput where
  "demo_input = \<lparr>in_DeviceID = ''d1'', in_Hostname = ''host'', in_OperatingSystem = ''linux'',
     in_Architecture = ''amd64'', in_CPUCores = 8, in_MemoryBytes = 1024, in_DeployOSVersion = ''dev''\<rparr>"

definition demo_issue :: "Device \<Rightarrow> error + (string \<times> Time)" where
  "demo_issue d = Inr (''tok'', 99)"

definition demo_row :: Device where
  "demo_row = inserted_row (demo_pg 5) ''d1'' ''u1'' (device_of_input ''u1'' demo_input)"

definition demo_table :: table where
  "demo_table = fmupd ''d1'' demo_row fmempty"

lemma demo_pg_sel [simp]:
  "pg_uuid (demo_pg n) = Some" "pg_user (demo_pg n) u" "pg_now (demo_pg n) = n"
  "pg_fault (demo_pg n) = None"
  by (simp_all add: demo_pg_def)

lemma demo_row_ok: "row_ok (device_of_input u demo_input)"
  by (simp add: row_ok_def device_of_input_def demo_input_def)

lemma demo_valid: "RegisterInput_Validate (\<lambda>_. None) demo_input = None"
  by (simp add: RegisterInput_Validate_def AgentID_Validate_def demo_input_def)

lemma demo_input_id: "in_DeviceID demo_input = ''d1''"
  by (simp add: demo_input_def)

lemma demo_upsert: "Upsert (demo_pg 5) fmempty (device_of_input ''u1'' demo_input) = (Inr demo_row, demo_table)"
  by (simp add: Upsert_def upsert_query_def demo_row_ok demo_input_id demo_row_def demo_table_def)

lemma demo_row_sel [simp]: "dev_ID demo_row = ''d1''" "dev_UserID demo_row = ''u1''" "dev_CreatedAt demo_row = 5"
  by (simp_all add: demo_row_def inserted_row_def)

lemma demo_table_inv: "table_inv demo_table"
  by (simp add: table_inv_def demo_table_def row_ok_def demo_row_def inserted_row_def device_of_input_def
      demo_input_def)

lemma table_inv_empty [simp]: "table_inv fmempty"
  by (simp add: table_inv_def)

lemma demo_register:
  "Register (\<lambda>_. None) (Upsert (demo_pg 5)) demo_issue fmempty ''u1'' demo_input =
     (Inr \<lparr>rr_Device = demo_row, rr_Token = ''tok'', rr_ExpiresAt = 99\<rparr>, demo_table)"
  by (simp add: Register_def demo_valid demo_upsert demo_issue_def)

lemma demo_scan: "range_order demo_table [''d1'']"
  by (simp add: range_order_def demo_table_def)

lemma demo_list: "Service_List (ListByUser (demo_pg 7) [''d1'']) demo_table u =
    (if u = '''' then Inl (invalid_input ''user id must not be empty'')
     else Inr (if u = ''u1'' then [demo_row] else []))"
  by (simp add: Service_List_def ListByUser_def range_pairs_def demo_table_def)

theorem ownership_never_reassigned_witness:
  "\<exists>r'. fmlookup (fold (do_register (\<lambda>_. None))
       [\<lparr>rc_pg = demo_pg 6, rc_issue = demo_issue, rc_user = ''u2'', rc_input = demo_input\<rparr>] demo_table) ''d1'' =
     Some r' \<and> dev_UserID r' = ''u1'' \<and> dev_CreatedAt r' = 5"
proof -
  have "fmlookup demo_table ''d1'' = Some demo_row" by (simp add: demo_table_def)
  from ownership_never_reassigned [OF demo_table_inv this] show ?thesis unfolding demo_row_sel by blast
qed

end
