(* ===== verification/Proto.thy ===== *)
theory Proto
  imports Prelude
begin

text \<open>
  The protocol messages of \<^verbatim>\<open>gen/go/deployos/v1\<close>, generated from \<^verbatim>\<open>proto/deployos/v1\<close>: one
  record per message with the fields the messages declare (the bookkeeping fields of the
  protobuf runtime are left out), a pointer as an \<^verbatim>\<open>option\<close>, and the getters, which accept a
  nil receiver. The lemmas say that an envelope carries exactly one kind of payload.
\<close>

section \<open>common.pb.go\<close>

datatype pb_Status = STATUS_UNKNOWN | STATUS_ONLINE | STATUS_OFFLINE

record pb_Device =
  pbd_Id :: string
  pbd_Hostname :: string
  pbd_OperatingSystem :: string
  pbd_Architecture :: string
  pbd_DeployosVersion :: string

definition Device_GetId :: "pb_Device option \<Rightarrow> string" where
  "Device_GetId x = (case x of Some d \<Rightarrow> pbd_Id d | None \<Rightarrow> '''')"

definition Device_GetHostname :: "pb_Device option \<Rightarrow> string" where
  "Device_GetHostname x = (case x of Some d \<Rightarrow> pbd_Hostname d | None \<Rightarrow> '''')"

definition Device_GetOperatingSystem :: "pb_Device option \<Rightarrow> string" where
  "Device_GetOperatingSystem x = (case x of Some d \<Rightarrow> pbd_OperatingSystem d | None \<Rightarrow> '''')"

definition Device_GetArchitecture :: "pb_Device option \<Rightarrow> string" where
  "Device_GetArchitecture x = (case x of Some d \<Rightarrow> pbd_Architecture d | None \<Rightarrow> '''')"

definition Device_GetDeployosVersion :: "pb_Device option \<Rightarrow> string" where
  "Device_GetDeployosVersion x = (case x of Some d \<Rightarrow> pbd_DeployosVersion d | None \<Rightarrow> '''')"

record pb_Connection =
  pbc_DeviceToken :: string
  pbc_ProtocolVersion :: string

definition Connection_GetDeviceToken :: "pb_Connection option \<Rightarrow> string" where
  "Connection_GetDeviceToken x = (case x of Some c \<Rightarrow> pbc_DeviceToken c | None \<Rightarrow> '''')"

definition Connection_GetProtocolVersion :: "pb_Connection option \<Rightarrow> string" where
  "Connection_GetProtocolVersion x = (case x of Some c \<Rightarrow> pbc_ProtocolVersion c | None \<Rightarrow> '''')"

record Metadata =
  md_Entries :: "(string, string) fmap"

definition Metadata_GetEntries :: "Metadata option \<Rightarrow> (string, string) fmap" where
  "Metadata_GetEntries x = (case x of Some m \<Rightarrow> md_Entries m | None \<Rightarrow> fmempty)"

section \<open>command.pb.go\<close>

record Command =
  cmd_Id :: string
  cmd_Kind :: string
  cmd_Arguments :: "Metadata option"

definition Command_GetId :: "Command option \<Rightarrow> string" where
  "Command_GetId x = (case x of Some c \<Rightarrow> cmd_Id c | None \<Rightarrow> '''')"

definition Command_GetKind :: "Command option \<Rightarrow> string" where
  "Command_GetKind x = (case x of Some c \<Rightarrow> cmd_Kind c | None \<Rightarrow> '''')"

definition Command_GetArguments :: "Command option \<Rightarrow> Metadata option" where
  "Command_GetArguments x = (case x of Some c \<Rightarrow> cmd_Arguments c | None \<Rightarrow> None)"

record CommandResult =
  res_CommandId :: string
  res_Success :: bool
  res_Message :: string
  res_Details :: "Metadata option"

definition CommandResult_GetCommandId :: "CommandResult option \<Rightarrow> string" where
  "CommandResult_GetCommandId x = (case x of Some r \<Rightarrow> res_CommandId r | None \<Rightarrow> '''')"

definition CommandResult_GetSuccess :: "CommandResult option \<Rightarrow> bool" where
  "CommandResult_GetSuccess x = (case x of Some r \<Rightarrow> res_Success r | None \<Rightarrow> False)"

definition CommandResult_GetMessage :: "CommandResult option \<Rightarrow> string" where
  "CommandResult_GetMessage x = (case x of Some r \<Rightarrow> res_Message r | None \<Rightarrow> '''')"

definition CommandResult_GetDetails :: "CommandResult option \<Rightarrow> Metadata option" where
  "CommandResult_GetDetails x = (case x of Some r \<Rightarrow> res_Details r | None \<Rightarrow> None)"

section \<open>agent.pb.go\<close>

record GetAgentStatusRequest =
  gasr_DeviceId :: string

definition GetAgentStatusRequest_GetDeviceId :: "GetAgentStatusRequest option \<Rightarrow> string" where
  "GetAgentStatusRequest_GetDeviceId x = (case x of Some r \<Rightarrow> gasr_DeviceId r | None \<Rightarrow> '''')"

record GetAgentStatusResponse =
  gas_Device :: "pb_Device option"
  gas_Status :: pb_Status
  gas_Metadata :: "Metadata option"

definition GetAgentStatusResponse_GetDevice :: "GetAgentStatusResponse option \<Rightarrow> pb_Device option" where
  "GetAgentStatusResponse_GetDevice x = (case x of Some r \<Rightarrow> gas_Device r | None \<Rightarrow> None)"

definition GetAgentStatusResponse_GetStatus :: "GetAgentStatusResponse option \<Rightarrow> pb_Status" where
  "GetAgentStatusResponse_GetStatus x = (case x of Some r \<Rightarrow> gas_Status r | None \<Rightarrow> STATUS_UNKNOWN)"

definition GetAgentStatusResponse_GetMetadata :: "GetAgentStatusResponse option \<Rightarrow> Metadata option" where
  "GetAgentStatusResponse_GetMetadata x = (case x of Some r \<Rightarrow> gas_Metadata r | None \<Rightarrow> None)"

section \<open>connection.pb.go\<close>

record AuthenticateRequest =
  areq_Connection :: "pb_Connection option"
  areq_Device :: "pb_Device option"

definition AuthenticateRequest_GetConnection :: "AuthenticateRequest option \<Rightarrow> pb_Connection option" where
  "AuthenticateRequest_GetConnection x = (case x of Some r \<Rightarrow> areq_Connection r | None \<Rightarrow> None)"

definition AuthenticateRequest_GetDevice :: "AuthenticateRequest option \<Rightarrow> pb_Device option" where
  "AuthenticateRequest_GetDevice x = (case x of Some r \<Rightarrow> areq_Device r | None \<Rightarrow> None)"

record AuthenticateResponse =
  aresp_Authenticated :: bool
  aresp_SessionId :: string
  aresp_Error :: string

definition AuthenticateResponse_GetAuthenticated :: "AuthenticateResponse option \<Rightarrow> bool" where
  "AuthenticateResponse_GetAuthenticated x = (case x of Some r \<Rightarrow> aresp_Authenticated r | None \<Rightarrow> False)"

definition AuthenticateResponse_GetSessionId :: "AuthenticateResponse option \<Rightarrow> string" where
  "AuthenticateResponse_GetSessionId x = (case x of Some r \<Rightarrow> aresp_SessionId r | None \<Rightarrow> '''')"

definition AuthenticateResponse_GetError :: "AuthenticateResponse option \<Rightarrow> string" where
  "AuthenticateResponse_GetError x = (case x of Some r \<Rightarrow> aresp_Error r | None \<Rightarrow> '''')"

text \<open>The \<^verbatim>\<open>oneof\<close>: each wrapper holds a pointer, which the sender may have left nil.\<close>

datatype Payload =
    Payload_AuthenticateRequest "AuthenticateRequest option"
  | Payload_AuthenticateResponse "AuthenticateResponse option"
  | Payload_CommandRequest "Command option"
  | Payload_CommandResponse "CommandResult option"

record ConnectionEnvelope =
  env_Payload :: "Payload option"

definition GetPayload :: "ConnectionEnvelope option \<Rightarrow> Payload option" where
  "GetPayload x = (case x of Some e \<Rightarrow> env_Payload e | None \<Rightarrow> None)"

definition GetAuthenticateRequest :: "ConnectionEnvelope option \<Rightarrow> AuthenticateRequest option" where
  "GetAuthenticateRequest x =
     (case GetPayload x of Some (Payload_AuthenticateRequest r) \<Rightarrow> r | _ \<Rightarrow> None)"

definition GetAuthenticateResponse :: "ConnectionEnvelope option \<Rightarrow> AuthenticateResponse option" where
  "GetAuthenticateResponse x =
     (case GetPayload x of Some (Payload_AuthenticateResponse r) \<Rightarrow> r | _ \<Rightarrow> None)"

definition GetCommandRequest :: "ConnectionEnvelope option \<Rightarrow> Command option" where
  "GetCommandRequest x =
     (case GetPayload x of Some (Payload_CommandRequest r) \<Rightarrow> r | _ \<Rightarrow> None)"

definition GetCommandResponse :: "ConnectionEnvelope option \<Rightarrow> CommandResult option" where
  "GetCommandResponse x =
     (case GetPayload x of Some (Payload_CommandResponse r) \<Rightarrow> r | _ \<Rightarrow> None)"

text \<open>Envelopes as the program builds them.\<close>

abbreviation envelope :: "Payload \<Rightarrow> ConnectionEnvelope" where
  "envelope p \<equiv> \<lparr>env_Payload = Some p\<rparr>"

lemmas getter_defs [go_defs] =
  Device_GetId_def Device_GetHostname_def Device_GetOperatingSystem_def
  Device_GetArchitecture_def Device_GetDeployosVersion_def
  Connection_GetDeviceToken_def Connection_GetProtocolVersion_def Metadata_GetEntries_def
  Command_GetId_def Command_GetKind_def Command_GetArguments_def
  CommandResult_GetCommandId_def CommandResult_GetSuccess_def CommandResult_GetMessage_def
  CommandResult_GetDetails_def
  AuthenticateRequest_GetConnection_def AuthenticateRequest_GetDevice_def
  AuthenticateResponse_GetAuthenticated_def AuthenticateResponse_GetSessionId_def
  AuthenticateResponse_GetError_def

lemmas payload_defs [go_defs] =
  GetPayload_def GetAuthenticateRequest_def GetAuthenticateResponse_def
  GetCommandRequest_def GetCommandResponse_def

text \<open>At most one getter of an envelope finds its payload.\<close>

lemma GetCommandResponse_SomeD:
  "GetCommandResponse e = Some r \<Longrightarrow>
     GetAuthenticateRequest e = None \<and> GetAuthenticateResponse e = None \<and> GetCommandRequest e = None"
  by (auto simp: payload_defs split: option.splits Payload.splits)

lemma GetCommandRequest_SomeD:
  "GetCommandRequest e = Some c \<Longrightarrow>
     GetAuthenticateRequest e = None \<and> GetAuthenticateResponse e = None \<and> GetCommandResponse e = None"
  by (auto simp: payload_defs split: option.splits Payload.splits)

lemma getters_of_envelope [simp]:
  "GetAuthenticateRequest (Some (envelope (Payload_AuthenticateRequest a))) = a"
  "GetAuthenticateResponse (Some (envelope (Payload_AuthenticateResponse b))) = b"
  "GetAuthenticateResponse (Some (envelope (Payload_CommandRequest c))) = None"
  "GetCommandRequest (Some (envelope (Payload_CommandRequest c))) = c"
  "GetCommandResponse (Some (envelope (Payload_CommandResponse d))) = d"
  by (simp_all add: payload_defs)

end
