(* ===== verification/Commandbus_Dispatcher.thy ===== *)
theory Commandbus_Dispatcher
  imports Go_UTF8 Proto
begin

text \<open>
  The agent's half of the Command Bus: \<^verbatim>\<open>internal/commandbus/commandbus.go\<close> (requests,
  responses and their conversion from and to the wire), \<^verbatim>\<open>dispatcher.go\<close> and \<^verbatim>\<open>wire.go\<close>. An
  executor is a function of the request that returns a response or panics. A nil map and an
  empty map are the same \<^const>\<open>fmempty\<close>: no code of the bus tells them apart.
\<close>

section \<open>commandbus.go\<close>

definition KindPing :: string where "KindPing = ''PING''"
definition KindGetVersion :: string where "KindGetVersion = ''GET_VERSION''"
definition KindGetInfo :: string where "KindGetInfo = ''GET_INFO''"
definition KindListContainers :: string where "KindListContainers = ''LIST_CONTAINERS''"
definition KindInspectContainer :: string where "KindInspectContainer = ''INSPECT_CONTAINER''"

record Request =
  rq_ID :: string
  rq_Kind :: string
  rq_Arguments :: "(string, string) fmap"

record Response =
  rs_CommandID :: string
  rs_Success :: bool
  rs_Message :: string
  rs_Details :: "(string, string) fmap"

definition metadataToMap :: "Metadata option \<Rightarrow> (string, string) fmap" where
  "metadataToMap m = (case m of None \<Rightarrow> fmempty | Some _ \<Rightarrow> Metadata_GetEntries m)"

definition metadataFromMap :: "(string, string) fmap \<Rightarrow> Metadata option" where
  "metadataFromMap m = (if map_len m = 0 then None else Some \<lparr>md_Entries = m\<rparr>)"

definition requestFromProto :: "Command option \<Rightarrow> Request" where
  "requestFromProto cmd =
     \<lparr>rq_ID = Command_GetId cmd, rq_Kind = Command_GetKind cmd,
      rq_Arguments = metadataToMap (Command_GetArguments cmd)\<rparr>"

definition responseToProto :: "Response \<Rightarrow> CommandResult" where
  "responseToProto resp =
     \<lparr>res_CommandId = rs_CommandID resp, res_Success = rs_Success resp,
      res_Message = rs_Message resp, res_Details = metadataFromMap (rs_Details resp)\<rparr>"

lemma metadata_roundtrip [simp]: "metadataToMap (metadataFromMap m) = m"
  by (simp add: metadataToMap_def metadataFromMap_def Metadata_GetEntries_def)

section \<open>dispatcher.go\<close>

text \<open>What \<^verbatim>\<open>Execute\<close> does: return a response, or panic with a value.\<close>

datatype outcome = Returns Response | Panics string

type_synonym Executor = "Request \<Rightarrow> outcome"

record Dispatcher =
  disp_executors :: "(string, Executor) fmap"

definition NewDispatcher :: Dispatcher where
  "NewDispatcher = \<lparr>disp_executors = fmempty\<rparr>"

definition Dispatcher_Register :: "string \<Rightarrow> Executor \<Rightarrow> Dispatcher \<Rightarrow> Dispatcher" where
  "Dispatcher_Register kind executor d =
     d\<lparr>disp_executors := fmupd kind executor (disp_executors d)\<rparr>"

text \<open>\<^verbatim>\<open>ExecutorFunc(f).Execute\<close> for an \<open>f\<close> that does not panic.\<close>

definition ExecutorFunc :: "(Request \<Rightarrow> Response) \<Rightarrow> Executor" where
  "ExecutorFunc f req = Returns (f req)"

definition failure :: "string \<Rightarrow> string \<Rightarrow> Response" where
  "failure i msg = \<lparr>rs_CommandID = i, rs_Success = False, rs_Message = msg, rs_Details = fmempty\<rparr>"

definition Dispatch :: "Dispatcher \<Rightarrow> Request \<Rightarrow> Response" where
  "Dispatch d req =
     (case fmlookup (disp_executors d) (rq_Kind req) of
        None \<Rightarrow> failure (rq_ID req) (''unknown command kind '' @ go_quote (rq_Kind req))
      | Some executor \<Rightarrow>
          (case executor req of
             Returns resp \<Rightarrow> resp\<lparr>rs_CommandID := rq_ID req\<rparr>
           | Panics _ \<Rightarrow> failure (rq_ID req) ''internal error handling command''))"

section \<open>wire.go\<close>

definition WireHandler :: "Dispatcher \<Rightarrow> Command option \<Rightarrow> CommandResult" where
  "WireHandler dispatcher cmd = responseToProto (Dispatch dispatcher (requestFromProto cmd))"

section \<open>Lemmas\<close>

text \<open>The dispatcher is a registry of executors, one per kind.\<close>

definition disp_get :: "string \<Rightarrow> Dispatcher \<Rightarrow> Executor option" where
  "disp_get kind d = fmlookup (disp_executors d) kind"

interpretation disp: registry Dispatcher_Register disp_get NewDispatcher
  by unfold_locales (simp_all add: Dispatcher_Register_def disp_get_def NewDispatcher_def)

lemma Dispatch_CommandID [simp]: "rs_CommandID (Dispatch d req) = rq_ID req"
  by (simp add: Dispatch_def failure_def split: option.split outcome.split)

lemma Dispatch_cases:
  obtains (unknown) "disp_get (rq_Kind req) d = None"
      "Dispatch d req = failure (rq_ID req) (''unknown command kind '' @ go_quote (rq_Kind req))"
  | (panicked) ex v where "disp_get (rq_Kind req) d = Some ex" "ex req = Panics v"
      "Dispatch d req = failure (rq_ID req) ''internal error handling command''"
  | (returned) ex r where "disp_get (rq_Kind req) d = Some ex" "ex req = Returns r"
      "Dispatch d req = r\<lparr>rs_CommandID := rq_ID req\<rparr>"
  by (cases "disp_get (rq_Kind req) d"; cases "the (disp_get (rq_Kind req) d) req")
     (auto simp: Dispatch_def disp_get_def)

text \<open>
  Registration and dispatch fit together: after any sequence of \<^verbatim>\<open>Register\<close> calls on a new
  dispatcher, a request is answered by the executor registered last for its kind, with the
  request's own identifier in place of whatever the executor wrote there; a panic becomes
  the failure response for this request, and a kind nobody registered the failure naming it.
\<close>

lemma dispatch_last_registered:
  "Dispatch (fold (\<lambda>(k, ex). Dispatcher_Register k ex) regs NewDispatcher) req =
     (case map_of (rev regs) (rq_Kind req) of
        None \<Rightarrow> failure (rq_ID req) (''unknown command kind '' @ go_quote (rq_Kind req))
      | Some ex \<Rightarrow>
          (case ex req of
             Returns resp \<Rightarrow> resp\<lparr>rs_CommandID := rq_ID req\<rparr>
           | Panics _ \<Rightarrow> failure (rq_ID req) ''internal error handling command''))"
proof -
  let ?d = "fold (\<lambda>(k, ex). Dispatcher_Register k ex) regs NewDispatcher"
  have "fmlookup (disp_executors ?d) (rq_Kind req) = map_of (rev regs) (rq_Kind req)"
    using disp.get_fold_put [of "rq_Kind req" regs NewDispatcher]
    by (simp add: disp_get_def NewDispatcher_def split: option.splits)
  then show ?thesis by (simp add: Dispatch_def)
qed

text \<open>
  The agent answers every command, and always under the command's identifier: whatever
  command arrives (a nil message included) and whatever its executor does, the result sent
  back carries the command's identifier, and it says success only if the kind was
  registered and its executor returned a success; the details an executor returned survive
  the conversion to the wire and back.
\<close>

lemma wire_handler_answers:
  "res_CommandId (WireHandler d cmd) = Command_GetId cmd \<and>
   (res_Success (WireHandler d cmd) \<longleftrightarrow>
      (\<exists>ex r. disp_get (Command_GetKind cmd) d = Some ex \<and>
         ex (requestFromProto cmd) = Returns r \<and> rs_Success r)) \<and>
   (\<forall>ex r. disp_get (Command_GetKind cmd) d = Some ex \<and> ex (requestFromProto cmd) = Returns r \<longrightarrow>
      res_Message (WireHandler d cmd) = rs_Message r \<and>
      metadataToMap (CommandResult_GetDetails (Some (WireHandler d cmd))) = rs_Details r)"
proof -
  have kind: "rq_Kind (requestFromProto cmd) = Command_GetKind cmd"
    "rq_ID (requestFromProto cmd) = Command_GetId cmd"
    by (simp_all add: requestFromProto_def)
  show ?thesis
    by (cases rule: Dispatch_cases [of "requestFromProto cmd" d])
       (simp_all add: WireHandler_def responseToProto_def kind failure_def CommandResult_GetDetails_def)
qed

definition demo_ping :: "Command option" where
  "demo_ping = Some \<lparr>cmd_Id = ''c1'', cmd_Kind = ''PING'', cmd_Arguments = None\<rparr>"

definition demo_pong :: Response where
  "demo_pong = \<lparr>rs_CommandID = ''other'', rs_Success = True, rs_Message = ''pong'', rs_Details = fmempty\<rparr>"

definition demo_dispatcher :: Dispatcher where
  "demo_dispatcher = Dispatcher_Register KindPing (ExecutorFunc (\<lambda>_. demo_pong)) NewDispatcher"

end
