(* ===== verification/Commandbus_Service.thy ===== *)
theory Commandbus_Service
  imports Commandbus_Dispatcher Contracts
begin

text \<open>
  The control plane's half of the Command Bus, \<^verbatim>\<open>internal/commandbus/service.go\<close>. \<^verbatim>\<open>Send\<close> and
  \<^verbatim>\<open>HandleResult\<close> run in many goroutines at once, so the service is a step machine: a step is
  one critical section, one channel operation or one call of the sender. A pending request
  is its result channel, and a channel is named by the number of the \<^verbatim>\<open>Send\<close> call that made
  it; a channel is the list of its buffered results, its capacity is one.
\<close>

section \<open>State\<close>

definition bus_ErrDeviceNotConnected :: error where
  "bus_ErrDeviceNotConnected = New ''commandbus.ErrDeviceNotConnected'' ''device is not connected''"

text \<open>
  Where a \<^verbatim>\<open>Send\<close> call is: registered and about to call the sender, waiting in the select,
  about to run \<open>cleanup()\<close> and return an error, or returned.
\<close>

datatype send_state =
    Registered
  | Waiting
  | CleaningUp error
  | Returned "error + Response"

record send_call =
  call_device :: AgentID
  call_request :: Request
  call_id :: string
  call_state :: send_state

text \<open>A \<^verbatim>\<open>HandleResult\<close> call that has taken the pending request and has yet to write its channel.\<close>

datatype handler_pc = HandlerPut nat CommandResult | HandlerDone

record Service =
  pending :: "(string, nat) fmap"
  calls :: "nat \<Rightarrow> send_call option"
  chan :: "nat \<Rightarrow> CommandResult list"
  handlers :: "nat \<Rightarrow> handler_pc option"
  handled :: "(AgentID \<times> CommandResult) list"
  delivered :: "(AgentID \<times> ConnectionEnvelope) list"

definition NewService :: Service where
  "NewService = \<lparr>pending = fmempty, calls = (\<lambda>_. None), chan = (\<lambda>_. []), handlers = (\<lambda>_. None),
     handled = [], delivered = []\<rparr>"

definition command_envelope :: "string \<Rightarrow> Request \<Rightarrow> ConnectionEnvelope" where
  "command_envelope i req =
     envelope (Payload_CommandRequest (Some
       \<lparr>cmd_Id = i, cmd_Kind = rq_Kind req, cmd_Arguments = metadataFromMap (rq_Arguments req)\<rparr>))"

definition response_of :: "CommandResult \<Rightarrow> Response" where
  "response_of result =
     \<lparr>rs_CommandID = CommandResult_GetCommandId (Some result),
      rs_Success = CommandResult_GetSuccess (Some result),
      rs_Message = CommandResult_GetMessage (Some result),
      rs_Details = metadataToMap (CommandResult_GetDetails (Some result))\<rparr>"

definition not_connected :: "error \<Rightarrow> error" where
  "not_connected err = Wrapf '''' bus_ErrDeviceNotConnected ('': '' @ error_text err)"

section \<open>Steps\<close>

text \<open>
  The labels: a new \<^verbatim>\<open>Send\<close> call with the identifier \<^verbatim>\<open>uuid.NewString\<close> gave it, the sender's
  answer, the two branches of the select, the deferred clean-up, and the two halves of
  \<^verbatim>\<open>HandleResult\<close>.
\<close>

datatype svc_event =
    SendBegin nat AgentID Request string
  | SendDeliver nat "error option"
  | SendReceive nat
  | SendCtxDone nat error
  | SendCleanup nat
  | HandleTake nat AgentID "ConnectionEnvelope option"
  | HandlePut nat

abbreviation set_call :: "nat \<Rightarrow> send_call \<Rightarrow> Service \<Rightarrow> Service" where
  "set_call k c s \<equiv> s\<lparr>calls := (calls s)(k := Some c)\<rparr>"

abbreviation set_handler :: "nat \<Rightarrow> handler_pc \<Rightarrow> Service \<Rightarrow> Service" where
  "set_handler j h s \<equiv> s\<lparr>handlers := (handlers s)(j := Some h)\<rparr>"

text \<open>\<^verbatim>\<open>HandleResult\<close> up to the channel write.\<close>

definition HandleResult :: "nat \<Rightarrow> AgentID \<Rightarrow> ConnectionEnvelope option \<Rightarrow> Service \<Rightarrow> Service" where
  "HandleResult j deviceID env s =
     (case GetCommandResponse env of
        None \<Rightarrow> set_handler j HandlerDone s
      | Some result \<Rightarrow>
          (let s' = s\<lparr>handled := handled s @ [(deviceID, result)]\<rparr>;
               i = CommandResult_GetCommandId (Some result) in
           case fmlookup (pending s) i of
             None \<Rightarrow> set_handler j HandlerDone s'
           | Some k \<Rightarrow> set_handler j (HandlerPut k result) (s'\<lparr>pending := fmdrop i (pending s)\<rparr>)))"

fun svc_exec :: "Service \<Rightarrow> svc_event \<Rightarrow> Service option" where
  "svc_exec s (SendBegin k deviceID req i) =
     (case calls s k of
        None \<Rightarrow> Some (set_call k \<lparr>call_device = deviceID, call_request = req, call_id = i,
                                  call_state = Registered\<rparr>
                        (s\<lparr>pending := fmupd i k (pending s)\<rparr>))
      | Some _ \<Rightarrow> None)"
| "svc_exec s (SendDeliver k err) =
     (case calls s k of
        Some c \<Rightarrow>
          (if call_state c = Registered
           then Some (case err of
                        None \<Rightarrow> set_call k (c\<lparr>call_state := Waiting\<rparr>)
                                 (s\<lparr>delivered := delivered s @
                                     [(call_device c, command_envelope (call_id c) (call_request c))]\<rparr>)
                      | Some e \<Rightarrow> set_call k (c\<lparr>call_state := CleaningUp (not_connected e)\<rparr>) s)
           else None)
      | None \<Rightarrow> None)"
| "svc_exec s (SendReceive k) =
     (case calls s k of
        Some c \<Rightarrow>
          (case (call_state c, chan s k) of
             (Waiting, result # rest) \<Rightarrow>
               Some (set_call k (c\<lparr>call_state := Returned (Inr (response_of result))\<rparr>)
                      (s\<lparr>chan := (chan s)(k := rest)\<rparr>))
           | _ \<Rightarrow> None)
      | None \<Rightarrow> None)"
| "svc_exec s (SendCtxDone k ctxErr) =
     (case calls s k of
        Some c \<Rightarrow>
          (if call_state c = Waiting
           then Some (set_call k (c\<lparr>call_state := CleaningUp ctxErr\<rparr>) s) else None)
      | None \<Rightarrow> None)"
| "svc_exec s (SendCleanup k) =
     (case calls s k of
        Some c \<Rightarrow>
          (case call_state c of
             CleaningUp err \<Rightarrow>
               Some (set_call k (c\<lparr>call_state := Returned (Inl err)\<rparr>)
                      (s\<lparr>pending := fmdrop (call_id c) (pending s)\<rparr>))
           | _ \<Rightarrow> None)
      | None \<Rightarrow> None)"
| "svc_exec s (HandleTake j deviceID env) =
     (case handlers s j of None \<Rightarrow> Some (HandleResult j deviceID env s) | Some _ \<Rightarrow> None)"
| "svc_exec s (HandlePut j) =
     (case handlers s j of
        Some (HandlerPut k result) \<Rightarrow>
          (if length (chan s k) < 1
           then Some (set_handler j HandlerDone (s\<lparr>chan := (chan s)(k := chan s k @ [result])\<rparr>))
           else None)
      | _ \<Rightarrow> None)"

text \<open>
  What the service relies on of \<^verbatim>\<open>uuid.NewString\<close>: the identifier of a new call is not the
  identifier of an earlier one.
\<close>

definition fresh_id :: "Service \<Rightarrow> svc_event \<Rightarrow> bool" where
  "fresh_id s e \<longleftrightarrow>
     (\<forall>k d r i. e = SendBegin k d r i \<longrightarrow> (\<forall>k' c. calls s k' = Some c \<longrightarrow> call_id c \<noteq> i))"

definition svc_step :: "Service \<Rightarrow> svc_event \<Rightarrow> Service \<Rightarrow> bool" where
  "svc_step s e t \<longleftrightarrow> svc_exec s e = Some t \<and> fresh_id s e"

section \<open>Correlation of results\<close>

lemma svc_execE:
  assumes "svc_exec s e = Some t"
  obtains
    (begin_call) k d r i where "e = SendBegin k d r i" "calls s k = None"
      "t = set_call k \<lparr>call_device = d, call_request = r, call_id = i, call_state = Registered\<rparr>
             (s\<lparr>pending := fmupd i k (pending s)\<rparr>)"
  | (deliver) k c where "e = SendDeliver k None" "calls s k = Some c" "call_state c = Registered"
      "t = set_call k (c\<lparr>call_state := Waiting\<rparr>) (s\<lparr>delivered := delivered s @
             [(call_device c, command_envelope (call_id c) (call_request c))]\<rparr>)"
  | (undeliverable) k x c where "e = SendDeliver k (Some x)" "calls s k = Some c"
      "call_state c = Registered"
      "t = set_call k (c\<lparr>call_state := CleaningUp (not_connected x)\<rparr>) s"
  | (receive) k c r rest where "e = SendReceive k" "calls s k = Some c" "call_state c = Waiting"
      "chan s k = r # rest"
      "t = set_call k (c\<lparr>call_state := Returned (Inr (response_of r))\<rparr>) (s\<lparr>chan := (chan s)(k := rest)\<rparr>)"
  | (ctx_done) k x c where "e = SendCtxDone k x" "calls s k = Some c" "call_state c = Waiting"
      "t = set_call k (c\<lparr>call_state := CleaningUp x\<rparr>) s"
  | (cleanup) k c x where "e = SendCleanup k" "calls s k = Some c" "call_state c = CleaningUp x"
      "t = set_call k (c\<lparr>call_state := Returned (Inl x)\<rparr>) (s\<lparr>pending := fmdrop (call_id c) (pending s)\<rparr>)"
  | (ignored) j d env where "e = HandleTake j d env" "handlers s j = None"
      "GetCommandResponse env = None" "t = set_handler j HandlerDone s"
  | (unknown) j d env r where "e = HandleTake j d env" "handlers s j = None"
      "GetCommandResponse env = Some r" "fmlookup (pending s) (res_CommandId r) = None"
      "t = set_handler j HandlerDone (s\<lparr>handled := handled s @ [(d, r)]\<rparr>)"
  | (take_result) j d env r k where "e = HandleTake j d env" "handlers s j = None"
      "GetCommandResponse env = Some r" "fmlookup (pending s) (res_CommandId r) = Some k"
      "t = set_handler j (HandlerPut k r) (s\<lparr>handled := handled s @ [(d, r)],
             pending := fmdrop (res_CommandId r) (pending s)\<rparr>)"
  | (put) j k r where "e = HandlePut j" "handlers s j = Some (HandlerPut k r)" "chan s k = []"
      "t = set_handler j HandlerDone (s\<lparr>chan := (chan s)(k := [r])\<rparr>)"
proof (cases e)
  case (SendBegin k d r i)
  with assms show ?thesis by (auto split: option.splits intro: begin_call)
next
  case (SendDeliver k err)
  with assms show ?thesis
    by (cases err) (auto split: option.splits if_splits intro: deliver undeliverable)
next
  case (SendReceive k)
  with assms show ?thesis
    by (auto split: option.splits send_state.splits list.splits intro: receive)
next
  case (SendCtxDone k x)
  with assms show ?thesis by (auto split: option.splits if_splits intro: ctx_done)
next
  case (SendCleanup k)
  with assms show ?thesis by (auto split: option.splits send_state.splits intro: cleanup)
next
  case (HandleTake j d env)
  with assms show ?thesis
    by (auto simp: HandleResult_def Let_def CommandResult_GetCommandId_def split: option.splits
        intro: ignored unknown take_result)
next
  case (HandlePut j)
  with assms show ?thesis by (auto split: option.splits handler_pc.splits if_splits intro: put)
qed

text \<open>
  The invariant follows the one token of a call: first its entry in \<^verbatim>\<open>pending\<close>, then a
  \<^verbatim>\<open>HandleResult\<close> call that has taken it, then a result in the channel, each excluding the
  others.
\<close>

definition taken :: "Service \<Rightarrow> nat \<Rightarrow> bool" where
  "taken s k \<longleftrightarrow> (\<exists>j r. handlers s j = Some (HandlerPut k r))"

definition ids_inv :: "Service \<Rightarrow> bool" where
  "ids_inv s \<longleftrightarrow>
     (\<forall>k k' c c'. calls s k = Some c \<longrightarrow> calls s k' = Some c' \<longrightarrow> call_id c = call_id c' \<longrightarrow> k = k')"

definition pending_inv :: "Service \<Rightarrow> bool" where
  "pending_inv s \<longleftrightarrow>
     (\<forall>i k. fmlookup (pending s) i = Some k \<longrightarrow>
        chan s k = [] \<and> \<not> taken s k \<and>
        (\<exists>c. calls s k = Some c \<and> call_id c = i \<and> (\<forall>r. call_state c \<noteq> Returned r)))"

definition taken_inv :: "Service \<Rightarrow> bool" where
  "taken_inv s \<longleftrightarrow>
     (\<forall>j k r. handlers s j = Some (HandlerPut k r) \<longrightarrow>
        chan s k = [] \<and> (\<forall>j' r'. handlers s j' = Some (HandlerPut k r') \<longrightarrow> j' = j) \<and>
        r \<in> snd ` set (handled s) \<and>
        (\<exists>c. calls s k = Some c \<and> res_CommandId r = call_id c \<and> (\<forall>x. call_state c \<noteq> Returned (Inr x))))"

definition chan_inv :: "Service \<Rightarrow> bool" where
  "chan_inv s \<longleftrightarrow>
     (\<forall>k r rest. chan s k = r # rest \<longrightarrow>
        rest = [] \<and> r \<in> snd ` set (handled s) \<and>
        (\<exists>c. calls s k = Some c \<and> res_CommandId r = call_id c \<and> (\<forall>x. call_state c \<noteq> Returned (Inr x))))"

definition answer_inv :: "Service \<Rightarrow> bool" where
  "answer_inv s \<longleftrightarrow>
     (\<forall>k c. calls s k = Some c \<longrightarrow>
        (call_state c \<in> {Waiting} \<union> {Returned (Inr x) | x. True} \<longrightarrow>
           (call_device c, command_envelope (call_id c) (call_request c)) \<in> set (delivered s)) \<and>
        (\<forall>x. call_state c = Returned (Inr x) \<longrightarrow>
           (\<exists>d r. (d, r) \<in> set (handled s) \<and> res_CommandId r = call_id c \<and> x = response_of r)))"

definition svc_inv :: "Service \<Rightarrow> bool" where
  "svc_inv s \<longleftrightarrow> ids_inv s \<and> pending_inv s \<and> taken_inv s \<and> chan_inv s \<and> answer_inv s"

lemma ids_inv_step:
  assumes "svc_step s e t" and "ids_inv s" shows "ids_inv t"
proof -
  from assms(1) have x: "svc_exec s e = Some t" and "fresh_id s e" by (simp_all add: svc_step_def)
  from x show ?thesis
  proof (cases rule: svc_execE)
    case begin_call
    with \<open>fresh_id s e\<close> \<open>ids_inv s\<close> show ?thesis
      unfolding ids_inv_def fresh_id_def by (auto split: if_splits)
  qed (use \<open>ids_inv s\<close> in \<open>fastforce simp: ids_inv_def split: if_splits\<close>)+
qed

lemma pending_invD:
  assumes "pending_inv s" and "fmlookup (pending s) i = Some k"
  obtains c where "calls s k = Some c" "call_id c = i" "\<And>r. call_state c \<noteq> Returned r"
    "chan s k = []" "\<not> taken s k"
  using assms unfolding pending_inv_def by metis

lemma unused_call:
  assumes "taken_inv s" "chan_inv s" "calls s k = None"
  shows "chan s k = []" "\<not> taken s k"
proof -
  show "chan s k = []" using assms unfolding chan_inv_def by (cases "chan s k") fastforce+
  show "\<not> taken s k" using assms unfolding taken_inv_def taken_def by fastforce
qed

lemma pending_inv_step:
  assumes "svc_exec s e = Some t" and inv: "pending_inv s" "taken_inv s" "chan_inv s"
  shows "pending_inv t"
  unfolding pending_inv_def
proof (intro allI impI)
  fix i k
  assume p: "fmlookup (pending t) i = Some k"
  let ?G = "chan t k = [] \<and> \<not> taken t k \<and>
    (\<exists>c. calls t k = Some c \<and> call_id c = i \<and> (\<forall>r. call_state c \<noteq> Returned r))"
  show ?G
  proof (cases "fmlookup (pending s) i = Some k")
    case True
    from inv(1) this obtain c where c: "calls s k = Some c" "call_id c = i" "\<And>r. call_state c \<noteq> Returned r"
      "chan s k = []" "\<not> taken s k" by (rule pending_invD) blast
    have same: "i' \<noteq> i \<Longrightarrow> fmlookup (pending s) i' \<noteq> Some k" for i'
      using pending_invD [OF inv(1), of i' k] c(1,2) by fastforce
    from assms(1) show ?thesis
      by (cases rule: svc_execE) (insert p c True same, auto simp: taken_def split: if_splits)
  next
    case False
    from assms(1) show ?thesis
      by (cases rule: svc_execE)
         (insert p False unused_call [OF inv(2,3)], auto simp: taken_def split: if_splits)
  qed
qed

lemma taken_inv_step:
  assumes "svc_exec s e = Some t" and inv: "pending_inv s" "taken_inv s"
  shows "taken_inv t"
  unfolding taken_inv_def
proof (intro allI impI)
  fix j k r
  assume h: "handlers t j = Some (HandlerPut k r)"
  let ?G = "\<lambda>s. chan s k = [] \<and> (\<forall>j' r'. handlers s j' = Some (HandlerPut k r') \<longrightarrow> j' = j) \<and>
    r \<in> snd ` set (handled s) \<and>
    (\<exists>c. calls s k = Some c \<and> res_CommandId r = call_id c \<and> (\<forall>x. call_state c \<noteq> Returned (Inr x)))"
  show "?G t"
  proof (cases "handlers s j = Some (HandlerPut k r)")
    case True
    with inv(2) obtain c where g: "chan s k = []" "r \<in> snd ` set (handled s)" "calls s k = Some c"
      "res_CommandId r = call_id c" "\<And>x. call_state c \<noteq> Returned (Inr x)"
      unfolding taken_inv_def by blast
    have uniq: "j' \<noteq> j \<Longrightarrow> handlers s j' \<noteq> Some (HandlerPut k r')" for j' r'
      using True inv(2) unfolding taken_inv_def by blast
    have free: "fmlookup (pending s) i \<noteq> Some k" for i
      using True inv(1) unfolding pending_inv_def taken_def by blast
    from assms(1) show ?thesis
      by (cases rule: svc_execE) (insert h True g free uniq, auto split: if_splits)
  next
    case False
    from assms(1) show ?thesis
    proof (cases rule: svc_execE)
      case (take_result j' d env r' k')
      with h False have "j' = j" "r' = r" "k' = k" by (auto split: if_splits)
      with inv(1) take_result(4) obtain c where "calls s k = Some c" "call_id c = res_CommandId r"
        "\<And>r. call_state c \<noteq> Returned r" "chan s k = []" "\<not> taken s k"
        using pending_invD [of s "res_CommandId r" k] by blast
      with take_result \<open>j' = j\<close> \<open>r' = r\<close> \<open>k' = k\<close> show ?thesis by (auto simp: taken_def split: if_splits)
    qed (insert h False, auto split: if_splits)
  qed
qed

lemma chan_inv_step:
  assumes "svc_exec s e = Some t" and inv: "taken_inv s" "chan_inv s"
  shows "chan_inv t"
  unfolding chan_inv_def
proof (intro allI impI)
  fix k r rest
  assume ch: "chan t k = r # rest"
  let ?G = "\<lambda>s rest. rest = [] \<and> r \<in> snd ` set (handled s) \<and>
    (\<exists>c. calls s k = Some c \<and> res_CommandId r = call_id c \<and> (\<forall>x. call_state c \<noteq> Returned (Inr x)))"
  have old: "chan s k = r # rest' \<Longrightarrow> ?G s rest'" for rest'
    using inv(2) unfolding chan_inv_def by blast
  have new: "handlers s j = Some (HandlerPut k r) \<Longrightarrow> ?G s []" for j
    using inv(1) unfolding taken_inv_def by blast
  have tail: "chan s k = r' # x # xs \<Longrightarrow> False" for r' x xs
    using inv(2) unfolding chan_inv_def by blast
  from assms(1) show "?G t rest"
    by (cases rule: svc_execE) (insert ch old [of rest] new tail, auto split: if_splits)
qed

lemma answer_inv_step:
  assumes "svc_exec s e = Some t" and inv: "chan_inv s" "answer_inv s"
  shows "answer_inv t"
proof -
  from assms(1) show ?thesis
  proof (cases rule: svc_execE)
    case (receive k c r rest)
    with inv(1) have "r \<in> snd ` set (handled s)" "res_CommandId r = call_id c"
      unfolding chan_inv_def by fastforce+
    with receive inv(2) show ?thesis unfolding answer_inv_def by (auto; metis)
  qed (use inv(2) in \<open>fastforce simp: answer_inv_def split: if_splits\<close>)+
qed

text \<open>A call that has not returned still has its token somewhere.\<close>

definition live_inv :: "Service \<Rightarrow> bool" where
  "live_inv s \<longleftrightarrow>
     (\<forall>k c. calls s k = Some c \<longrightarrow> (\<forall>r. call_state c \<noteq> Returned r) \<longrightarrow>
        fmlookup (pending s) (call_id c) = Some k \<or> taken s k \<or> chan s k \<noteq> [])"

lemma taken_step:
  assumes "svc_exec s e = Some t" and "taken s k"
  shows "taken t k \<or> chan t k \<noteq> []"
proof -
  from assms(2) obtain j r where "handlers s j = Some (HandlerPut k r)" by (auto simp: taken_def)
  with assms(1) show ?thesis
    unfolding taken_def by (cases rule: svc_execE) (auto split: if_splits intro: exI [of _ j])
qed

lemma call_step:
  assumes "svc_exec s e = Some t" and "calls t k = Some c" and "\<forall>r. call_state c \<noteq> Returned r"
  shows "(calls s k = None \<and> fmlookup (pending t) (call_id c) = Some k) \<or>
    (\<exists>c'. calls s k = Some c' \<and> call_id c' = call_id c \<and> (\<forall>r. call_state c' \<noteq> Returned r))"
  using assms(1) by (cases rule: svc_execE) (insert assms(2,3), auto split: if_splits)

lemma chan_step:
  assumes "svc_exec s e = Some t" and "chan s k \<noteq> []"
    and "calls t k = Some c" and "\<forall>r. call_state c \<noteq> Returned r"
  shows "chan t k \<noteq> []"
  using assms(1) by (cases rule: svc_execE) (insert assms(2-), auto split: if_splits)

lemma pending_step:
  assumes "svc_step s e t" and "ids_inv s" and "fmlookup (pending s) (call_id c) = Some k"
    and "calls s k = Some c'" and "call_id c' = call_id c"
    and "calls t k = Some c" and "\<forall>r. call_state c \<noteq> Returned r"
  shows "fmlookup (pending t) (call_id c) = Some k \<or> taken t k"
proof -
  from assms(1) have x: "svc_exec s e = Some t" and f: "fresh_id s e" by (simp_all add: svc_step_def)
  from x show ?thesis
  proof (cases rule: svc_execE)
    case (begin_call k' d r i)
    with f assms(4,5) have "call_id c \<noteq> i" by (auto simp: fresh_id_def)
    with begin_call assms(3) show ?thesis by simp
  next
    case (cleanup k' c'' y)
    with assms(6,7) have "k' \<noteq> k" by auto
    with cleanup(2) assms(2,4,5) have "call_id c'' \<noteq> call_id c" unfolding ids_inv_def by metis
    with cleanup assms(3) show ?thesis by simp
  next
    case (take_result j d env r k')
    with assms(3) show ?thesis by (auto simp: taken_def)
  qed (insert assms(3), auto)
qed

lemma live_inv_step:
  assumes "svc_step s e t" and "ids_inv s" and "live_inv s"
  shows "live_inv t"
  unfolding live_inv_def
proof (intro allI impI)
  from assms(1) have x: "svc_exec s e = Some t" by (simp add: svc_step_def)
  fix k c
  assume c: "calls t k = Some c" and nr: "\<forall>r. call_state c \<noteq> Returned r"
  from call_step [OF x c] nr consider "fmlookup (pending t) (call_id c) = Some k"
    | c' where "calls s k = Some c'" "call_id c' = call_id c" "\<forall>r. call_state c' \<noteq> Returned r"
    by blast
  then show "fmlookup (pending t) (call_id c) = Some k \<or> taken t k \<or> chan t k \<noteq> []"
  proof cases
    case (2 c')
    with assms(3) consider "fmlookup (pending s) (call_id c) = Some k" | "taken s k" | "chan s k \<noteq> []"
      unfolding live_inv_def by metis
    then show ?thesis
      using pending_step [OF assms(1,2) _ 2(1,2) c] taken_step [OF x] chan_step [OF x _ c] nr
      by cases blast+
  qed blast
qed

interpretation svc: inductive_invariant svc_step NewService "\<lambda>s. svc_inv s \<and> live_inv s"
proof unfold_locales
  show "svc_inv NewService \<and> live_inv NewService"
    by (simp add: svc_inv_def ids_inv_def pending_inv_def taken_inv_def chan_inv_def answer_inv_def
        live_inv_def NewService_def)
next
  fix s e t
  assume inv: "svc_inv s \<and> live_inv s" and step: "svc_step s e t"
  then have x: "svc_exec s e = Some t" by (simp add: svc_step_def)
  from inv have "ids_inv s" "pending_inv s" "taken_inv s" "chan_inv s" "answer_inv s" "live_inv s"
    by (simp_all add: svc_inv_def)
  with ids_inv_step [OF step] live_inv_step [OF step] pending_inv_step [OF x] taken_inv_step [OF x]
    chan_inv_step [OF x] answer_inv_step [OF x]
  show "svc_inv t \<and> live_inv t" by (simp add: svc_inv_def)
qed

lemma svc_reachable_inv:
  assumes "reachable svc_step NewService s"
  shows "ids_inv s" "pending_inv s" "taken_inv s" "chan_inv s" "answer_inv s" "live_inv s"
  using svc.reachable_inv [OF assms] by (simp_all add: svc_inv_def)

section \<open>What callers of the Command Bus can rely on\<close>

text \<open>
  \<^bold>\<open>C5.\<close> A response answers its own command: however \<^verbatim>\<open>Send\<close>, \<^verbatim>\<open>HandleResult\<close> and cancellations
  interleave, when a \<^verbatim>\<open>Send\<close> returns a response, the response is the content of a received
  result that carries the identifier this call gave its command, and the command with this
  identifier, the request's kind and its arguments was handed to the sender for the
  requested device.
\<close>

theorem responses_correlated:
  assumes "reachable svc_step NewService s" and "calls s k = Some c"
    and "call_state c = Returned (Inr resp)"
  shows "rs_CommandID resp = call_id c \<and>
    (call_device c, command_envelope (call_id c) (call_request c)) \<in> set (delivered s) \<and>
    (\<exists>d r. (d, r) \<in> set (handled s) \<and> res_CommandId r = call_id c \<and> resp = response_of r)"
proof -
  from svc_reachable_inv(5) [OF assms(1)] assms(2,3)
  have sent: "(call_device c, command_envelope (call_id c) (call_request c)) \<in> set (delivered s)"
    and "\<exists>d r. (d, r) \<in> set (handled s) \<and> res_CommandId r = call_id c \<and> resp = response_of r"
    unfolding answer_inv_def by blast+
  moreover from this(2) have "rs_CommandID resp = call_id c"
    by (auto simp: response_of_def CommandResult_GetCommandId_def)
  ultimately show ?thesis by blast
qed

text \<open>
  \<^bold>\<open>C11.\<close> Nothing leaks and nothing blocks: an entry of \<^verbatim>\<open>pending\<close> always belongs to a \<^verbatim>\<open>Send\<close> call
  that has not returned, a channel never holds more than one result, and a \<^verbatim>\<open>HandleResult\<close>
  that has taken a pending request can always write its channel at once, because the buffer
  is empty and no other \<^verbatim>\<open>HandleResult\<close> writes to it.
\<close>

theorem no_leak_no_block:
  assumes "reachable svc_step NewService s"
  shows "(\<forall>i k. fmlookup (pending s) i = Some k \<longrightarrow>
      (\<exists>c. calls s k = Some c \<and> call_id c = i \<and> (\<forall>r. call_state c \<noteq> Returned r))) \<and>
    (\<forall>k. length (chan s k) \<le> 1) \<and>
    (\<forall>j k r. handlers s j = Some (HandlerPut k r) \<longrightarrow>
       (\<exists>t. svc_step s (HandlePut j) t \<and> chan t k = [r]) \<and>
       (\<forall>j' r'. handlers s j' = Some (HandlerPut k r') \<longrightarrow> j' = j))"
proof (intro conjI)
  note inv = svc_reachable_inv [OF assms]
  show "\<forall>i k. fmlookup (pending s) i = Some k \<longrightarrow>
      (\<exists>c. calls s k = Some c \<and> call_id c = i \<and> (\<forall>r. call_state c \<noteq> Returned r))"
    using inv(2) unfolding pending_inv_def by blast
  have "length (chan s k) \<le> 1" for k
    using inv(4) unfolding chan_inv_def by (cases "chan s k") fastforce+
  then show "\<forall>k. length (chan s k) \<le> 1" by blast
  show "\<forall>j k r. handlers s j = Some (HandlerPut k r) \<longrightarrow>
      (\<exists>t. svc_step s (HandlePut j) t \<and> chan t k = [r]) \<and>
      (\<forall>j' r'. handlers s j' = Some (HandlerPut k r') \<longrightarrow> j' = j)"
    using inv(3) unfolding taken_inv_def svc_step_def fresh_id_def by fastforce
qed

text \<open>
  A waiting call is always answered once a result for it arrives: from every reachable
  state in which a \<^verbatim>\<open>Send\<close> waits, handling a command result with the call's identifier is
  followed, in at most two more steps, by this call returning a response (that of this
  result, or of an earlier result for the same command).
\<close>

lemma waiting_call_completes:
  assumes "reachable svc_step NewService s" and "calls s k = Some c" and "call_state c = Waiting"
    and "GetCommandResponse env = Some r" and "res_CommandId r = call_id c" and "handlers s j = None"
  shows "\<exists>es t resp. run svc_step s (HandleTake j d env # es) t \<and> length es \<le> 2 \<and>
    calls t k = Some (c\<lparr>call_state := Returned (Inr resp)\<rparr>)"
proof -
  note inv = svc_reachable_inv [OF assms(1)]
  from inv(6) assms(2,3) consider (pend) "fmlookup (pending s) (call_id c) = Some k"
    | (taken) "taken s k" | (chan) x xs where "chan s k = x # xs"
    unfolding live_inv_def by (metis list.exhaust send_state.distinct(9))
  then show ?thesis
  proof cases
    case pend
    with inv(2) have "chan s k = []" unfolding pending_inv_def by blast
    with pend assms(2-) show ?thesis
      by (intro exI [of _ "[HandlePut j, SendReceive k]"])
         (simp add: run_Cons_iff svc_step_def fresh_id_def HandleResult_def
            CommandResult_GetCommandId_def; blast)
  next
    case taken
    then obtain j' r' where h: "handlers s j' = Some (HandlerPut k r')" by (auto simp: taken_def)
    with inv(3) have "chan s k = []" unfolding taken_inv_def by blast
    moreover from h assms(6) have "j' \<noteq> j" by auto
    ultimately show ?thesis using h assms(2-)
      by (intro exI [of _ "[HandlePut j', SendReceive k]"])
         (simp add: run_Cons_iff svc_step_def fresh_id_def HandleResult_def Let_def
            split: option.split; blast)
  next
    case chan
    with assms(2-) show ?thesis
      by (intro exI [of _ "[SendReceive k]"])
         (simp add: run_Cons_iff svc_step_def fresh_id_def HandleResult_def Let_def
            split: option.split; blast)
  qed
qed

text \<open>
  The error of an undeliverable command matches \<^verbatim>\<open>ErrDeviceNotConnected\<close> of the Command
  Bus, whatever the sender's own error was, and matches no other package-level error:
  although the variable's comment says that it wraps what the sender reported, the cause is
  only printed, so it cannot be found by \<^verbatim>\<open>errors.Is\<close>.
\<close>

lemma undeliverable_error_identity:
  "errors_is (not_connected x) (New i m) \<longleftrightarrow> New i m = bus_ErrDeviceNotConnected"
  by (auto simp: not_connected_def bus_ErrDeviceNotConnected_def)

section \<open>A concrete exchange\<close>

definition demo_request :: Request where
  "demo_request = \<lparr>rq_ID = '''', rq_Kind = ''PING'', rq_Arguments = fmempty\<rparr>"

definition demo_result :: CommandResult where
  "demo_result = \<lparr>res_CommandId = ''id1'', res_Success = True, res_Message = ''pong'', res_Details = None\<rparr>"

definition demo_result_env :: "ConnectionEnvelope option" where
  "demo_result_env = Some (envelope (Payload_CommandResponse (Some demo_result)))"

definition demo_call :: "send_state \<Rightarrow> send_call" where
  "demo_call st = \<lparr>call_device = ''dev'', call_request = demo_request, call_id = ''id1'', call_state = st\<rparr>"

definition demo_waiting :: Service where
  "demo_waiting = set_call 0 (demo_call Waiting)
     (NewService\<lparr>pending := fmupd ''id1'' 0 fmempty,
       delivered := [(''dev'', command_envelope ''id1'' demo_request)]\<rparr>)"

definition demo_answered :: Service where
  "demo_answered = (case run_exec svc_exec demo_waiting
       [HandleTake 0 ''dev'' demo_result_env, HandlePut 0, SendReceive 0] of
     Some s \<Rightarrow> s | None \<Rightarrow> demo_waiting)"

lemma demo_waiting_reachable: "reachable svc_step NewService demo_waiting"
proof (rule reachableI)
  show "run svc_step NewService [SendBegin 0 ''dev'' demo_request ''id1'', SendDeliver 0 None] demo_waiting"
    by (simp add: run_Cons_iff svc_step_def fresh_id_def demo_waiting_def NewService_def demo_call_def)
qed

lemma demo_result_env_get: "GetCommandResponse demo_result_env = Some demo_result"
  by (simp add: demo_result_env_def)

lemma demo_answered_reachable:
  "reachable svc_step NewService demo_answered"
  "calls demo_answered 0 = Some (demo_call (Returned (Inr (response_of demo_result))))"
proof -
  have r: "run svc_step demo_waiting [HandleTake 0 ''dev'' demo_result_env, HandlePut 0, SendReceive 0]
      demo_answered"
    and "calls demo_answered 0 = Some (demo_call (Returned (Inr (response_of demo_result))))"
    by (simp_all add: run_Cons_iff svc_step_def fresh_id_def demo_waiting_def NewService_def
        demo_answered_def HandleResult_def demo_result_env_get CommandResult_GetCommandId_def
        demo_result_def demo_call_def Let_def)
  then show "calls demo_answered 0 = Some (demo_call (Returned (Inr (response_of demo_result))))" by blast
  from r demo_waiting_reachable show "reachable svc_step NewService demo_answered"
    unfolding reachable_def by (metis run_append)
qed

theorem responses_correlated_witness:
  "rs_CommandID (response_of demo_result) = ''id1'' \<and>
   (''dev'', command_envelope ''id1'' demo_request) \<in> set (delivered demo_answered)"
  using responses_correlated [OF demo_answered_reachable(1,2)] by (simp add: demo_call_def)

theorem no_leak_no_block_witness:
  "(\<exists>c. calls demo_waiting 0 = Some c \<and> call_id c = ''id1'') \<and> length (chan demo_waiting 0) \<le> 1"
proof -
  have "fmlookup (pending demo_waiting) ''id1'' = Some 0" by (simp add: demo_waiting_def)
  with no_leak_no_block [OF demo_waiting_reachable] show ?thesis by blast
qed

end
