(* ===== verification/Commandbus_Handler.thy ===== *)
theory Commandbus_Handler
  imports Auth Devices Commandbus_Service
begin

text \<open>
  The HTTP side of the Command Bus, \<^verbatim>\<open>internal/commandbus/handler.go\<close>: \<^verbatim>\<open>POST
  /api/v1/devices/{deviceID}/commands\<close>. The authenticator and the ownership checker are
  arguments, as in the code; \<open>send\<close> is the service's \<^verbatim>\<open>Send\<close> on a state of its own, returned
  unchanged by every path that does not call it. The request body is its text.
\<close>

definition context_DeadlineExceeded :: error where
  "context_DeadlineExceeded = New ''context.DeadlineExceeded'' ''context deadline exceeded''"

definition context_Canceled :: error where
  "context_Canceled = New ''context.Canceled'' ''context canceled''"

definition defaultSendTimeout :: int where
  "defaultSendTimeout = 15 * second"

text \<open>The switch on the outcome of \<^verbatim>\<open>Send\<close>.\<close>

definition command_reply :: "error + Response \<Rightarrow> http_response" where
  "command_reply res =
     (case res of
        Inl err \<Rightarrow>
          (if errors_is err bus_ErrDeviceNotConnected then writeError 503 ''device is not connected''
           else if errors_is err context_DeadlineExceeded
             then writeError 504 ''command timed out waiting for a response''
           else writeError 500 ''internal error'')
      | Inr resp \<Rightarrow>
          writeJSON 200 (CommandBody
            \<lparr>scp_CommandID = rs_CommandID resp, scp_Success = rs_Success resp,
             scp_Message = rs_Message resp, scp_Details = rs_Details resp\<rparr>))"

text \<open>An \<^verbatim>\<open>OwnershipChecker\<close> tells whether a device belongs to a user.\<close>

type_synonym OwnershipChecker = "string \<Rightarrow> AgentID \<Rightarrow> error + bool"

text \<open>The handler with what it was built from; the ownership checker reads a store of type \<open>'db\<close>.\<close>

record ('w, 'db) commandbus_Handler =
  ch_service :: "'w \<Rightarrow> int \<Rightarrow> AgentID \<Rightarrow> Request \<Rightarrow> (error + Response) \<times> 'w"
  ch_authenticator :: Authenticator
  ch_ownership :: "'db \<Rightarrow> OwnershipChecker"

definition commandbus_NewHandler ::
  "('w \<Rightarrow> int \<Rightarrow> AgentID \<Rightarrow> Request \<Rightarrow> (error + Response) \<times> 'w) \<Rightarrow> Authenticator \<Rightarrow>
   ('db \<Rightarrow> OwnershipChecker) \<Rightarrow> ('w, 'db) commandbus_Handler" where
  "commandbus_NewHandler service authn ownership =
     \<lparr>ch_service = service, ch_authenticator = authn, ch_ownership = ownership\<rparr>"

definition Handler_Send ::
  "Authenticator \<Rightarrow> OwnershipChecker \<Rightarrow>
   ('w \<Rightarrow> int \<Rightarrow> AgentID \<Rightarrow> Request \<Rightarrow> (error + Response) \<times> 'w) \<Rightarrow>
   'w \<Rightarrow> http_request \<Rightarrow> string \<Rightarrow> http_response \<times> 'w" where
  "Handler_Send authenticate isOwner send w r body =
     (case BearerToken r of
        None \<Rightarrow> (writeError 401 ''missing bearer token'', w)
      | Some token \<Rightarrow>
        (case authenticate token of
           Inl _ \<Rightarrow> (writeError 401 ''unauthorized'', w)
         | Inr user \<Rightarrow>
           (let deviceID = hreq_PathValue r ''deviceID'' in
            case AgentID_Validate deviceID of
              Some _ \<Rightarrow> (writeError 400 ''invalid device id'', w)
            | None \<Rightarrow>
              (case isOwner (usr_ID user) deviceID of
                 Inl _ \<Rightarrow> (writeError 500 ''internal error'', w)
               | Inr owned \<Rightarrow>
                 (if \<not> owned then (writeError 404 ''device not found'', w)
                  else (case read_command_request body of
                    None \<Rightarrow> (writeError 400 ''invalid request body'', w)
                  | Some req \<Rightarrow>
                    (if scr_Kind req = '''' then (writeError 400 ''kind must not be empty'', w)
                     else (case send w defaultSendTimeout deviceID
                                  \<lparr>rq_ID = '''', rq_Kind = scr_Kind req, rq_Arguments = scr_Arguments req\<rparr> of
                       (res, w') \<Rightarrow> (command_reply res, w')))))))))"

text \<open>The guards of the handler: what must hold for the command to be sent at all.\<close>

definition may_send ::
  "Authenticator \<Rightarrow> OwnershipChecker \<Rightarrow> http_request \<Rightarrow>
   string \<Rightarrow> User \<Rightarrow> SendCommandRequest \<Rightarrow> bool" where
  "may_send authenticate isOwner r body user req \<longleftrightarrow>
     (\<exists>token. BearerToken r = Some token \<and> authenticate token = Inr user) \<and>
     hreq_PathValue r ''deviceID'' \<noteq> '''' \<and>
     isOwner (usr_ID user) (hreq_PathValue r ''deviceID'') = Inr True \<and>
     read_command_request body = Some req \<and> scr_Kind req \<noteq> ''''"

lemma Handler_Send_sends:
  assumes "may_send authenticate isOwner r body user req"
  shows "Handler_Send authenticate isOwner send w r body =
    (case send w defaultSendTimeout (hreq_PathValue r ''deviceID'')
            \<lparr>rq_ID = '''', rq_Kind = scr_Kind req, rq_Arguments = scr_Arguments req\<rparr> of
       (res, w') \<Rightarrow> (command_reply res, w'))"
  using assms by (auto simp: may_send_def Handler_Send_def Let_def AgentID_Validate_def)

lemma Handler_Send_refuses:
  assumes "\<nexists>user req. may_send authenticate isOwner r body user req"
  shows "snd (Handler_Send authenticate isOwner send w r body) = w \<and>
    http_status (fst (Handler_Send authenticate isOwner send w r body)) \<in> {400, 401, 404, 500}"
  using assms
  by (auto simp: may_send_def Handler_Send_def Let_def AgentID_Validate_def split: option.split sum.split)

section \<open>The ownership contract\<close>

text \<open>
  What the handler asks of an \<^verbatim>\<open>OwnershipChecker\<close> over a store \<open>db\<close>: an answer tells whether
  the recorded owner of the device is this user.
\<close>

locale ownership_checker =
  fixes is_owner :: "'db \<Rightarrow> OwnershipChecker"
    and owner :: "'db \<Rightarrow> AgentID \<Rightarrow> string option"
    and canon :: "string \<Rightarrow> string"
    and ok :: "'db \<Rightarrow> bool"
  assumes is_owner_iff: "ok db \<Longrightarrow> is_owner db u d = Inr b \<Longrightarrow> b \<longleftrightarrow> owner db d = Some (canon u)"

text \<open>The handler with an authenticator and an ownership checker that keep their contracts.\<close>

locale command_api = authenticator authenticate + ownership_checker is_owner owner canon ok
  for authenticate :: Authenticator and is_owner :: "'db \<Rightarrow> OwnershipChecker"
    and owner :: "'db \<Rightarrow> AgentID \<Rightarrow> string option" and canon :: "string \<Rightarrow> string" and ok :: "'db \<Rightarrow> bool"
begin

lemma sends_only_for_owner:
  assumes "ok db" and "Handler_Send authenticate (is_owner db) send w r body = (resp, w')"
    and "w' \<noteq> w \<or> http_status resp \<in> {200, 503, 504}"
  shows "\<exists>token user. BearerToken r = Some token \<and> authenticate token = Inr user \<and> usr_ID user \<noteq> '''' \<and>
    owner db (hreq_PathValue r ''deviceID'') = Some (canon (usr_ID user))"
proof -
  from Handler_Send_refuses [of authenticate "is_owner db" r body send w] assms(2,3) obtain user req where
    "may_send authenticate (is_owner db) r body user req" by fastforce
  then show ?thesis
    using is_owner_iff [OF assms(1)] authenticated_id by (auto simp: may_send_def)
qed

end

interpretation postgres_owner: ownership_checker
  "\<lambda>(ks, tab). IsOwner (ListByUser p ks) tab" "\<lambda>(ks, tab) k. map_option dev_UserID (fmlookup tab k)"
  "pg_canon p" "\<lambda>(ks, tab). table_inv tab \<and> range_order tab ks"
  for p
proof unfold_locales
  fix db u k b
  assume ok: "case db of (ks, tab) \<Rightarrow> table_inv tab \<and> range_order tab ks"
    and o: "(case db of (ks, tab) \<Rightarrow> IsOwner (ListByUser p ks) tab) u k = Inr b"
  obtain ks tab where [simp]: "db = (ks, tab)" by fastforce
  from ok o postgres.IsOwner_iff [of tab ks p u k b]
  show "b \<longleftrightarrow> (case db of (ks, tab) \<Rightarrow> \<lambda>k. map_option dev_UserID (fmlookup tab k)) k = Some (pg_canon p u)"
    by auto
qed

interpretation server_api: command_api "Authenticate newRequest do a"
  "\<lambda>(ks, tab). IsOwner (ListByUser p ks) tab" "\<lambda>(ks, tab) k. map_option dev_UserID (fmlookup tab k)"
  "pg_canon p" "\<lambda>(ks, tab). table_inv tab \<and> range_order tab ks"
  for newRequest do a p ..

section \<open>Properties\<close>

text \<open>
  An operator can only command their own devices: with the Supabase authenticator and the
  device table as the ownership checker, a request changes the state of the Command Bus, or
  gets any of the answers that only a sent command can get, only if its bearer token was
  accepted for a user with a non-empty identifier who is the recorded owner of the device in
  the path.
\<close>

lemma commands_only_to_own_devices:
  assumes "table_inv tab" and "range_order tab ks"
    and "Handler_Send (Authenticate newRequest do a) (IsOwner (ListByUser p ks) tab) send w r body = (resp, w')"
    and "w' \<noteq> w \<or> http_status resp \<in> {200, 503, 504}"
  shows "\<exists>token user row. BearerToken r = Some token \<and> Authenticate newRequest do a token = Inr user \<and>
    usr_ID user \<noteq> '''' \<and> fmlookup tab (hreq_PathValue r ''deviceID'') = Some row \<and>
    dev_UserID row = pg_canon p (usr_ID user)"
proof -
  have "case (ks, tab) of (ks, tab) \<Rightarrow> table_inv tab \<and> range_order tab ks" using assms(1,2) by simp
  from server_api.sends_only_for_owner [OF this, of newRequest do a p send w r body resp w'] assms(3,4)
  show ?thesis by auto
qed


text \<open>
  The errors of the Command Bus reach the operator as the statuses meant for them: an
  undeliverable command is answered 503 whatever error the sender gave, and a call whose
  context ended is answered 504 if its deadline passed and 500 if it was cancelled.
\<close>

lemma bus_error_statuses:
  "http_status (command_reply (Inl (not_connected e))) = 503 \<and>
   http_status (command_reply (Inl context_DeadlineExceeded)) = 504 \<and>
   http_status (command_reply (Inl context_Canceled)) = 500"
  by (simp add: command_reply_def not_connected_def bus_ErrDeviceNotConnected_def
      context_DeadlineExceeded_def context_Canceled_def)

section \<open>A concrete request\<close>

definition demo_send :: "nat \<Rightarrow> int \<Rightarrow> AgentID \<Rightarrow> Request \<Rightarrow> (error + Response) \<times> nat" where
  "demo_send w timeout d req = (Inr (response_of demo_result), w + 1)"

end
