(* ===== verification/Connection_Manager.thy ===== *)
theory Connection_Manager
  imports Contracts
begin

text \<open>
  The Connection Manager of \<^verbatim>\<open>internal/connection/manager.go\<close>: the in-memory registry of
  connected devices. Each method holds the mutex for its whole body, so each is one atomic
  function of the manager's state. \<^verbatim>\<open>Get\<close> returns its value and flag as an \<^verbatim>\<open>option\<close>, and
  \<^verbatim>\<open>List\<close> takes the order in which the runtime happens to range over the map.
\<close>

record State =
  st_DeviceID :: AgentID
  st_UserID :: string
  st_SessionID :: string
  st_ConnectedAt :: Time

record Manager =
  mgr_active :: "(AgentID, State) fmap"

definition NewManager :: Manager where
  "NewManager = \<lparr>mgr_active = fmempty\<rparr>"

definition Manager_Add :: "State \<Rightarrow> Manager \<Rightarrow> Manager" where
  "Manager_Add state m = m\<lparr>mgr_active := fmupd (st_DeviceID state) state (mgr_active m)\<rparr>"

definition Manager_Remove :: "AgentID \<Rightarrow> Manager \<Rightarrow> Manager" where
  "Manager_Remove deviceID m = m\<lparr>mgr_active := fmdrop deviceID (mgr_active m)\<rparr>"

definition Manager_IsConnected :: "AgentID \<Rightarrow> Manager \<Rightarrow> bool" where
  "Manager_IsConnected deviceID m = (fmlookup (mgr_active m) deviceID \<noteq> None)"

definition Manager_Get :: "AgentID \<Rightarrow> Manager \<Rightarrow> State option" where
  "Manager_Get deviceID m = fmlookup (mgr_active m) deviceID"

definition Manager_List :: "AgentID list \<Rightarrow> Manager \<Rightarrow> State list" where
  "Manager_List ks m = map snd (range_pairs (mgr_active m) ks)"

definition Manager_Count :: "Manager \<Rightarrow> nat" where
  "Manager_Count m = map_len (mgr_active m)"

lemmas manager_defs [go_defs] =
  NewManager_def Manager_Add_def Manager_Remove_def Manager_IsConnected_def Manager_Get_def
  Manager_Count_def

text \<open>Every entry is filed under its own device.\<close>

definition manager_inv :: "Manager \<Rightarrow> bool" where
  "manager_inv m \<longleftrightarrow> (\<forall>d st. Manager_Get d m = Some st \<longrightarrow> st_DeviceID st = d)"

lemma manager_inv_intros [intro]:
  "manager_inv NewManager"
  "manager_inv m \<Longrightarrow> manager_inv (Manager_Add st m)"
  "manager_inv m \<Longrightarrow> manager_inv (Manager_Remove d m)"
  by (auto simp: manager_inv_def manager_defs split: if_splits)

lemma Manager_IsConnected_iff: "Manager_IsConnected d m \<longleftrightarrow> Manager_Get d m \<noteq> None"
  by (simp add: manager_defs)

text \<open>
  The manager is a removable registry from a device to its user, session and time of
  connection.
\<close>

definition mgr_put :: "AgentID \<Rightarrow> string \<times> string \<times> Time \<Rightarrow> Manager \<Rightarrow> Manager" where
  "mgr_put d v m =
     Manager_Add \<lparr>st_DeviceID = d, st_UserID = fst v, st_SessionID = fst (snd v),
                  st_ConnectedAt = snd (snd v)\<rparr> m"

definition mgr_get :: "AgentID \<Rightarrow> Manager \<Rightarrow> (string \<times> string \<times> Time) option" where
  "mgr_get d m =
     map_option (\<lambda>st. (st_UserID st, st_SessionID st, st_ConnectedAt st)) (Manager_Get d m)"

interpretation mgr: removable_registry mgr_put mgr_get NewManager Manager_Remove
  by unfold_locales (auto simp: mgr_put_def mgr_get_def manager_defs)

lemma Manager_Get_Add [simp]:
  "Manager_Get d (Manager_Add st m) = (if d = st_DeviceID st then Some st else Manager_Get d m)"
  by (simp add: manager_defs)

lemma Manager_Get_Remove [simp]:
  "Manager_Get d (Manager_Remove d' m) = (if d = d' then None else Manager_Get d m)"
  by (simp add: manager_defs)

lemma Manager_Get_New [simp]: "Manager_Get d NewManager = None"
  by (simp add: manager_defs)

text \<open>A sequence of calls that other goroutines may have made in any order.\<close>

datatype mgr_op = OpAdd State | OpRemove AgentID

fun mgr_do :: "mgr_op \<Rightarrow> Manager \<Rightarrow> Manager" where
  "mgr_do (OpAdd st) m = Manager_Add st m"
| "mgr_do (OpRemove d) m = Manager_Remove d m"

fun concerns :: "AgentID \<Rightarrow> mgr_op \<Rightarrow> bool" where
  "concerns d (OpAdd st) = (st_DeviceID st = d)"
| "concerns d (OpRemove d') = (d' = d)"

lemma mgr_do_other: "\<not> concerns d p \<Longrightarrow> Manager_Get d (mgr_do p m) = Manager_Get d m"
  by (cases p) auto

lemma fold_mgr_inv: "manager_inv m \<Longrightarrow> manager_inv (fold mgr_do ps m)"
proof (induction ps arbitrary: m)
  case (Cons p ps)
  then show ?case by (cases p) auto
qed simp

lemma fold_mgr_do_others:
  "filter (concerns d) ps = [] \<Longrightarrow> Manager_Get d (fold mgr_do ps m) = Manager_Get d m"
  by (induction ps arbitrary: m) (auto simp: mgr_do_other split: if_splits)

text \<open>
  The manager tells the truth about each device: after any sequence of \<^verbatim>\<open>Add\<close> and
  \<^verbatim>\<open>Remove\<close> calls on a new manager, the state reported for a device is decided by the last
  call that concerns it (the added state after an \<^verbatim>\<open>Add\<close>, nothing after a \<^verbatim>\<open>Remove\<close> or
  when there was none), whatever happened to other devices in between.
\<close>

lemma manager_last_call_wins:
  "Manager_Get d (fold mgr_do ps NewManager) =
     (case rev (filter (concerns d) ps) of
        [] \<Rightarrow> None | OpAdd st # _ \<Rightarrow> Some st | OpRemove _ # _ \<Rightarrow> None)"
proof (induction ps rule: rev_induct)
  case (snoc p ps)
  then show ?case by (cases "concerns d p"; cases p) (auto simp: mgr_do_other)
qed simp

text \<open>
  \<^verbatim>\<open>List\<close> and \<^verbatim>\<open>Count\<close> agree with \<^verbatim>\<open>Get\<close>: in whatever order the map is ranged over, the
  list holds exactly the states of the connected devices, no device twice, and its length
  is the count.
\<close>

lemma manager_list_complete:
  fixes m :: Manager
  assumes "range_order (mgr_active m) ks" and "manager_inv m"
  shows "set (Manager_List ks m) = {st. \<exists>d. Manager_Get d m = Some st} \<and>
    distinct (map st_DeviceID (Manager_List ks m)) \<and>
    length (Manager_List ks m) = Manager_Count m"
proof -
  have key: "st_DeviceID (the (fmlookup (mgr_active m) k)) = k" if "k \<in> set ks" for k
    using that assms by (auto simp: manager_inv_def Manager_Get_def range_order_mem)
  then have "map st_DeviceID (Manager_List ks m) = ks"
    by (simp add: Manager_List_def range_pairs_def o_def map_idI)
  moreover have "set (Manager_List ks m) = {st. \<exists>d. Manager_Get d m = Some st}"
    using range_pairs_mem [OF assms(1)] by (force simp: Manager_List_def Manager_Get_def)
  ultimately show ?thesis
    using assms(1) range_order_length [OF assms(1)]
    by (simp add: Manager_Count_def Manager_List_def range_pairs_def range_order_def)
qed

definition demo_manager :: Manager where
  "demo_manager =
     Manager_Add \<lparr>st_DeviceID = ''d2'', st_UserID = ''u'', st_SessionID = ''s2'', st_ConnectedAt = 2\<rparr>
      (Manager_Add \<lparr>st_DeviceID = ''d1'', st_UserID = ''u'', st_SessionID = ''s1'', st_ConnectedAt = 1\<rparr>
        NewManager)"

end
