(* ===== verification/Connection_Server.thy ===== *)
theory Connection_Server
  imports Connection_Manager Proto
begin

text \<open>
  The control plane's end of the persistent connection, \<^verbatim>\<open>internal/connection/server.go\<close>. The
  token verifier is an argument (the interface \<^verbatim>\<open>TokenVerifier\<close>); \<^verbatim>\<open>authenticate\<close> is a function
  of what the stream delivers. \<^verbatim>\<open>Connect\<close> runs once per stream, concurrently with other streams
  and with \<^verbatim>\<open>Send\<close>: it is a step machine whose steps are the critical sections of the code, in
  the code's order, the deferred calls included (they run last in, first out). A stream
  handle is identified by the number of its stream, so the comparison of pointers in the
  deferred cleanup is a comparison of numbers.
\<close>

section \<open>Authentication\<close>

definition ProtocolVersion :: string where
  "ProtocolVersion = ''v1''"

definition conn_ErrDeviceNotConnected :: error where
  "conn_ErrDeviceNotConnected = New ''connection.ErrDeviceNotConnected'' ''device is not connected''"

definition io_EOF :: error where
  "io_EOF = New ''io.EOF'' ''EOF''"

text \<open>\<^verbatim>\<open>status.Error(code, msg)\<close>: the code is the error's identity.\<close>

definition statusError :: "string \<Rightarrow> string \<Rightarrow> error" where
  "statusError code msg = New (''codes.'' @ code) msg"

definition authFailure :: "string \<Rightarrow> ConnectionEnvelope" where
  "authFailure reason =
     envelope (Payload_AuthenticateResponse
       (Some \<lparr>aresp_Authenticated = False, aresp_SessionId = '''', aresp_Error = reason\<rparr>))"

definition authSuccess :: "string \<Rightarrow> ConnectionEnvelope" where
  "authSuccess sessionID =
     envelope (Payload_AuthenticateResponse
       (Some \<lparr>aresp_Authenticated = True, aresp_SessionId = sessionID, aresp_Error = ''''\<rparr>))"

type_synonym verifier = "string \<Rightarrow> error + (AgentID \<times> string)"

text \<open>
  \<open>recv\<close> is what the first \<^verbatim>\<open>Recv\<close> returns. The result pairs the envelopes the server tries to
  send before it returns (their delivery is not checked) with the outcome.
\<close>

definition authenticate ::
  "verifier \<Rightarrow> error + ConnectionEnvelope \<Rightarrow> ConnectionEnvelope list \<times> (error + (AgentID \<times> string))" where
  "authenticate verify recv =
     (case recv of
        Inl err \<Rightarrow> ([], Inl err)
      | Inr env \<Rightarrow>
        (case GetAuthenticateRequest (Some env) of
           None \<Rightarrow> ([], Inl (statusError ''InvalidArgument'' ''first message must be an authenticate request''))
         | Some req \<Rightarrow>
           (case verify (Connection_GetDeviceToken (AuthenticateRequest_GetConnection (Some req))) of
              Inl _ \<Rightarrow>
                ([authFailure ''invalid or expired device token''],
                 Inl (statusError ''Unauthenticated'' ''invalid or expired device token''))
            | Inr (deviceID, userID) \<Rightarrow>
                (let presentedID = Device_GetId (AuthenticateRequest_GetDevice (Some req)) in
                 if presentedID = '''' \<or> presentedID \<noteq> deviceID
                 then ([authFailure ''device token does not match presented device id''],
                       Inl (statusError ''Unauthenticated'' ''device token does not match presented device id''))
                 else ([], Inr (deviceID, userID))))))"

section \<open>The server's state and steps\<close>

datatype conn_pc =
    PcAuth
  | PcAuthed AgentID string
  | PcStreamSet AgentID string
  | PcTracked AgentID string string
  | PcServing AgentID string string
  | PcRemoveMgr AgentID string string "error option"
  | PcRemoveStream AgentID string string "error option"
  | PcDone "AgentID option" "error option"

datatype send_pc =
    SendLooked AgentID ConnectionEnvelope nat
  | SendReturned AgentID ConnectionEnvelope "error option"

text \<open>
  \<open>srv_streams\<close> and \<open>srv_manager\<close> are the server's fields and \<open>srv_onMessage\<close> says whether a
  handler is registered. The rest is the state of the goroutines: \<open>conns\<close> of the \<^verbatim>\<open>Connect\<close>
  calls, \<open>sends\<close> of the \<^verbatim>\<open>Send\<close> calls. \<open>out\<close> records what each stream has accepted, \<open>received\<close>
  the calls of the handler. A finished \<^verbatim>\<open>Connect\<close> keeps the device it had authenticated, and a
  \<^verbatim>\<open>Send\<close> its arguments and result.
\<close>

record Server =
  srv_streams :: "(AgentID, nat) fmap"
  srv_manager :: Manager
  srv_onMessage :: bool
  conns :: "nat \<Rightarrow> conn_pc option"
  sends :: "nat \<Rightarrow> send_pc option"
  out :: "nat \<Rightarrow> ConnectionEnvelope list"
  received :: "(AgentID \<times> ConnectionEnvelope) list"

definition NewServer :: "Manager \<Rightarrow> Server" where
  "NewServer manager =
     \<lparr>srv_streams = fmempty, srv_manager = manager, srv_onMessage = False,
      conns = (\<lambda>_. None), sends = (\<lambda>_. None), out = (\<lambda>_. []), received = []\<rparr>"

definition OnMessage :: "Server \<Rightarrow> Server" where
  "OnMessage s = s\<lparr>srv_onMessage := True\<rparr>"

text \<open>\<^verbatim>\<open>Send\<close>, its critical section: the handle to write to, or the error.\<close>

definition Send_lookup :: "Server \<Rightarrow> AgentID \<Rightarrow> error + nat" where
  "Send_lookup s deviceID =
     (case fmlookup (srv_streams s) deviceID of
        None \<Rightarrow> Inl conn_ErrDeviceNotConnected
      | Some handle \<Rightarrow> Inr handle)"

text \<open>
  \<^verbatim>\<open>streamHandle.send\<close> with the transport's answer: the stream accepts the envelope, or refuses
  it with an error.
\<close>

definition handle_send :: "nat \<Rightarrow> ConnectionEnvelope \<Rightarrow> error option \<Rightarrow> Server \<Rightarrow> Server" where
  "handle_send i env err s =
     (case err of None \<Rightarrow> s\<lparr>out := (out s)(i := out s i @ [env])\<rparr> | Some _ \<Rightarrow> s)"

abbreviation set_conn :: "nat \<Rightarrow> conn_pc \<Rightarrow> Server \<Rightarrow> Server" where
  "set_conn i pc s \<equiv> s\<lparr>conns := (conns s)(i := Some pc)\<rparr>"

abbreviation set_send :: "nat \<Rightarrow> send_pc \<Rightarrow> Server \<Rightarrow> Server" where
  "set_send k pc s \<equiv> s\<lparr>sends := (sends s)(k := Some pc)\<rparr>"

text \<open>
  The labels: which goroutine takes its next step, and what its environment answers (the
  message a stream delivers, the outcome of a transport send, a fresh session identifier,
  the time). A verifier's answer depends on the time, because tokens expire.
\<close>

datatype srv_event =
    EvOpen nat
  | EvAuthenticate nat Time "error + ConnectionEnvelope" "error option"
  | EvSetStream nat
  | EvAdd nat string Time
  | EvRespond nat "error option"
  | EvRecv nat "error + ConnectionEnvelope"
  | EvDeferRemove nat
  | EvDeferStream nat
  | EvSend nat AgentID ConnectionEnvelope
  | EvSendStream nat "error option"

fun srv_exec :: "(Time \<Rightarrow> verifier) \<Rightarrow> Server \<Rightarrow> srv_event \<Rightarrow> Server option" where
  "srv_exec verify s (EvOpen i) =
     (case conns s i of None \<Rightarrow> Some (set_conn i PcAuth s) | _ \<Rightarrow> None)"
| "srv_exec verify s (EvAuthenticate i now recv err) =
     (case conns s i of
        Some PcAuth \<Rightarrow>
          (case authenticate (verify now) recv of (msgs, res) \<Rightarrow>
             let s' = fold (\<lambda>m. handle_send i m err) msgs s in
             Some (case res of
                     Inl e \<Rightarrow> set_conn i (PcDone None (Some e)) s'
                   | Inr (deviceID, userID) \<Rightarrow> set_conn i (PcAuthed deviceID userID) s'))
      | _ \<Rightarrow> None)"
| "srv_exec verify s (EvSetStream i) =
     (case conns s i of
        Some (PcAuthed deviceID userID) \<Rightarrow>
          Some (set_conn i (PcStreamSet deviceID userID)
                  (s\<lparr>srv_streams := fmupd deviceID i (srv_streams s)\<rparr>))
      | _ \<Rightarrow> None)"
| "srv_exec verify s (EvAdd i sessionID now) =
     (case conns s i of
        Some (PcStreamSet deviceID userID) \<Rightarrow>
          Some (set_conn i (PcTracked deviceID userID sessionID)
                  (s\<lparr>srv_manager := Manager_Add
                      \<lparr>st_DeviceID = deviceID, st_UserID = userID, st_SessionID = sessionID,
                       st_ConnectedAt = now\<rparr> (srv_manager s)\<rparr>))
      | _ \<Rightarrow> None)"
| "srv_exec verify s (EvRespond i err) =
     (case conns s i of
        Some (PcTracked deviceID userID sessionID) \<Rightarrow>
          (let s' = handle_send i (authSuccess sessionID) err s in
           Some (case err of
                   None \<Rightarrow> set_conn i (PcServing deviceID userID sessionID) s'
                 | Some e \<Rightarrow> set_conn i (PcRemoveMgr deviceID userID sessionID (Some e)) s'))
      | _ \<Rightarrow> None)"
| "srv_exec verify s (EvRecv i recv) =
     (case conns s i of
        Some (PcServing deviceID userID sessionID) \<Rightarrow>
          Some (case recv of
                  Inl e \<Rightarrow> set_conn i (PcRemoveMgr deviceID userID sessionID
                             (if errors_is e io_EOF then None else Some e)) s
                | Inr env \<Rightarrow> if srv_onMessage s
                             then s\<lparr>received := received s @ [(deviceID, env)]\<rparr> else s)
      | _ \<Rightarrow> None)"
| "srv_exec verify s (EvDeferRemove i) =
     (case conns s i of
        Some (PcRemoveMgr deviceID userID sessionID res) \<Rightarrow>
          Some (set_conn i (PcRemoveStream deviceID userID sessionID res)
                  (s\<lparr>srv_manager := Manager_Remove deviceID (srv_manager s)\<rparr>))
      | _ \<Rightarrow> None)"
| "srv_exec verify s (EvDeferStream i) =
     (case conns s i of
        Some (PcRemoveStream deviceID userID sessionID res) \<Rightarrow>
          Some (set_conn i (PcDone (Some deviceID) res)
                  (if fmlookup (srv_streams s) deviceID = Some i
                   then s\<lparr>srv_streams := fmdrop deviceID (srv_streams s)\<rparr> else s))
      | _ \<Rightarrow> None)"
| "srv_exec verify s (EvSend k deviceID env) =
     (case sends s k of
        None \<Rightarrow> Some (case Send_lookup s deviceID of
                        Inl e \<Rightarrow> set_send k (SendReturned deviceID env (Some e)) s
                      | Inr i \<Rightarrow> set_send k (SendLooked deviceID env i) s)
      | _ \<Rightarrow> None)"
| "srv_exec verify s (EvSendStream k err) =
     (case sends s k of
        Some (SendLooked deviceID env i) \<Rightarrow> Some (set_send k (SendReturned deviceID env err) (handle_send i env err s))
      | _ \<Rightarrow> None)"

definition srv_step :: "(Time \<Rightarrow> verifier) \<Rightarrow> Server \<Rightarrow> srv_event \<Rightarrow> Server \<Rightarrow> bool" where
  "srv_step verify s e t \<longleftrightarrow> srv_exec verify s e = Some t"

section \<open>What the server guarantees\<close>

text \<open>The device a \<^verbatim>\<open>Connect\<close> call has authenticated, and what it has published so far.\<close>

fun conn_user :: "conn_pc \<Rightarrow> (AgentID \<times> string) option" where
  "conn_user (PcAuthed d u) = Some (d, u)"
| "conn_user (PcStreamSet d u) = Some (d, u)"
| "conn_user (PcTracked d u sid) = Some (d, u)"
| "conn_user (PcServing d u sid) = Some (d, u)"
| "conn_user (PcRemoveMgr d u sid res) = Some (d, u)"
| "conn_user (PcRemoveStream d u sid res) = Some (d, u)"
| "conn_user _ = None"

fun conn_device :: "conn_pc \<Rightarrow> AgentID option" where
  "conn_device (PcDone d res) = d"
| "conn_device pc = map_option fst (conn_user pc)"

fun conn_published :: "conn_pc \<Rightarrow> AgentID option" where
  "conn_published PcAuth = None"
| "conn_published (PcAuthed d u) = None"
| "conn_published (PcDone d res) = None"
| "conn_published pc = conn_device pc"

fun conn_tracked :: "conn_pc \<Rightarrow> (AgentID \<times> string \<times> string) option" where
  "conn_tracked (PcTracked d u sid) = Some (d, u, sid)"
| "conn_tracked (PcServing d u sid) = Some (d, u, sid)"
| "conn_tracked (PcRemoveMgr d u sid res) = Some (d, u, sid)"
| "conn_tracked _ = None"

definition conn_at :: "(nat \<Rightarrow> conn_pc option) \<Rightarrow> nat \<Rightarrow> conn_pc" where
  "conn_at c i = (case c i of None \<Rightarrow> PcAuth | Some pc \<Rightarrow> pc)"

abbreviation conn_of :: "Server \<Rightarrow> nat \<Rightarrow> conn_pc" where
  "conn_of s \<equiv> conn_at (conns s)"

lemma conn_at_upd [simp]: "conn_at (c(i \<mapsto> pc)) j = (if j = i then pc else conn_at c j)"
  by (simp add: conn_at_def)

lemma conn_of_Some: "conns s i = Some pc \<Longrightarrow> conn_of s i = pc"
  by (simp add: conn_at_def)

lemma conn_of_None: "conns s i = None \<Longrightarrow> conn_of s i = PcAuth"
  by (simp add: conn_at_def)

text \<open>Authentication accepts exactly a verified token presented for its own device.\<close>

lemma authenticate_Inr_iff:
  "snd (authenticate verify recv) = Inr (d, u) \<longleftrightarrow>
     (\<exists>env req. recv = Inr env \<and> GetAuthenticateRequest (Some env) = Some req \<and>
        verify (Connection_GetDeviceToken (AuthenticateRequest_GetConnection (Some req))) = Inr (d, u) \<and>
        Device_GetId (AuthenticateRequest_GetDevice (Some req)) = d \<and> d \<noteq> '''')"
  by (auto simp: authenticate_def Let_def split: sum.splits option.splits prod.splits if_splits)

text \<open>
  A rejected stream got at most the one failure response, and an accepted one nothing yet.
\<close>

lemma authenticate_sent:
  "fst (authenticate verify recv) \<in>
     (case snd (authenticate verify recv) of
        Inr _ \<Rightarrow> {[]}
      | Inl _ \<Rightarrow> {[], [authFailure ''invalid or expired device token''],
                  [authFailure ''device token does not match presented device id'']})"
  by (auto simp: authenticate_def Let_def split: sum.splits option.splits prod.splits if_splits)

lemma handle_send_sel [simp]:
  "srv_streams (handle_send i env err s) = srv_streams s"
  "srv_manager (handle_send i env err s) = srv_manager s"
  "srv_onMessage (handle_send i env err s) = srv_onMessage s"
  "conns (handle_send i env err s) = conns s"
  "sends (handle_send i env err s) = sends s"
  "received (handle_send i env err s) = received s"
  by (simp_all add: handle_send_def split: option.split)

lemma fold_handle_send_sel [simp]:
  "srv_streams (fold (\<lambda>m. handle_send i m err) ms s) = srv_streams s"
  "srv_manager (fold (\<lambda>m. handle_send i m err) ms s) = srv_manager s"
  "srv_onMessage (fold (\<lambda>m. handle_send i m err) ms s) = srv_onMessage s"
  "conns (fold (\<lambda>m. handle_send i m err) ms s) = conns s"
  "sends (fold (\<lambda>m. handle_send i m err) ms s) = sends s"
  "received (fold (\<lambda>m. handle_send i m err) ms s) = received s"
  by (induction ms arbitrary: s) simp_all

text \<open>
  The parts of the invariant: who is authenticated, where the handles and the manager's
  entries point, where messages went and came from.
\<close>

definition verified :: "(Time \<Rightarrow> verifier) \<Rightarrow> AgentID \<Rightarrow> string \<Rightarrow> bool" where
  "verified verify d u \<longleftrightarrow> d \<noteq> '''' \<and> (\<exists>now tok. verify now tok = Inr (d, u))"

definition auth_inv :: "(Time \<Rightarrow> verifier) \<Rightarrow> Server \<Rightarrow> bool" where
  "auth_inv verify s \<longleftrightarrow>
     (\<forall>i d u. conn_user (conn_of s i) = Some (d, u) \<longrightarrow> verified verify d u) \<and>
     (\<forall>i d. conn_device (conn_of s i) = Some d \<longrightarrow> (\<exists>u. verified verify d u)) \<and>
     (\<forall>d env. (d, env) \<in> set (received s) \<longrightarrow> (\<exists>u. verified verify d u))"

definition stream_inv :: "Server \<Rightarrow> bool" where
  "stream_inv s \<longleftrightarrow>
     (\<forall>d i. fmlookup (srv_streams s) d = Some i \<longrightarrow> conn_published (conn_of s i) = Some d)"

definition tracked_inv :: "Server \<Rightarrow> bool" where
  "tracked_inv s \<longleftrightarrow>
     (\<forall>d st. Manager_Get d (srv_manager s) = Some st \<longrightarrow>
        st_DeviceID st = d \<and>
        (\<exists>i. conn_tracked (conn_of s i) = Some (d, st_UserID st, st_SessionID st)))"

definition is_auth_response :: "ConnectionEnvelope \<Rightarrow> bool" where
  "is_auth_response env \<longleftrightarrow> GetAuthenticateResponse (Some env) \<noteq> None"

definition send_inv :: "Server \<Rightarrow> bool" where
  "send_inv s \<longleftrightarrow>
     (\<forall>k d env i. sends s k = Some (SendLooked d env i) \<longrightarrow> conn_device (conn_of s i) = Some d) \<and>
     (\<forall>i env. env \<in> set (out s i) \<longrightarrow> is_auth_response env \<or>
        (\<exists>d k. conn_device (conn_of s i) = Some d \<and> sends s k = Some (SendReturned d env None)))"

lemmas srv_inv_defs = auth_inv_def stream_inv_def tracked_inv_def send_inv_def

lemma is_auth_response_simps [simp]:
  "is_auth_response (authSuccess sid)" "is_auth_response (authFailure msg)"
  by (simp_all add: is_auth_response_def authSuccess_def authFailure_def payload_defs getter_defs)

text \<open>The only step that authenticates a device is a successful \<^verbatim>\<open>authenticate\<close>.\<close>

lemma conn_device_published: "conn_published pc = Some d \<Longrightarrow> conn_device pc = Some d"
  by (cases pc) auto


text \<open>The steps once more, as cases: what each step needs and what it makes of the state.\<close>

lemma srv_execE:
  assumes "srv_exec verify s e = Some t"
  obtains
    (opened) i where "e = EvOpen i" "conns s i = None" "t = set_conn i PcAuth s"
  | (reject) i now recv err ms x where "e = EvAuthenticate i now recv err" "conns s i = Some PcAuth"
      "authenticate (verify now) recv = (ms, Inl x)"
      "t = set_conn i (PcDone None (Some x)) (fold (\<lambda>m. handle_send i m err) ms s)"
  | (accept) i now recv err ms d u where "e = EvAuthenticate i now recv err" "conns s i = Some PcAuth"
      "authenticate (verify now) recv = (ms, Inr (d, u))"
      "t = set_conn i (PcAuthed d u) (fold (\<lambda>m. handle_send i m err) ms s)"
  | (set_stream) i d u where "e = EvSetStream i" "conns s i = Some (PcAuthed d u)"
      "t = set_conn i (PcStreamSet d u) (s\<lparr>srv_streams := fmupd d i (srv_streams s)\<rparr>)"
  | (add) i sid now d u where "e = EvAdd i sid now" "conns s i = Some (PcStreamSet d u)"
      "t = set_conn i (PcTracked d u sid) (s\<lparr>srv_manager := Manager_Add
             \<lparr>st_DeviceID = d, st_UserID = u, st_SessionID = sid, st_ConnectedAt = now\<rparr> (srv_manager s)\<rparr>)"
  | (respond) i d u sid where "e = EvRespond i None" "conns s i = Some (PcTracked d u sid)"
      "t = set_conn i (PcServing d u sid) (handle_send i (authSuccess sid) None s)"
  | (respond_fail) i x d u sid where "e = EvRespond i (Some x)" "conns s i = Some (PcTracked d u sid)"
      "t = set_conn i (PcRemoveMgr d u sid (Some x)) s"
  | (recv_end) i x d u sid where "e = EvRecv i (Inl x)" "conns s i = Some (PcServing d u sid)"
      "t = set_conn i (PcRemoveMgr d u sid (if errors_is x io_EOF then None else Some x)) s"
  | (recv_msg) i env d u sid where "e = EvRecv i (Inr env)" "conns s i = Some (PcServing d u sid)"
      "t = (if srv_onMessage s then s\<lparr>received := received s @ [(d, env)]\<rparr> else s)"
  | (remove) i d u sid res where "e = EvDeferRemove i" "conns s i = Some (PcRemoveMgr d u sid res)"
      "t = set_conn i (PcRemoveStream d u sid res) (s\<lparr>srv_manager := Manager_Remove d (srv_manager s)\<rparr>)"
  | (close) i d u sid res where "e = EvDeferStream i" "conns s i = Some (PcRemoveStream d u sid res)"
      "t = set_conn i (PcDone (Some d) res)
             (if fmlookup (srv_streams s) d = Some i
              then s\<lparr>srv_streams := fmdrop d (srv_streams s)\<rparr> else s)"
  | (send_miss) k d env where "e = EvSend k d env" "sends s k = None" "fmlookup (srv_streams s) d = None"
      "t = set_send k (SendReturned d env (Some conn_ErrDeviceNotConnected)) s"
  | (send_look) k d env i where "e = EvSend k d env" "sends s k = None" "fmlookup (srv_streams s) d = Some i"
      "t = set_send k (SendLooked d env i) s"
  | (send_stream) k err d env i where "e = EvSendStream k err" "sends s k = Some (SendLooked d env i)"
      "t = set_send k (SendReturned d env err) (handle_send i env err s)"
proof (cases e)
  case (EvOpen i)
  with assms show ?thesis by (intro opened) (auto split: option.splits)
next
  case (EvAuthenticate i now recv err)
  obtain ms res where a: "authenticate (verify now) recv = (ms, res)" by fastforce
  from assms EvAuthenticate have "conns s i = Some PcAuth" by (auto split: option.splits conn_pc.splits)
  with assms EvAuthenticate a show ?thesis
    by (cases res) (auto simp: Let_def intro: reject accept)
next
  case (EvSetStream i)
  with assms show ?thesis by (auto split: option.splits conn_pc.splits intro: set_stream)
next
  case (EvAdd i sid now)
  with assms show ?thesis by (auto split: option.splits conn_pc.splits intro: add)
next
  case (EvRespond i err)
  with assms show ?thesis
    by (cases err) (auto simp: Let_def handle_send_def split: option.splits conn_pc.splits
        intro: respond respond_fail)
next
  case (EvRecv i recv)
  with assms show ?thesis
    by (cases recv) (auto split: option.splits conn_pc.splits intro: recv_end recv_msg)
next
  case (EvDeferRemove i)
  with assms show ?thesis by (auto split: option.splits conn_pc.splits intro: remove)
next
  case (EvDeferStream i)
  with assms show ?thesis by (auto split: option.splits conn_pc.splits intro: close)
next
  case (EvSend k d env)
  with assms show ?thesis
    by (auto simp: Send_lookup_def split: option.splits intro: send_miss send_look)
next
  case (EvSendStream k err)
  with assms show ?thesis by (auto split: option.splits send_pc.splits intro: send_stream)
qed

lemma conn_device_stable:
  assumes "srv_exec verify s e = Some t" and "conn_device (conn_of s i) = Some d"
  shows "conn_device (conn_of t i) = Some d"
  using assms(1) assms(2)
  by (cases rule: srv_execE) (auto dest: conn_of_Some conn_of_None)

lemmas srv_step_dest = conn_of_Some conn_of_None

lemma authenticate_verified:
  "authenticate (verify now) recv = (ms, Inr (d, u)) \<Longrightarrow> verified verify d u"
  using authenticate_Inr_iff [of "verify now" recv d u] by (auto simp: verified_def)

lemma conn_user_step:
  assumes "srv_exec verify s e = Some t" and "conn_user (conn_of t i) = Some (d, u)"
  shows "conn_user (conn_of s i) = Some (d, u) \<or> verified verify d u"
  using assms(1)
  by (cases rule: srv_execE)
     (insert assms(2), auto dest!: srv_step_dest dest: authenticate_verified split: if_splits)

lemma conn_device_step:
  assumes "srv_exec verify s e = Some t" and "conn_device (conn_of t i) = Some d"
  shows "conn_device (conn_of s i) = Some d \<or> (\<exists>u. verified verify d u)"
  using assms(1)
  by (cases rule: srv_execE)
     (insert assms(2), auto dest!: srv_step_dest dest: authenticate_verified split: if_splits)

lemma received_step:
  assumes "srv_exec verify s e = Some t" and "(d, env) \<in> set (received t)"
  shows "(d, env) \<in> set (received s) \<or> (\<exists>i. conn_device (conn_of s i) = Some d)"
  using assms(1)
proof (cases rule: srv_execE)
  case (recv_msg i env' d' u sid)
  from this(2) have "conn_device (conn_of s i) = Some d'" by (auto dest: conn_of_Some)
  with recv_msg assms(2) show ?thesis by (auto split: if_splits)
qed (insert assms(2), auto split: if_splits)

lemma auth_inv_step:
  assumes "srv_exec verify s e = Some t" and "auth_inv verify s"
  shows "auth_inv verify t"
  using conn_user_step [OF assms(1)] conn_device_step [OF assms(1)] received_step [OF assms(1)]
    assms(2)
  unfolding auth_inv_def by metis

lemma stream_invD:
  "stream_inv s \<Longrightarrow> fmlookup (srv_streams s) d = Some i \<Longrightarrow> conn_published (conn_of s i) = Some d"
  by (simp add: stream_inv_def)

lemma stream_inv_step:
  assumes "srv_exec verify s e = Some t" and "stream_inv s"
  shows "stream_inv t"
  unfolding stream_inv_def using assms(1)
  by (cases rule: srv_execE)
     (insert assms(2), auto dest!: srv_step_dest dest: stream_invD split: if_splits)

lemma tracked_invD:
  assumes "tracked_inv s" and "Manager_Get d (srv_manager s) = Some st"
  obtains i where "st_DeviceID st = d"
    and "conn_tracked (conn_of s i) = Some (d, st_UserID st, st_SessionID st)"
  using assms by (auto simp: tracked_inv_def)

lemma tracked_inv_step:
  assumes "srv_exec verify s e = Some t" and inv: "tracked_inv s"
  shows "tracked_inv t"
  unfolding tracked_inv_def
proof (intro allI impI)
  fix d st
  assume g: "Manager_Get d (srv_manager t) = Some st"
  let ?tr = "\<lambda>s i. conn_tracked (conn_of s i) = Some (d, st_UserID st, st_SessionID st)"
  have keep: "?tr s i \<Longrightarrow> ?tr t i" for i
    using assms(1) g by (cases rule: srv_execE) (auto dest!: srv_step_dest split: if_splits)
  show "st_DeviceID st = d \<and> (\<exists>i. ?tr t i)"
  proof (cases "Manager_Get d (srv_manager s) = Some st")
    case True
    from inv this obtain i where "st_DeviceID st = d" "?tr s i" by (rule tracked_invD)
    with keep show ?thesis by blast
  next
    case False
    with assms(1) g show ?thesis by (cases rule: srv_execE) (auto split: if_splits)
  qed
qed

lemma set_out_handle_send:
  "env \<in> set (out (handle_send i m err s) j) \<longleftrightarrow>
     env \<in> set (out s j) \<or> j = i \<and> env = m \<and> err = None"
  by (auto simp: handle_send_def split: option.splits)

lemma set_out_fold_handle_send:
  "env \<in> set (out (fold (\<lambda>m. handle_send i m err) ms s) j) \<Longrightarrow> env \<in> set (out s j) \<or> env \<in> set ms"
proof (induction ms arbitrary: s)
  case (Cons m ms)
  from Cons.IH [of "handle_send i m err s"] Cons.prems show ?case by (auto simp: set_out_handle_send)
qed simp

lemma authenticate_sends_responses:
  assumes "authenticate verify recv = (ms, res)" and "env \<in> set ms"
  shows "is_auth_response env"
  using authenticate_sent [of verify recv] assms by (auto split: sum.splits)

text \<open>What a stream accepted, it accepted as an authentication response or from a \<^verbatim>\<open>Send\<close>.\<close>

lemma out_step:
  assumes "srv_exec verify s e = Some t" and "env \<in> set (out t i)"
  shows "env \<in> set (out s i) \<or> is_auth_response env \<or>
    (\<exists>k d. sends s k = Some (SendLooked d env i) \<and> sends t k = Some (SendReturned d env None))"
  using assms(1)
proof (cases rule: srv_execE)
  case reject
  with assms(2) show ?thesis
    by (auto dest!: set_out_fold_handle_send authenticate_sends_responses)
next
  case accept
  with assms(2) show ?thesis
    by (auto dest!: set_out_fold_handle_send authenticate_sends_responses)
next
  case send_stream
  with assms(2) show ?thesis by (auto simp: set_out_handle_send)
qed (insert assms(2), auto simp: set_out_handle_send split: if_splits)

lemma SendReturned_stable:
  "srv_exec verify s e = Some t \<Longrightarrow> sends s k = Some (SendReturned d env r) \<Longrightarrow>
   sends t k = Some (SendReturned d env r)"
  by (erule srv_execE) auto

lemma SendLooked_step:
  assumes "srv_exec verify s e = Some t" and "sends t k = Some (SendLooked d env i)"
  shows "sends s k = Some (SendLooked d env i) \<or> fmlookup (srv_streams s) d = Some i"
  using assms(1) by (cases rule: srv_execE) (insert assms(2), auto split: if_splits)

lemma send_inv_step:
  assumes step: "srv_exec verify s e = Some t" and str: "stream_inv s" and inv: "send_inv s"
  shows "send_inv t"
  unfolding send_inv_def
proof (intro conjI allI impI)
  fix k d env i
  assume "sends t k = Some (SendLooked d env i)"
  from SendLooked_step [OF step this] have "conn_device (conn_of s i) = Some d"
    using inv stream_invD [OF str] conn_device_published by (auto simp: send_inv_def)
  with step show "conn_device (conn_of t i) = Some d" by (rule conn_device_stable)
next
  fix i env
  assume "env \<in> set (out t i)"
  from out_step [OF step this] inv
  have "is_auth_response env \<or> (\<exists>d k. conn_device (conn_of s i) = Some d \<and>
      (sends s k = Some (SendReturned d env None) \<or> sends t k = Some (SendReturned d env None)))"
    unfolding send_inv_def by blast
  then show "is_auth_response env \<or>
      (\<exists>d k. conn_device (conn_of t i) = Some d \<and> sends t k = Some (SendReturned d env None))"
    using conn_device_stable [OF step] SendReturned_stable [OF step] by blast
qed

text \<open>
  A server as \<^verbatim>\<open>cmd/server\<close> builds it, over an empty manager, with or without a handler.
\<close>

definition srv_init :: "bool \<Rightarrow> Server" where
  "srv_init h = (if h then OnMessage (NewServer NewManager) else NewServer NewManager)"

definition srv_inv :: "(Time \<Rightarrow> verifier) \<Rightarrow> Server \<Rightarrow> bool" where
  "srv_inv verify s \<longleftrightarrow> auth_inv verify s \<and> stream_inv s \<and> tracked_inv s \<and> send_inv s"

lemma srv_init_sel [simp]:
  "srv_streams (srv_init h) = fmempty" "srv_manager (srv_init h) = NewManager"
  "srv_onMessage (srv_init h) = h" "conns (srv_init h) = (\<lambda>_. None)"
  "sends (srv_init h) = (\<lambda>_. None)" "out (srv_init h) = (\<lambda>_. [])" "received (srv_init h) = []"
  by (simp_all add: srv_init_def NewServer_def OnMessage_def)

interpretation srv: inductive_invariant "srv_step verify" "srv_init h" "srv_inv verify"
  for verify h
proof unfold_locales
  show "srv_inv verify (srv_init h)"
    by (simp add: srv_inv_def srv_inv_defs conn_at_def)
next
  fix s e t
  assume "srv_inv verify s" and "srv_step verify s e t"
  then show "srv_inv verify t"
    using auth_inv_step stream_inv_step tracked_inv_step send_inv_step
    unfolding srv_inv_def srv_step_def by blast
qed

text \<open>
  What the server asks of a \<^verbatim>\<open>TokenVerifier\<close>: an accepted token names a device and a user.
\<close>

locale token_verifier =
  fixes verify :: "Time \<Rightarrow> verifier"
  assumes verify_nonempty: "verify now tok = Inr (d, u) \<Longrightarrow> d \<noteq> '''' \<and> u \<noteq> ''''"
begin

lemma manager_identities:
  assumes "reachable (srv_step verify) (srv_init h) s"
    and "Manager_Get d (srv_manager s) = Some st"
  shows "d \<noteq> '''' \<and> st_UserID st \<noteq> '''' \<and> (\<exists>now tok. verify now tok = Inr (d, st_UserID st))"
proof -
  from srv.reachable_inv [OF assms(1)] have inv: "srv_inv verify s" .
  then obtain i where "conn_tracked (conn_of s i) = Some (d, st_UserID st, st_SessionID st)"
    using tracked_invD assms(2) unfolding srv_inv_def by metis
  then have "conn_user (conn_of s i) = Some (d, st_UserID st)" by (cases "conn_of s i") auto
  with inv have "verified verify d (st_UserID st)" by (auto simp: srv_inv_def auth_inv_def)
  with verify_nonempty show ?thesis by (auto simp: verified_def)
qed

end

text \<open>
  \<^bold>\<open>C4.\<close> Commands reach only the device they are addressed to, over streams that have proved
  who they are: however the calls of \<^verbatim>\<open>Connect\<close> and \<^verbatim>\<open>Send\<close> interleave, every envelope the
  transport accepted on a stream is either an authentication response or one that a \<^verbatim>\<open>Send\<close>
  addressed to the device this stream authenticated as, with a token the verifier accepted
  for it.
\<close>

theorem send_only_to_addressee:
  assumes "reachable (srv_step verify) (srv_init h) s" and "env \<in> set (out s i)"
    and "\<not> is_auth_response env"
  shows "\<exists>d k u now tok. conn_device (conn_of s i) = Some d \<and>
    sends s k = Some (SendReturned d env None) \<and> d \<noteq> '''' \<and> verify now tok = Inr (d, u)"
proof -
  from srv.reachable_inv [OF assms(1)] have inv: "auth_inv verify s" "send_inv s"
    by (simp_all add: srv_inv_def)
  from inv(2) assms(2,3) obtain d k where
    "conn_device (conn_of s i) = Some d" "sends s k = Some (SendReturned d env None)"
    unfolding send_inv_def by blast
  with inv(1) show ?thesis unfolding auth_inv_def verified_def by blast
qed

text \<open>
  The manager never reports a connection that is gone or was never authenticated: in
  every reachable state an entry for a device belongs to a \<^verbatim>\<open>Connect\<close> call for this device
  that has not yet run its deferred removal, with the same user and session, and this user
  and device are the ones a token was verified for. The same holds of the messages handed
  to the incoming handler: their device was authenticated.
\<close>

lemma manager_reports_live_sessions:
  assumes "reachable (srv_step verify) (srv_init h) s"
  shows "(\<forall>d st. Manager_Get d (srv_manager s) = Some st \<longrightarrow> st_DeviceID st = d \<and>
      (\<exists>i. conn_tracked (conn_of s i) = Some (d, st_UserID st, st_SessionID st)) \<and>
      verified verify d (st_UserID st)) \<and>
    (\<forall>(d, env) \<in> set (received s). \<exists>u. verified verify d u)"
proof -
  from srv.reachable_inv [OF assms] have inv: "auth_inv verify s" "tracked_inv s"
    by (simp_all add: srv_inv_def)
  have user: "conn_user pc = Some (d, u)" if "conn_tracked pc = Some (d, u, sid)" for pc d u sid
    using that by (cases pc) auto
  from inv user show ?thesis unfolding auth_inv_def tracked_inv_def by blast
qed

section \<open>Sessions that overlap and sessions that do not\<close>

text \<open>
  The step relation without overlap: a stream registers its handle only when no other
  \<^verbatim>\<open>Connect\<close> call for the same device is between its own registration and its clean-up.
\<close>

definition srv_step_excl :: "(Time \<Rightarrow> verifier) \<Rightarrow> Server \<Rightarrow> srv_event \<Rightarrow> Server \<Rightarrow> bool" where
  "srv_step_excl verify s e t \<longleftrightarrow> srv_step verify s e t \<and>
     (\<forall>i d u. e = EvSetStream i \<longrightarrow> conns s i = Some (PcAuthed d u) \<longrightarrow>
        (\<forall>j. conn_published (conn_of s j) \<noteq> Some d))"

definition excl_inv :: "Server \<Rightarrow> bool" where
  "excl_inv s \<longleftrightarrow>
     (\<forall>d i. conn_published (conn_of s i) = Some d \<longleftrightarrow> fmlookup (srv_streams s) d = Some i) \<and>
     (\<forall>i d u sid. conn_tracked (conn_of s i) = Some (d, u, sid) \<longrightarrow>
        (\<exists>st. Manager_Get d (srv_manager s) = Some st \<and> st_UserID st = u \<and> st_SessionID st = sid)) \<and>
     tracked_inv s"

lemma conn_tracked_published: "conn_tracked pc = Some (d, u, sid) \<Longrightarrow> conn_published pc = Some d"
  by (cases pc) auto

lemma excl_published_step:
  assumes "srv_step_excl verify s e t"
    and inv: "\<And>d i. conn_published (conn_of s i) = Some d \<longleftrightarrow> fmlookup (srv_streams s) d = Some i"
  shows "conn_published (conn_of t i) = Some d \<longleftrightarrow> fmlookup (srv_streams t) d = Some i"
proof -
  from assms(1) have step: "srv_exec verify s e = Some t" by (simp add: srv_step_excl_def srv_step_def)
  from step show ?thesis
  proof (cases rule: srv_execE)
    case (set_stream j d' u)
    with assms(1) have free: "\<And>j. conn_published (conn_of s j) \<noteq> Some d'"
      by (auto simp: srv_step_excl_def)
    from set_stream have "conn_published (conn_of s j) = None" by (auto dest: conn_of_Some)
    with set_stream free [of i] inv [of j d] inv [of i d] show ?thesis by (auto split: if_splits)
  next
    case (close j d' u sid res)
    then have pub: "conn_published (conn_of s j) = Some d'" by (auto dest: conn_of_Some)
    with inv have "fmlookup (srv_streams s) d' = Some j" by blast
    with pub close inv [of j d] inv [of i d] show ?thesis by (auto split: if_splits)
  qed (insert inv [of i d], auto dest!: srv_step_dest split: if_splits)
qed

lemma excl_tracked_step:
  assumes "srv_exec verify s e = Some t"
    and pub: "\<And>d i. conn_published (conn_of s i) = Some d \<longleftrightarrow> fmlookup (srv_streams s) d = Some i"
    and tracked: "\<And>i d u sid. conn_tracked (conn_of s i) = Some (d, u, sid) \<Longrightarrow>
        \<exists>st. Manager_Get d (srv_manager s) = Some st \<and> st_UserID st = u \<and> st_SessionID st = sid"
    and t: "conn_tracked (conn_of t i) = Some (d, u, sid)"
  shows "\<exists>st. Manager_Get d (srv_manager t) = Some st \<and> st_UserID st = u \<and> st_SessionID st = sid"
proof -
  have other: "d' \<noteq> d" if "conn_published (conn_of s j) = Some d'" "j \<noteq> i"
      "conn_tracked (conn_of s i) = Some (d, u, sid)" for j d'
    using that pub [of j d] pub [of i d] by (auto dest: conn_tracked_published)
  from assms(1) show ?thesis
  proof (cases rule: srv_execE)
    case (add j sid' now d' u')
    then have "conn_published (conn_of s j) = Some d'" by (auto dest: conn_of_Some)
    with add t tracked [of i d u sid] other [of j d'] show ?thesis by (auto split: if_splits)
  next
    case (remove j d' u' sid' res)
    then have "conn_published (conn_of s j) = Some d'" by (auto dest: conn_of_Some)
    with remove t tracked [of i d u sid] other [of j d'] show ?thesis by (auto split: if_splits)
  qed (insert t tracked [of i d u sid], auto dest!: srv_step_dest split: if_splits)
qed

interpretation excl: inductive_invariant "srv_step_excl verify" "srv_init h" excl_inv
  for verify h
proof unfold_locales
  show "excl_inv (srv_init h)"
    by (simp add: excl_inv_def tracked_inv_def conn_at_def)
next
  fix s e t
  assume inv: "excl_inv s" and step: "srv_step_excl verify s e t"
  then have exec: "srv_exec verify s e = Some t" by (simp add: srv_step_excl_def srv_step_def)
  from inv have "\<And>d i. conn_published (conn_of s i) = Some d \<longleftrightarrow> fmlookup (srv_streams s) d = Some i"
    and "\<And>i d u sid. conn_tracked (conn_of s i) = Some (d, u, sid) \<Longrightarrow>
        \<exists>st. Manager_Get d (srv_manager s) = Some st \<and> st_UserID st = u \<and> st_SessionID st = sid"
    and "tracked_inv s"
    by (simp_all add: excl_inv_def)
  with excl_published_step [OF step] excl_tracked_step [OF exec] tracked_inv_step [OF exec]
  show "excl_inv t" unfolding excl_inv_def by blast
qed

text \<open>
  \<^bold>\<open>C17.\<close> Without overlapping sessions the two registries agree with reality: as long as a
  device's new stream registers only after the old one has cleaned up, a device is reported
  connected exactly while a \<^verbatim>\<open>Connect\<close> call tracks it, with this call's user and session,
  and \<^verbatim>\<open>Send\<close> finds exactly the handle of the one call that has registered for the device.
\<close>

theorem exclusive_sessions_agree:
  assumes "reachable (srv_step_excl verify) (srv_init h) s"
  shows "(Manager_IsConnected d (srv_manager s) \<longleftrightarrow>
      (\<exists>i u sid. conn_tracked (conn_of s i) = Some (d, u, sid))) \<and>
    (\<forall>i. Send_lookup s d = Inr i \<longleftrightarrow> conn_published (conn_of s i) = Some d) \<and>
    (Manager_IsConnected d (srv_manager s) \<longrightarrow> (\<exists>i. Send_lookup s d = Inr i))"
proof -
  from excl.reachable_inv [OF assms] have inv: "excl_inv s" .
  then have conn: "Manager_IsConnected d (srv_manager s) \<longleftrightarrow>
      (\<exists>i u sid. conn_tracked (conn_of s i) = Some (d, u, sid))"
    unfolding excl_inv_def tracked_inv_def Manager_IsConnected_iff by fast
  from inv have look: "Send_lookup s d = Inr i \<longleftrightarrow> conn_published (conn_of s i) = Some d" for i
    unfolding excl_inv_def Send_lookup_def by (auto split: option.splits)
  from conn look show ?thesis by (blast dest: conn_tracked_published)
qed

section \<open>Runs\<close>

text \<open>The first message of an agent that presents a device and a token.\<close>

definition auth_request :: "AgentID \<Rightarrow> string \<Rightarrow> ConnectionEnvelope" where
  "auth_request d tok =
     envelope (Payload_AuthenticateRequest (Some
       \<lparr>areq_Connection = Some \<lparr>pbc_DeviceToken = tok, pbc_ProtocolVersion = ProtocolVersion\<rparr>,
        areq_Device = Some \<lparr>pbd_Id = d, pbd_Hostname = '''', pbd_OperatingSystem = '''',
          pbd_Architecture = '''', pbd_DeployosVersion = ''''\<rparr>\<rparr>))"

lemma authenticate_auth_request:
  "verify tok = Inr (d, u) \<Longrightarrow> d \<noteq> '''' \<Longrightarrow> authenticate verify (Inr (auth_request d tok)) = ([], Inr (d, u))"
  by (simp add: authenticate_def auth_request_def getter_defs)

lemma run_srv_iff: "run (srv_step verify) s es t \<longleftrightarrow> run_exec (srv_exec verify) s es = Some t"
  unfolding srv_step_def by (rule run_exec_iff)

text \<open>A stream from its opening to serving, and its end.\<close>

definition connect_events :: "nat \<Rightarrow> Time \<Rightarrow> AgentID \<Rightarrow> string \<Rightarrow> string \<Rightarrow> srv_event list" where
  "connect_events i now d tok sid =
     [EvOpen i, EvAuthenticate i now (Inr (auth_request d tok)) None, EvSetStream i,
      EvAdd i sid now, EvRespond i None]"

definition disconnect_events :: "nat \<Rightarrow> error \<Rightarrow> srv_event list" where
  "disconnect_events i e = [EvRecv i (Inl e), EvDeferRemove i, EvDeferStream i]"

lemmas srv_run_defs = connect_events_def disconnect_events_def authenticate_auth_request Send_lookup_def
  handle_send_def conn_at_def

text \<open>
  \<^bold>\<open>C18.\<close> A reconnecting device can be hidden while it is reachable: when the new stream of a
  device registers before the old stream's \<^verbatim>\<open>Connect\<close> returns, the old call's deferred
  \<^verbatim>\<open>manager.Remove\<close>, which unlike the clean-up of the handle does not check whose entry it
  removes, deletes the new session's entry. The new stream is then served, \<^verbatim>\<open>Send\<close> still
  reaches the device through it, and the manager reports the device as not connected.
\<close>

theorem overlapping_sessions_hide_device:
  assumes "verify now tok = Inr (d, u)" and "d \<noteq> ''''"
  shows "\<exists>s. run (srv_step verify) (srv_init h)
      (connect_events 0 now d tok sid0 @ connect_events 1 now d tok sid1 @ disconnect_events 0 e) s \<and>
    conn_of s 1 = PcServing d u sid1 \<and> Send_lookup s d = Inr 1 \<and>
    \<not> Manager_IsConnected d (srv_manager s)"
  unfolding run_srv_iff using assms
  by (simp add: srv_run_defs Manager_IsConnected_iff)

text \<open>
  The authentication response need not be the first message of a stream: the handle is
  published before the response is sent, so a \<^verbatim>\<open>Send\<close> that runs in between puts its envelope
  on the stream first.
\<close>

lemma send_before_authenticate_response:
  assumes "verify now tok = Inr (d, u)" and "d \<noteq> ''''"
  shows "\<exists>es s. run (srv_step verify) (srv_init h) es s \<and> conn_of s 0 = PcServing d u sid \<and>
    out s 0 = [env, authSuccess sid] \<and> Manager_IsConnected d (srv_manager s)"
proof -
  let ?es = "[EvOpen 0, EvAuthenticate 0 now (Inr (auth_request d tok)) None, EvSetStream 0,
    EvSend 0 d env, EvSendStream 0 None, EvAdd 0 sid now, EvRespond 0 None]"
  have "\<exists>s. run (srv_step verify) (srv_init h) ?es s \<and> conn_of s 0 = PcServing d u sid \<and>
      out s 0 = [env, authSuccess sid] \<and> Manager_IsConnected d (srv_manager s)"
    unfolding run_srv_iff using assms by (simp add: srv_run_defs manager_defs)
  then show ?thesis by blast
qed

section \<open>A concrete server\<close>

definition demo_verify :: "Time \<Rightarrow> verifier" where
  "demo_verify now tok =
     (if tok = ''tok'' \<and> now < 100 then Inr (''dev'', ''user'') else Inl (anon ''bad token''))"

definition demo_command :: ConnectionEnvelope where
  "demo_command = envelope (Payload_CommandRequest
     (Some \<lparr>cmd_Id = ''c1'', cmd_Kind = ''PING'', cmd_Arguments = None\<rparr>))"

definition demo_run :: "srv_event list" where
  "demo_run = connect_events 0 5 ''dev'' ''tok'' ''sess'' @ [EvSend 0 ''dev'' demo_command, EvSendStream 0 None]"

definition demo_server :: Server where
  "demo_server = (case run_exec (srv_exec demo_verify) (srv_init True) demo_run of
     Some s \<Rightarrow> s | None \<Rightarrow> srv_init True)"

lemma demo_verify_ok: "demo_verify 5 ''tok'' = Inr (''dev'', ''user'')"
  by (simp add: demo_verify_def)

lemma demo_server_run:
  "run_exec (srv_exec demo_verify) (srv_init True) demo_run = Some demo_server"
  "out demo_server 0 = [authSuccess ''sess'', demo_command]"
  "conn_of demo_server 0 = PcServing ''dev'' ''user'' ''sess''"
  by (simp_all add: demo_server_def demo_run_def srv_run_defs demo_verify_ok)

lemma demo_server_reachable: "reachable (srv_step demo_verify) (srv_init True) demo_server"
  by (rule reachableI, unfold run_srv_iff) (rule demo_server_run)

lemma demo_server_reachable_excl:
  "reachable (srv_step_excl demo_verify) (srv_init True) demo_server"
proof -
  have "run (srv_step_excl demo_verify) (srv_init True) demo_run demo_server"
    by (simp add: run_Cons_iff demo_run_def srv_run_defs srv_step_excl_def srv_step_def
        demo_verify_ok demo_server_def)
  then show ?thesis by (rule reachableI)
qed

theorem send_only_to_addressee_witness:
  "demo_command \<in> set (out demo_server 0) \<and>
   (\<exists>d k u now tok. conn_device (conn_of demo_server 0) = Some d \<and>
      sends demo_server k = Some (SendReturned d demo_command None) \<and> d \<noteq> '''' \<and>
      demo_verify now tok = Inr (d, u))"
proof
  show mem: "demo_command \<in> set (out demo_server 0)" by (simp add: demo_server_run)
  have "\<not> is_auth_response demo_command" by (simp add: is_auth_response_def demo_command_def)
  with demo_server_reachable mem
  show "\<exists>d k u now tok. conn_device (conn_of demo_server 0) = Some d \<and>
      sends demo_server k = Some (SendReturned d demo_command None) \<and> d \<noteq> '''' \<and>
      demo_verify now tok = Inr (d, u)"
    by (rule send_only_to_addressee)
qed

theorem exclusive_sessions_agree_witness:
  "Manager_IsConnected ''dev'' (srv_manager demo_server) \<and> (\<exists>i. Send_lookup demo_server ''dev'' = Inr i)"
proof -
  have "conn_tracked (conn_of demo_server 0) = Some (''dev'', ''user'', ''sess'')"
    by (simp add: demo_server_run)
  then show ?thesis using exclusive_sessions_agree [OF demo_server_reachable_excl, of "''dev''"] by blast
qed

theorem overlapping_sessions_hide_device_witness:
  "\<exists>s. run (srv_step demo_verify) (srv_init True)
      (connect_events 0 5 ''dev'' ''tok'' ''a'' @ connect_events 1 5 ''dev'' ''tok'' ''b'' @
       disconnect_events 0 io_EOF) s \<and>
    conn_of s 1 = PcServing ''dev'' ''user'' ''b'' \<and> Send_lookup s ''dev'' = Inr 1 \<and>
    \<not> Manager_IsConnected ''dev'' (srv_manager s)"
  by (rule overlapping_sessions_hide_device) (simp_all add: demo_verify_ok)

end
