(* ===== verification/Device_Tokens.thy ===== *)
theory Device_Tokens
  imports Devices Connection_Server
begin

text \<open>
  Device tokens, \<^verbatim>\<open>internal/devices/token.go\<close>: issuing and verifying the JWT that identifies a
  device and its owner. The JWT library is an argument (\<open>jwt\<close>), with what the code relies on
  stated in \<open>jwt_ok\<close>; the clock is an argument of each call. The verifier implements the
  \<^verbatim>\<open>TokenVerifier\<close> interface of the connection server.
\<close>

section \<open>token.go\<close>

definition dev_ErrInvalidToken :: error where
  "dev_ErrInvalidToken = New ''devices.ErrInvalidToken'' ''invalid or expired device token''"

text \<open>The claims; a registered claim that is absent is \<^const>\<open>None\<close> or empty.\<close>

record deviceClaims =
  cl_UserID :: string
  cl_Subject :: string
  cl_IssuedAt :: "Time option"
  cl_ExpiresAt :: "Time option"

datatype signing_method = SigningMethodHMAC string | OtherMethod string

fun method_alg :: "signing_method \<Rightarrow> string" where
  "method_alg (SigningMethodHMAC a) = a"
| "method_alg (OtherMethod a) = a"

record jwt_token =
  tok_Claims :: deviceClaims
  tok_Valid :: bool

text \<open>
  The library: \<^verbatim>\<open>NewNumericDate\<close>, \<^verbatim>\<open>NewWithClaims(HS256, claims).SignedString(key)\<close>,
  \<^verbatim>\<open>ParseWithClaims\<close> at a time with a key function, and the method a token's header names.
\<close>

record jwt =
  jwt_NewNumericDate :: "Time \<Rightarrow> Time"
  jwt_SignedString :: "string \<Rightarrow> deviceClaims \<Rightarrow> error + string"
  jwt_ParseWithClaims :: "Time \<Rightarrow> string \<Rightarrow> (signing_method \<Rightarrow> error + string) \<Rightarrow> error + jwt_token"
  jwt_method :: "string \<Rightarrow> signing_method"

record JWTTokenIssuer =
  jti_secret :: string
  jti_ttl :: int

definition NewJWTTokenIssuer :: "string \<Rightarrow> int \<Rightarrow> JWTTokenIssuer" where
  "NewJWTTokenIssuer secret ttl = \<lparr>jti_secret = secret, jti_ttl = ttl\<rparr>"

definition claims_of :: "jwt \<Rightarrow> Time \<Rightarrow> Time \<Rightarrow> Device \<Rightarrow> deviceClaims" where
  "claims_of lib now expiresAt device =
     \<lparr>cl_UserID = dev_UserID device, cl_Subject = dev_ID device,
      cl_IssuedAt = Some (jwt_NewNumericDate lib now),
      cl_ExpiresAt = Some (jwt_NewNumericDate lib expiresAt)\<rparr>"

definition Issue :: "jwt \<Rightarrow> Time \<Rightarrow> JWTTokenIssuer \<Rightarrow> Device \<Rightarrow> error + (string \<times> Time)" where
  "Issue lib now j device =
     (let expiresAt = now + jti_ttl j in
      case jwt_SignedString lib (jti_secret j) (claims_of lib now expiresAt device) of
        Inl err \<Rightarrow> Inl (Wrapf ''signing device token: '' err '''')
      | Inr signedString \<Rightarrow> Inr (signedString, expiresAt))"

definition keyfunc :: "JWTTokenIssuer \<Rightarrow> signing_method \<Rightarrow> error + string" where
  "keyfunc j m =
     (case m of
        SigningMethodHMAC _ \<Rightarrow> Inr (jti_secret j)
      | OtherMethod a \<Rightarrow> Inl (anon (''unexpected signing method: '' @ a)))"

definition Verify :: "jwt \<Rightarrow> JWTTokenIssuer \<Rightarrow> Time \<Rightarrow> verifier" where
  "Verify lib j now tokenString =
     (case jwt_ParseWithClaims lib now tokenString (keyfunc j) of
        Inl _ \<Rightarrow> Inl dev_ErrInvalidToken
      | Inr token \<Rightarrow>
          (if \<not> tok_Valid token then Inl dev_ErrInvalidToken
           else (let claims = tok_Claims token in
                 if cl_Subject claims = '''' \<or> cl_UserID claims = '''' then Inl dev_ErrInvalidToken
                 else Inr (cl_Subject claims, cl_UserID claims))))"

section \<open>What the code relies on of the library\<close>

text \<open>
  \<^item> numeric dates are truncated to seconds;
  \<^item> a signed string names the HS256 method, and parsing it with a key function that returns
    the signing key gives the signed claims as a valid token, before their expiry;
  \<^item> parsing a token after the expiry of its claims fails;
  \<^item> parsing fails when the key function refuses the token's method.
\<close>

definition jwt_ok :: "jwt \<Rightarrow> bool" where
  "jwt_ok lib \<longleftrightarrow>
     (\<forall>t. jwt_NewNumericDate lib t \<le> t \<and> t - second < jwt_NewNumericDate lib t) \<and>
     (\<forall>key claims tok exp now kf.
        jwt_SignedString lib key claims = Inr tok \<and> cl_ExpiresAt claims = Some exp \<longrightarrow>
          jwt_method lib tok = SigningMethodHMAC ''HS256'' \<and>
          (kf (SigningMethodHMAC ''HS256'') = Inr key \<and> now < exp \<longrightarrow>
             jwt_ParseWithClaims lib now tok kf = Inr \<lparr>tok_Claims = claims, tok_Valid = True\<rparr>) \<and>
          (exp \<le> now \<longrightarrow> (\<exists>e. jwt_ParseWithClaims lib now tok kf = Inl e))) \<and>
     (\<forall>tok now kf e. kf (jwt_method lib tok) = Inl e \<longrightarrow>
        (\<exists>e'. jwt_ParseWithClaims lib now tok kf = Inl e'))"

lemma jwt_ok_date:
  "jwt_ok lib \<Longrightarrow> jwt_NewNumericDate lib t \<le> t \<and> t - second < jwt_NewNumericDate lib t"
  unfolding jwt_ok_def by blast

lemma jwt_ok_signed:
  assumes "jwt_ok lib" and "jwt_SignedString lib key claims = Inr tok" and "cl_ExpiresAt claims = Some exp"
  shows "now < exp \<Longrightarrow> kf (SigningMethodHMAC ''HS256'') = Inr key \<Longrightarrow>
      jwt_ParseWithClaims lib now tok kf = Inr \<lparr>tok_Claims = claims, tok_Valid = True\<rparr>"
    and "exp \<le> now \<Longrightarrow> \<exists>e. jwt_ParseWithClaims lib now tok kf = Inl e"
  using assms unfolding jwt_ok_def by blast+

lemma jwt_ok_refused:
  "jwt_ok lib \<Longrightarrow> kf (jwt_method lib tok) = Inl e \<Longrightarrow> \<exists>e'. jwt_ParseWithClaims lib now tok kf = Inl e'"
  unfolding jwt_ok_def by blast

section \<open>Properties\<close>

lemma Verify_Inr_nonempty: "Verify lib j now tok = Inr (d, u) \<Longrightarrow> d \<noteq> '''' \<and> u \<noteq> ''''"
  by (auto simp: Verify_def Let_def split: sum.splits if_splits)

lemma Verify_Inl: "Verify lib j now tok = Inl e \<Longrightarrow> e = dev_ErrInvalidToken"
  by (auto simp: Verify_def Let_def split: sum.splits if_splits)

text \<open>The JWT issuer is a token verifier for the connection server.\<close>

interpretation jwt_verifier: token_verifier "Verify lib j"
  for lib j
  by unfold_locales (rule Verify_Inr_nonempty)

lemma issued_token_lifetime:
  assumes "jwt_ok lib" and "Issue lib now j d = Inr (tok, expiresAt)"
    and "dev_ID d \<noteq> ''''" and "dev_UserID d \<noteq> ''''"
  shows "\<exists>exp. exp \<le> expiresAt \<and> expiresAt < exp + second \<and> expiresAt = now + jti_ttl j \<and>
    (\<forall>t. Verify lib j t tok = (if t < exp then Inr (dev_ID d, dev_UserID d) else Inl dev_ErrInvalidToken))"
proof -
  let ?c = "claims_of lib now expiresAt d" and ?exp = "jwt_NewNumericDate lib expiresAt"
  from assms(2) have ex: "expiresAt = now + jti_ttl j"
    and s: "jwt_SignedString lib (jti_secret j) ?c = Inr tok"
    by (auto simp: Issue_def Let_def split: sum.splits)
  have c: "cl_ExpiresAt ?c = Some ?exp" "cl_Subject ?c = dev_ID d" "cl_UserID ?c = dev_UserID d"
    by (simp_all add: claims_of_def)
  have "Verify lib j t tok = (if t < ?exp then Inr (dev_ID d, dev_UserID d) else Inl dev_ErrInvalidToken)" for t
  proof (cases "t < ?exp")
    case True
    then have "jwt_ParseWithClaims lib t tok (keyfunc j) = Inr \<lparr>tok_Claims = ?c, tok_Valid = True\<rparr>"
      by (rule jwt_ok_signed(1) [OF assms(1) s c(1)]) (simp add: keyfunc_def)
    with True c assms(3,4) show ?thesis by (simp add: Verify_def)
  next
    case False
    then have "?exp \<le> t" by simp
    from jwt_ok_signed(2) [OF assms(1) s c(1) this, of "keyfunc j"] False show ?thesis by (auto simp: Verify_def)
  qed
  with jwt_ok_date [OF assms(1), of expiresAt] ex show ?thesis by (intro exI [of _ ?exp]) auto
qed

text \<open>
  \<^bold>\<open>C23.\<close> A device token works exactly for its lifetime: a token issued for a device is verified
  as this device and its owner at every time before its expiry (the time of issue plus the
  configured lifetime, cut to whole seconds), and is refused from then on; the expiry that
  is reported to the agent is less than a second after the one that is enforced.
\<close>

theorem token_lifetime:
  assumes "jwt_ok lib" and "Issue lib now j d = Inr (tok, expiresAt)"
    and "dev_ID d \<noteq> ''''" and "dev_UserID d \<noteq> ''''"
  shows "\<exists>exp. exp \<le> expiresAt \<and> expiresAt < exp + second \<and> expiresAt = now + jti_ttl j \<and>
    (\<forall>t. Verify lib j t tok = (if t < exp then Inr (dev_ID d, dev_UserID d) else Inl dev_ErrInvalidToken))"
  by (rule issued_token_lifetime [OF assms])

text \<open>
  \<^bold>\<open>C24.\<close> The verifier accepts nothing but tokens signed with an HMAC method whose claims name both
  a device and a user, and every refusal is the same \<^verbatim>\<open>ErrInvalidToken\<close>: no error of the
  library leaks.
\<close>

theorem verify_sound:
  assumes "jwt_ok lib"
  shows "(case Verify lib j now tok of
      Inl e \<Rightarrow> e = dev_ErrInvalidToken
    | Inr (d, u) \<Rightarrow> d \<noteq> '''' \<and> u \<noteq> '''' \<and> (\<exists>a. jwt_method lib tok = SigningMethodHMAC a) \<and>
        (\<exists>token. jwt_ParseWithClaims lib now tok (keyfunc j) = Inr token \<and> tok_Valid token \<and>
           cl_Subject (tok_Claims token) = d \<and> cl_UserID (tok_Claims token) = u))"
proof (cases "Verify lib j now tok")
  case (Inl e)
  then show ?thesis by (simp add: Verify_Inl)
next
  case (Inr x)
  then obtain d u token where x: "x = (d, u)"
    and token: "jwt_ParseWithClaims lib now tok (keyfunc j) = Inr token" "tok_Valid token"
      "cl_Subject (tok_Claims token) = d" "cl_UserID (tok_Claims token) = u"
    by (auto simp: Verify_def Let_def split: sum.splits if_splits)
  have "keyfunc j (jwt_method lib tok) \<noteq> Inl e" for e
    using jwt_ok_refused [OF assms, of "keyfunc j" tok e now] token(1) by auto
  then have "\<exists>a. jwt_method lib tok = SigningMethodHMAC a"
    by (cases "jwt_method lib tok") (auto simp: keyfunc_def)
  with Inr x token Verify_Inr_nonempty [of lib j now tok d u] show ?thesis by auto
qed

section \<open>A concrete library\<close>

text \<open>A library that signs one set of claims with one key.\<close>

definition demo_exp :: Time where
  "demo_exp = 3600 * second"

definition demo_claims :: deviceClaims where
  "demo_claims = \<lparr>cl_UserID = ''u1'', cl_Subject = ''d1'', cl_IssuedAt = Some 0, cl_ExpiresAt = Some demo_exp\<rparr>"

definition demo_jwt :: jwt where
  "demo_jwt =
     \<lparr>jwt_NewNumericDate = (\<lambda>t. t div second * second),
      jwt_SignedString = (\<lambda>key c. if key = ''k'' \<and> c = demo_claims then Inr ''tok'' else Inl (anon ''key'')),
      jwt_ParseWithClaims = (\<lambda>now tok kf.
        if tok = ''tok'' \<and> kf (SigningMethodHMAC ''HS256'') = Inr ''k'' \<and> now < demo_exp
        then Inr \<lparr>tok_Claims = demo_claims, tok_Valid = True\<rparr> else Inl (anon ''token'')),
      jwt_method = (\<lambda>tok. SigningMethodHMAC ''HS256'')\<rparr>"

definition demo_issuer :: JWTTokenIssuer where
  "demo_issuer = NewJWTTokenIssuer ''k'' (3600 * second)"

lemma demo_jwt_ok: "jwt_ok demo_jwt"
proof -
  have "t div second * second \<le> t \<and> t - second < t div second * second" for t :: int
    by presburger
  then show ?thesis by (auto simp: jwt_ok_def demo_jwt_def demo_claims_def)
qed

lemma demo_issue_token: "Issue demo_jwt 0 demo_issuer demo_row = Inr (''tok'', demo_exp)"
  by (simp add: Issue_def claims_of_def demo_jwt_def demo_claims_def demo_issuer_def NewJWTTokenIssuer_def
      demo_exp_def)

theorem token_lifetime_witness:
  "\<exists>exp. exp \<le> demo_exp \<and> demo_exp < exp + second \<and> demo_exp = 0 + jti_ttl demo_issuer \<and>
    (\<forall>t. Verify demo_jwt demo_issuer t ''tok'' =
       (if t < exp then Inr (dev_ID demo_row, dev_UserID demo_row) else Inl dev_ErrInvalidToken))"
  by (rule token_lifetime [OF demo_jwt_ok demo_issue_token]) simp_all

theorem verify_sound_witness:
  "case Verify demo_jwt demo_issuer 7 ''tok'' of
      Inl e \<Rightarrow> e = dev_ErrInvalidToken
    | Inr (d, u) \<Rightarrow> d \<noteq> '''' \<and> u \<noteq> '''' \<and> (\<exists>a. jwt_method demo_jwt ''tok'' = SigningMethodHMAC a) \<and>
        (\<exists>token. jwt_ParseWithClaims demo_jwt 7 ''tok'' (keyfunc demo_issuer) = Inr token \<and> tok_Valid token \<and>
           cl_Subject (tok_Claims token) = d \<and> cl_UserID (tok_Claims token) = u)"
  by (rule verify_sound [OF demo_jwt_ok])

end
