(* ===== verification/Device_Handler.thy ===== *)
theory Device_Handler
  imports Auth Device_Tokens
begin

text \<open>
  The HTTP side of device registration, \<^verbatim>\<open>internal/devices/handler.go\<close>: \<^verbatim>\<open>POST
  /api/v1/devices/register\<close> and \<^verbatim>\<open>GET /api/v1/devices\<close>. The authenticator, the service's
  operations and the provider of connection states are arguments; the register handler
  threads the device table through. The request body is its text.
\<close>

definition connectionStatusOnline :: string where "connectionStatusOnline = ''connected''"
definition connectionStatusOffline :: string where "connectionStatusOffline = ''disconnected''"

definition Handler_authenticate :: "Authenticator \<Rightarrow> http_request \<Rightarrow> http_response + User" where
  "Handler_authenticate authn r =
     (case BearerToken r of
        None \<Rightarrow> Inl (writeError 401 ''missing bearer token'')
      | Some token \<Rightarrow>
          (case authn token of
             Inl _ \<Rightarrow> Inl (writeError 401 ''unauthorized'')
           | Inr user \<Rightarrow> Inr user))"

definition writeServiceError :: "error \<Rightarrow> http_response" where
  "writeServiceError err =
     (if errors_is err ErrInvalidInput then writeError 400 (error_text err)
      else if errors_is err ErrOwnedByAnotherUser
        then writeError 409 ''device is already registered to another account''
      else writeError 500 ''internal error'')"

definition input_of_request :: "DeviceRegisterRequest \<Rightarrow> RegisterInput" where
  "input_of_request req =
     \<lparr>in_DeviceID = req_DeviceID req, in_Hostname = req_Hostname req,
      in_OperatingSystem = req_OperatingSystem req, in_Architecture = req_Architecture req,
      in_CPUCores = req_CPUCores req, in_MemoryBytes = req_MemoryBytes req,
      in_DeployOSVersion = req_DeployOSVersion req\<rparr>"

definition Handler_Register ::
  "Authenticator \<Rightarrow> ('db \<Rightarrow> string \<Rightarrow> RegisterInput \<Rightarrow> (error + RegisterResult) \<times> 'db) \<Rightarrow>
   'db \<Rightarrow> http_request \<Rightarrow> string \<Rightarrow> http_response \<times> 'db" where
  "Handler_Register authn register db r body =
     (case Handler_authenticate authn r of
        Inl resp \<Rightarrow> (resp, db)
      | Inr user \<Rightarrow>
          (case read_register_request body of
             None \<Rightarrow> (writeError 400 ''invalid request body'', db)
           | Some req \<Rightarrow>
               (case register db (usr_ID user) (input_of_request req) of
                  (Inl err, db') \<Rightarrow> (writeServiceError err, db')
                | (Inr result, db') \<Rightarrow>
                    (writeJSON 201 (RegisterBody
                       \<lparr>resp_DeviceID = dev_ID (rr_Device result), resp_Token = rr_Token result,
                        resp_ExpiresAt = rr_ExpiresAt result\<rparr>), db'))))"

text \<open>A \<^verbatim>\<open>ConnectionStatusProvider\<close> tells which devices are connected.\<close>

type_synonym ConnectionStatusProvider = "AgentID \<Rightarrow> bool"

record 'db devices_Handler =
  dh_service :: "'db devices_Service"
  dh_authenticator :: Authenticator
  dh_connections :: ConnectionStatusProvider

definition devices_NewHandler ::
  "'db devices_Service \<Rightarrow> Authenticator \<Rightarrow> ConnectionStatusProvider \<Rightarrow> 'db devices_Handler" where
  "devices_NewHandler service authn connections =
     \<lparr>dh_service = service, dh_authenticator = authn, dh_connections = connections\<rparr>"

definition api_device :: "ConnectionStatusProvider \<Rightarrow> Device \<Rightarrow> api_Device" where
  "api_device isConnected d =
     \<lparr>apid_ID = dev_ID d, apid_Hostname = dev_Hostname d, apid_OperatingSystem = dev_OperatingSystem d,
      apid_Architecture = dev_Architecture d,
      apid_Status = (if isConnected (dev_ID d) then connectionStatusOnline else connectionStatusOffline),
      apid_CreatedAt = dev_CreatedAt d\<rparr>"

definition Handler_List ::
  "Authenticator \<Rightarrow> (string \<Rightarrow> error + Device list) \<Rightarrow> ConnectionStatusProvider \<Rightarrow>
   http_request \<Rightarrow> http_response" where
  "Handler_List authn list isConnected r =
     (case Handler_authenticate authn r of
        Inl resp \<Rightarrow> resp
      | Inr user \<Rightarrow>
          (case list (usr_ID user) of
             Inl err \<Rightarrow> writeServiceError err
           | Inr deviceList \<Rightarrow> writeJSON 200 (ListDevicesResponse (map (api_device isConnected) deviceList))))"

lemma Handler_authenticate_Inr_iff:
  "Handler_authenticate authn r = Inr user \<longleftrightarrow>
     (\<exists>token. BearerToken r = Some token \<and> authn token = Inr user)"
  by (auto simp: Handler_authenticate_def split: option.splits sum.splits)

lemma Handler_authenticate_Inl: "Handler_authenticate authn r = Inl resp \<Longrightarrow> http_status resp = 401"
  by (auto simp: Handler_authenticate_def split: option.splits sum.splits)

lemma writeServiceError_status: "http_status (writeServiceError e) \<in> {400, 409, 500}"
  by (simp add: writeServiceError_def)

section \<open>The endpoints over their real collaborators\<close>

text \<open>The register endpoint as \<^verbatim>\<open>cmd/server\<close> wires it: Supabase, Postgres and the JWT issuer.\<close>

definition register_endpoint ::
  "Authenticator \<Rightarrow> (string \<Rightarrow> error option) \<Rightarrow> pg \<Rightarrow> jwt \<Rightarrow> Time \<Rightarrow> JWTTokenIssuer \<Rightarrow>
   table \<Rightarrow> http_request \<Rightarrow> string \<Rightarrow> http_response \<times> table" where
  "register_endpoint authn uuidParse p lib now j =
     Handler_Register authn (Register uuidParse (Upsert p) (Issue lib now j))"

lemma Handler_Register_201:
  assumes "Handler_Register authn register db r body = (resp, db')" and "http_status resp = 201"
  shows "\<exists>user req result. Handler_authenticate authn r = Inr user \<and> read_register_request body = Some req \<and>
    register db (usr_ID user) (input_of_request req) = (Inr result, db') \<and>
    http_body resp = RegisterBody \<lparr>resp_DeviceID = dev_ID (rr_Device result),
      resp_Token = rr_Token result, resp_ExpiresAt = rr_ExpiresAt result\<rparr>"
proof -
  have no: "http_status (writeServiceError e) \<noteq> 201" for e using writeServiceError_status [of e] by auto
  from assms obtain user req where "Handler_authenticate authn r = Inr user" "read_register_request body = Some req"
    by (auto simp: Handler_Register_def dest: Handler_authenticate_Inl split: sum.splits option.splits)
  with assms no show ?thesis by (auto simp: Handler_Register_def split: prod.splits sum.splits)
qed

context authenticator begin

lemma handler_user_nonempty: "Handler_authenticate authenticate r = Inr user \<Longrightarrow> usr_ID user \<noteq> ''''"
  by (auto simp: Handler_authenticate_Inr_iff dest: authenticated_id)

end

lemma register_endpoint_201:
  assumes "jwt_ok lib" and "table_inv tab"
    and "uuid_ok p"
    and "register_endpoint (Authenticate newRequest do a) uuidParse p lib now j tab r body = (resp, tab')"
    and "http_status resp = 201"
  shows "\<exists>token user req rb exp.
    BearerToken r = Some token \<and> Authenticate newRequest do a token = Inr user \<and> read_register_request body = Some req \<and>
    http_body resp = RegisterBody rb \<and> resp_DeviceID rb = pg_canon p (req_DeviceID req) \<and>
    map_option dev_UserID (fmlookup tab' (resp_DeviceID rb)) = Some (pg_canon p (usr_ID user)) \<and>
    resp_ExpiresAt rb - second < exp \<and>
    (\<forall>t < exp. Verify lib j t (resp_Token rb) = Inr (resp_DeviceID rb, pg_canon p (usr_ID user)))"
proof -
  from Handler_Register_201 [OF assms(4)[unfolded register_endpoint_def] assms(5)] obtain user req result
    where u: "Handler_authenticate (Authenticate newRequest do a) r = Inr user" and b: "read_register_request body = Some req"
      and reg: "Register uuidParse (Upsert p) (Issue lib now j) tab (usr_ID user) (input_of_request req) =
        (Inr result, tab')"
      and rb: "http_body resp = RegisterBody \<lparr>resp_DeviceID = dev_ID (rr_Device result),
        resp_Token = rr_Token result, resp_ExpiresAt = rr_ExpiresAt result\<rparr>" by blast
  note st = postgres.Register_stored [OF assms(2) reg]
  from supabase.handler_user_nonempty [OF u] have "usr_ID user \<noteq> ''''" .
  with assms(3) have user: "pg_canon p (usr_ID user) \<noteq> ''''" by (rule pg_canon_nonempty)
  from st have "in_DeviceID (input_of_request req) \<noteq> ''''" by (auto dest: RegisterInput_Validate_id)
  with assms(3) have dev: "pg_canon p (req_DeviceID req) \<noteq> ''''"
    by (intro pg_canon_nonempty) (simp_all add: input_of_request_def)
  from st have i: "Issue lib now j (rr_Device result) = Inr (rr_Token result, rr_ExpiresAt result)"
    and d: "dev_ID (rr_Device result) = pg_canon p (req_DeviceID req)"
      "dev_UserID (rr_Device result) = pg_canon p (usr_ID user)"
    by (simp_all add: input_of_request_def)
  from issued_token_lifetime [OF assms(1) i] d user dev obtain exp where
    exp: "rr_ExpiresAt result < exp + second" "\<forall>t. Verify lib j t (rr_Token result) =
      (if t < exp then Inr (dev_ID (rr_Device result), dev_UserID (rr_Device result)) else Inl dev_ErrInvalidToken)"
    by auto
  from u obtain token where "BearerToken r = Some token" "Authenticate newRequest do a token = Inr user"
    by (auto simp: Handler_authenticate_Inr_iff)
  then show ?thesis using b rb st d exp by (intro exI conjI) (auto simp: input_of_request_def)
qed

text \<open>
  \<^bold>\<open>C20.\<close> A 201 answer to a registration means what it says: the caller's bearer token was accepted
  for a user, the device of the request is stored under its identifier with this user as its
  owner, and the token in the answer is, until less than a second before the expiry in the
  answer, verified as exactly this device and this user.
\<close>

theorem register_endpoint_created:
  assumes "jwt_ok lib" and "table_inv tab"
    and "uuid_ok p"
    and "register_endpoint (Authenticate newRequest do a) uuidParse p lib now j tab r body = (resp, tab')"
    and "http_status resp = 201"
  shows "\<exists>token user req rb exp.
    BearerToken r = Some token \<and> Authenticate newRequest do a token = Inr user \<and> read_register_request body = Some req \<and>
    http_body resp = RegisterBody rb \<and> resp_DeviceID rb = pg_canon p (req_DeviceID req) \<and>
    map_option dev_UserID (fmlookup tab' (resp_DeviceID rb)) = Some (pg_canon p (usr_ID user)) \<and>
    resp_ExpiresAt rb - second < exp \<and>
    (\<forall>t < exp. Verify lib j t (resp_Token rb) = Inr (resp_DeviceID rb, pg_canon p (usr_ID user)))"
  by (rule register_endpoint_201 [OF assms])



section \<open>A concrete registration request\<close>

definition demo_register_request :: DeviceRegisterRequest where
  "demo_register_request = \<lparr>req_DeviceID = ''d1'', req_Hostname = ''host'', req_OperatingSystem = ''linux'',
     req_Architecture = ''amd64'', req_CPUCores = 8, req_MemoryBytes = 1024, req_DeployOSVersion = ''dev''\<rparr>"

definition demo_register_body :: string where
  "demo_register_body = json_text (encode_register_request demo_register_request)"

lemma demo_register_body_read: "read_register_request demo_register_body = Some demo_register_request"
proof -
  have "list_all valid_utf8 [''d1'', ''host'', ''linux'', ''amd64'', ''dev'']"
    by (simp add: ascii_valid_utf8)
  then have "coerced_register_request demo_register_request = demo_register_request"
    by (simp add: coerced_register_request_def demo_register_request_def)
  then show ?thesis using read_written(1) [of demo_register_request]
    by (simp add: demo_register_body_def int64_def demo_register_request_def)
qed

definition demo_pg_strict :: "Time \<Rightarrow> pg" where
  "demo_pg_strict now = (demo_pg now)\<lparr>pg_uuid := (\<lambda>t. if t = '''' then None else Some t)\<rparr>"

definition demo_authn :: Authenticator where
  "demo_authn = Authenticate (\<lambda>_. None) demo_supabase_user (NewSupabaseAuthenticator ''https://p'' ''key'')"

lemma demo_input_of_request: "input_of_request demo_register_request = demo_input"
  by (simp add: input_of_request_def demo_register_request_def demo_input_def)

lemma demo_authn_user: "demo_authn tok = Inr \<lparr>usr_ID = ''u1'', usr_Email = ''u@x''\<rparr>"
  by (simp add: demo_authn_def demo_authenticate)

lemma demo_upsert_strict:
  "Upsert (demo_pg_strict 5) fmempty (device_of_input ''u1'' demo_input) = (Inr demo_row, demo_table)"
  by (simp add: Upsert_def upsert_query_def demo_row_ok demo_input_id demo_row_def demo_table_def
      demo_pg_strict_def inserted_row_def)

lemma demo_register_endpoint:
  "register_endpoint demo_authn (\<lambda>_. None) (demo_pg_strict 5) demo_jwt 0 demo_issuer fmempty
     demo_operator_request demo_register_body =
   (writeJSON 201 (RegisterBody \<lparr>resp_DeviceID = ''d1'', resp_Token = ''tok'', resp_ExpiresAt = demo_exp\<rparr>),
    demo_table)"
  by (simp add: register_endpoint_def Handler_Register_def Handler_authenticate_def demo_bearer demo_authn_user
      Register_def demo_register_body_read demo_input_of_request demo_valid demo_upsert_strict demo_issue_token)

theorem register_endpoint_created_witness:
  "\<exists>token user req rb exp.
    BearerToken demo_operator_request = Some token \<and> demo_authn token = Inr user \<and>
    read_register_request demo_register_body = Some req \<and>
    RegisterBody \<lparr>resp_DeviceID = ''d1'', resp_Token = ''tok'', resp_ExpiresAt = demo_exp\<rparr> = RegisterBody rb \<and>
    resp_DeviceID rb = pg_canon (demo_pg_strict 5) (req_DeviceID req) \<and>
    map_option dev_UserID (fmlookup demo_table (resp_DeviceID rb)) =
      Some (pg_canon (demo_pg_strict 5) (usr_ID user)) \<and>
    resp_ExpiresAt rb - second < exp \<and>
    (\<forall>t < exp. Verify demo_jwt demo_issuer t (resp_Token rb) =
       Inr (resp_DeviceID rb, pg_canon (demo_pg_strict 5) (usr_ID user)))"
proof -
  have strict: "uuid_ok (demo_pg_strict 5)" by (simp add: uuid_ok_def demo_pg_strict_def)
  from register_endpoint_created [OF demo_jwt_ok table_inv_empty strict
      demo_register_endpoint [unfolded demo_authn_def] http_status_write(1)]
  show ?thesis unfolding demo_authn_def http_body_write .
qed



end
