(* ===== verification/Monitoring.thy ===== *)
theory Monitoring
  imports Contracts
begin

text \<open>
  The health-check registry, \<^verbatim>\<open>internal/monitoring/health.go\<close>. A check is a function of the
  request's context; the handler ranges over the map of checks in whatever order the runtime
  chooses, which is an argument.
\<close>

type_synonym 'c Check = "'c \<Rightarrow> error option"

record 'c Registry =
  reg_checks :: "(string, 'c Check) fmap"

definition NewRegistry :: "'c Registry" where
  "NewRegistry = \<lparr>reg_checks = fmempty\<rparr>"

definition Registry_Register :: "string \<Rightarrow> 'c Check \<Rightarrow> 'c Registry \<Rightarrow> 'c Registry" where
  "Registry_Register name check r = r\<lparr>reg_checks := fmupd name check (reg_checks r)\<rparr>"

text \<open>The loop of the handler: it stops at the first check that fails.\<close>

fun run_checks :: "'c \<Rightarrow> (string \<times> 'c Check) list \<Rightarrow> string" where
  "run_checks ctx [] = StatusOK"
| "run_checks ctx ((_, check) # rest) =
     (case check ctx of Some _ \<Rightarrow> StatusDegraded | None \<Rightarrow> run_checks ctx rest)"

definition Registry_Handler :: "string list \<Rightarrow> 'c Registry \<Rightarrow> 'c \<Rightarrow> http_response" where
  "Registry_Handler ks r ctx =
     (let status = run_checks ctx (range_pairs (reg_checks r) ks) in
      writeJSON (if status \<noteq> StatusOK then 503 else 200) (HealthResponse status))"

definition reg_get :: "string \<Rightarrow> 'c Registry \<Rightarrow> 'c Check option" where
  "reg_get name r = fmlookup (reg_checks r) name"

interpretation checks: registry Registry_Register reg_get NewRegistry
  by unfold_locales (simp_all add: Registry_Register_def reg_get_def NewRegistry_def)

lemma run_checks_eq:
  "run_checks ctx ps = (if \<exists>(n, check) \<in> set ps. check ctx \<noteq> None then StatusDegraded else StatusOK)"
  by (induction ctx ps rule: run_checks.induct) (auto split: option.splits)

text \<open>
  The health endpoint answers for all checks, in any order: after any sequence of
  registrations and in whatever order the map is ranged over, the answer is 503 and
  \<^verbatim>\<open>degraded\<close> exactly if some check that is registered now, that is, the last one registered
  under its name, fails, and otherwise 200 and \<^verbatim>\<open>ok\<close>, in particular with no checks at all.
\<close>

lemma health_answer:
  assumes "range_order (reg_checks (fold (\<lambda>(n, c). Registry_Register n c) regs NewRegistry)) ks"
  shows "Registry_Handler ks (fold (\<lambda>(n, c). Registry_Register n c) regs NewRegistry) ctx =
    (if \<exists>n check. map_of (rev regs) n = Some check \<and> check ctx \<noteq> None
     then writeJSON 503 (HealthResponse ''degraded'') else writeJSON 200 (HealthResponse ''ok''))"
proof -
  let ?r = "fold (\<lambda>(n, c). Registry_Register n c) regs NewRegistry"
  have get: "fmlookup (reg_checks ?r) n = map_of (rev regs) n" for n
    using checks.get_fold_put [of n regs NewRegistry]
    by (simp add: reg_get_def NewRegistry_def split: option.splits)
  have "(\<exists>(n, check) \<in> set (range_pairs (reg_checks ?r) ks). check ctx \<noteq> None) \<longleftrightarrow>
      (\<exists>n check. map_of (rev regs) n = Some check \<and> check ctx \<noteq> None)"
    using range_pairs_mem [OF assms] get by auto
  then show ?thesis
    by (simp add: Registry_Handler_def run_checks_eq StatusOK_def StatusDegraded_def)
qed

definition demo_checks :: "(string \<times> bool Check) list" where
  "demo_checks = [(''database'', \<lambda>up. if up then None else Some (anon ''down'')), (''other'', \<lambda>_. None)]"

end
