(* ===== verification/Logging.thy ===== *)
theory Logging
  imports Go_Text
begin

text \<open>
  Logging, \<^verbatim>\<open>internal/logging\<close>: the level of the logger (\<^verbatim>\<open>logging.go\<close>) and the HTTP middleware
  (\<^verbatim>\<open>middleware.go\<close>). A handler is the list of the calls of \<^verbatim>\<open>WriteHeader\<close> it makes; the
  record the middleware logs is its result.
\<close>

section \<open>logging.go\<close>

datatype Level = LevelDebug | LevelInfo | LevelWarn | LevelError

text \<open>The values of \<^verbatim>\<open>slog.Level\<close>, which order the levels.\<close>

fun level_value :: "Level \<Rightarrow> int" where
  "level_value LevelDebug = -4"
| "level_value LevelInfo = 0"
| "level_value LevelWarn = 4"
| "level_value LevelError = 8"

lemma level_value_inject [simp]: "level_value a = level_value b \<longleftrightarrow> a = b"
  by (cases a; cases b) simp_all

instantiation Level :: linorder
begin

definition less_eq_Level :: "Level \<Rightarrow> Level \<Rightarrow> bool" where
  "a \<le> b \<longleftrightarrow> level_value a \<le> level_value b"

definition less_Level :: "Level \<Rightarrow> Level \<Rightarrow> bool" where
  "a < b \<longleftrightarrow> level_value a < level_value b"

instance
  by standard (auto simp: less_eq_Level_def less_Level_def)

end

definition parseLevel :: "string \<Rightarrow> Level" where
  "parseLevel level =
     (let l = to_lower (trim_space level) in
      if l = ''debug'' then LevelDebug
      else if l = ''warn'' \<or> l = ''warning'' then LevelWarn
      else if l = ''error'' then LevelError
      else LevelInfo)"

text \<open>A logger made by \<^verbatim>\<open>New\<close> emits a record exactly at its level or above.\<close>

record Logger =
  lg_level :: Level

definition logging_New :: "string \<Rightarrow> Logger" where
  "logging_New level = \<lparr>lg_level = parseLevel level\<rparr>"

definition Enabled :: "Logger \<Rightarrow> Level \<Rightarrow> bool" where
  "Enabled lg l \<longleftrightarrow> lg_level lg \<le> l"

lemma error_always_enabled: "Enabled (logging_New s) LevelError"
  by (simp add: Enabled_def logging_New_def parseLevel_def Let_def less_eq_Level_def)

lemma info_enabled_iff:
  "Enabled (logging_New s) LevelInfo \<longleftrightarrow>
     to_lower (trim_space s) \<notin> {''warn'', ''warning'', ''error''}"
  by (auto simp: Enabled_def logging_New_def parseLevel_def Let_def less_eq_Level_def)

lemma parseLevel_space: "parseLevel (trim_space s) = parseLevel s"
  by (simp add: parseLevel_def)

section \<open>middleware.go\<close>

text \<open>
  The values a context carries: \<^verbatim>\<open>context.WithValue\<close> adds a pair in front, \<^verbatim>\<open>Value\<close> finds the
  innermost one. The key is of the package's own type \<^verbatim>\<open>contextKey\<close>, so no other package's
  key equals it.
\<close>

datatype context_key = ContextKey string | ForeignKey string

type_synonym ctx = "(context_key \<times> string) list"

definition requestIDKey :: context_key where
  "requestIDKey = ContextKey ''request_id''"

definition WithValue :: "ctx \<Rightarrow> context_key \<Rightarrow> string \<Rightarrow> ctx" where
  "WithValue c key val = (key, val) # c"

definition RequestIDFromContext :: "ctx \<Rightarrow> string" where
  "RequestIDFromContext c = (case map_of c requestIDKey of Some i \<Rightarrow> i | None \<Rightarrow> '''')"

text \<open>\<open>read\<close> is what \<^verbatim>\<open>rand.Read\<close> filled the 16 bytes of the buffer with, or nothing if it failed.\<close>

definition newRequestID :: "string option \<Rightarrow> string" where
  "newRequestID read = (case read of None \<Rightarrow> ''unknown'' | Some buf \<Rightarrow> hex_encode buf)"

text \<open>The recorder: the status it remembers, and the calls passed on to the real writer.\<close>

record statusRecorder =
  sr_status :: nat
  sr_written :: "nat list"

definition newStatusRecorder :: statusRecorder where
  "newStatusRecorder = \<lparr>sr_status = 200, sr_written = []\<rparr>"

definition WriteHeader :: "nat \<Rightarrow> statusRecorder \<Rightarrow> statusRecorder" where
  "WriteHeader status r = r\<lparr>sr_status := status, sr_written := sr_written r @ [status]\<rparr>"

record log_record =
  log_request_id :: string
  log_method :: string
  log_path :: string
  log_status :: nat
  log_duration :: int

text \<open>
  The middleware around a handler \<open>next\<close>, which gets its context and makes some calls of
  \<^verbatim>\<open>WriteHeader\<close>: the record it logs, and what the writer received. \<^verbatim>\<open>net/http\<close> sends the first
  status, or 200 if there is none.
\<close>

definition Middleware ::
  "string option \<Rightarrow> int \<Rightarrow> int \<Rightarrow> string \<Rightarrow> string \<Rightarrow> (ctx \<Rightarrow> nat list) \<Rightarrow> ctx \<Rightarrow> log_record \<times> nat list" where
  "Middleware read start finish meth path next c =
     (let requestID = newRequestID read;
          ww = fold WriteHeader (next (WithValue c requestIDKey requestID)) newStatusRecorder in
      (\<lparr>log_request_id = requestID, log_method = meth, log_path = path,
        log_status = sr_status ww, log_duration = finish - start\<rparr>, sr_written ww))"

definition sent_status :: "nat list \<Rightarrow> nat" where
  "sent_status ws = (case ws of [] \<Rightarrow> 200 | s # _ \<Rightarrow> s)"

lemma fold_WriteHeader:
  "sr_written (fold WriteHeader hs r) = sr_written r @ hs \<and>
   sr_status (fold WriteHeader hs r) = (if hs = [] then sr_status r else last hs)"
  by (induction hs arbitrary: r) (auto simp: WriteHeader_def)

lemma newRequestID_length: "read = Some buf \<Longrightarrow> length (newRequestID read) = 2 * length buf"
  by (simp add: newRequestID_def length_hex_encode)

lemma RequestIDFromContext_WithValue [simp]:
  "RequestIDFromContext (WithValue c requestIDKey i) = i"
  "RequestIDFromContext (WithValue c (ForeignKey k) v) = RequestIDFromContext c"
  by (simp_all add: RequestIDFromContext_def WithValue_def requestIDKey_def)

text \<open>
  The request log tells the truth: the handler finds in its context the very request
  identifier that is logged, its calls of \<^verbatim>\<open>WriteHeader\<close> reach the client's writer unchanged
  and in order, and for every handler that writes its header at most once the logged status
  is the one the client got, 200 if the handler wrote none.
\<close>

lemma middleware_logs_sent_status:
  assumes "Middleware read start finish meth path next c = (rec, ws)"
    and "\<forall>c'. length (next c') \<le> 1"
  shows "(\<exists>c'. RequestIDFromContext c' = log_request_id rec \<and> ws = next c') \<and>
    log_status rec = sent_status ws \<and> log_method rec = meth \<and> log_path rec = path"
proof -
  let ?c = "WithValue c requestIDKey (newRequestID read)"
  from assms(1) fold_WriteHeader [of "next ?c" newStatusRecorder]
  have rec: "log_request_id rec = newRequestID read" "ws = next ?c"
    "log_status rec = (if next ?c = [] then 200 else last (next ?c))" "log_method rec = meth" "log_path rec = path"
    by (auto simp: Middleware_def Let_def newStatusRecorder_def)
  moreover have "length (next ?c) \<le> 1" using assms(2) by blast
  then have "(if next ?c = [] then 200 else last (next ?c)) = sent_status (next ?c)"
    by (cases "next ?c") (auto simp: sent_status_def)
  ultimately show ?thesis by (intro conjI exI [of _ ?c]) auto
qed

end
