(* ===== verification/Server_Main.thy ===== *)
theory Server_Main
  imports Config Serve_Mux Runtime_Servers Commandbus_Handler Device_Handler Monitoring Logging
begin

text \<open>
  The control plane's binary, \<^verbatim>\<open>cmd/server/main.go\<close>: the checks and the wiring of \<^verbatim>\<open>run\<close>, the
  routes of its HTTP server and the group of its two servers. The body of a request is its text,
  which the handlers decode.
\<close>

section \<open>main.go\<close>

definition validateConfig :: "Config \<Rightarrow> error option" where
  "validateConfig cfg =
     (if sb_DatabaseURL (conf_Supabase cfg) = '''' then Some (anon ''DEPLOYOS_SUPABASE_DATABASE_URL is required'')
      else if sb_URL (conf_Supabase cfg) = '''' then Some (anon ''DEPLOYOS_SUPABASE_URL is required'')
      else if sb_AnonKey (conf_Supabase cfg) = '''' then Some (anon ''DEPLOYOS_SUPABASE_ANON_KEY is required'')
      else if dt_Secret (conf_DeviceToken cfg) = '''' then Some (anon ''DEPLOYOS_DEVICE_TOKEN_SECRET is required'')
      else None)"

datatype endpoint = EpHealth | EpVersion | EpRegister | EpListDevices | EpSendCommand

definition server_routes :: "endpoint route list" where
  "server_routes =
     [(''GET'', [Lit ''healthz''], EpHealth),
      (''GET'', [Lit ''version''], EpVersion),
      (''POST'', [Lit ''api'', Lit ''v1'', Lit ''devices'', Lit ''register''], EpRegister),
      (''GET'', [Lit ''api'', Lit ''v1'', Lit ''devices''], EpListDevices),
      (''POST'', [Lit ''api'', Lit ''v1'', Lit ''devices'', Wild ''deviceID'', Lit ''commands''], EpSendCommand)]"

text \<open>What \<^verbatim>\<open>run\<close> builds from the configuration before it starts the servers.\<close>

record control_plane_parts =
  cp_logger :: Logger
  cp_registry :: "error option Registry"
  cp_authenticator :: SupabaseAuthenticator
  cp_tokenIssuer :: JWTTokenIssuer
  cp_manager :: Manager
  cp_httpServer :: HTTPServer
  cp_grpcServer :: GRPCServer

text \<open>\<open>pool\<close> is \<^verbatim>\<open>pgxpool.New\<close>; the context of the database check is what \<^verbatim>\<open>Ping\<close> answers.\<close>

definition server_setup :: "(string \<Rightarrow> error option) \<Rightarrow> error + Config \<Rightarrow> error + control_plane_parts" where
  "server_setup pool loaded =
     (case loaded of
        Inl err \<Rightarrow> Inl err
      | Inr cfg \<Rightarrow>
          (case validateConfig cfg of
             Some err \<Rightarrow> Inl err
           | None \<Rightarrow>
               (case pool (sb_DatabaseURL (conf_Supabase cfg)) of
                  Some err \<Rightarrow> Inl (Wrapf ''connecting to database: '' err '''')
                | None \<Rightarrow>
                    Inr \<lparr>cp_logger = logging_New (conf_LogLevel cfg),
                         cp_registry = Registry_Register ''database'' (\<lambda>ping. ping) NewRegistry,
                         cp_authenticator = NewSupabaseAuthenticator (sb_URL (conf_Supabase cfg))
                           (sb_AnonKey (conf_Supabase cfg)),
                         cp_tokenIssuer = NewJWTTokenIssuer (dt_Secret (conf_DeviceToken cfg))
                           (dt_TTL (conf_DeviceToken cfg)),
                         cp_manager = NewManager,
                         cp_httpServer = NewHTTPServer (sc_HTTPAddr (conf_Server cfg)),
                         cp_grpcServer = NewGRPCServer (sc_GRPCAddr (conf_Server cfg))\<rparr>)))"

text \<open>
  \<^verbatim>\<open>run\<close>: the error of the setup, or the first error of the two servers; \<^verbatim>\<open>main\<close> exits with 1 on
  an error.
\<close>

definition server_run :: "error + control_plane_parts \<Rightarrow> error option \<Rightarrow> error option" where
  "server_run setup wait = (case setup of Inl err \<Rightarrow> Some err | Inr _ \<Rightarrow> wait)"

definition exit_code :: "error option \<Rightarrow> nat" where
  "exit_code r = (case r of Some _ \<Rightarrow> 1 | None \<Rightarrow> 0)"

text \<open>
  The routed request: which handler answers it, and with which request. \<open>w\<close> is the state
  the handlers change, the devices table and the Command Bus.
\<close>

record server_request =
  sreq_Method :: string
  sreq_Path :: string
  sreq_Authorization :: string
  sreq_Body :: string

record 'w handlers =
  hd_health :: "http_response"
  hd_version :: string
  hd_register :: "table \<Rightarrow> http_request \<Rightarrow> string \<Rightarrow> http_response \<times> table"
  hd_list :: "table \<Rightarrow> http_request \<Rightarrow> http_response"
  hd_send :: "table \<Rightarrow> 'w \<Rightarrow> http_request \<Rightarrow> string \<Rightarrow> http_response \<times> 'w"

definition path_value :: "(string \<times> string) list \<Rightarrow> string \<Rightarrow> string" where
  "path_value vals name = (case map_of vals name of Some v \<Rightarrow> v | None \<Rightarrow> '''')"

definition handler_request :: "server_request \<Rightarrow> (string \<times> string) list \<Rightarrow> http_request" where
  "handler_request r vals = \<lparr>hreq_Authorization = sreq_Authorization r, hreq_PathValue = path_value vals\<rparr>"

definition server_serve ::
  "'w handlers \<Rightarrow> table \<times> 'w \<Rightarrow> server_request \<Rightarrow> reply \<times> table \<times> 'w" where
  "server_serve hs st r =
     (case st of (tab, w) \<Rightarrow>
      (case ServeMux server_routes (sreq_Method r) (sreq_Path r) of
         MuxRedirect p \<Rightarrow> (RedirectTo p, tab, w)
       | MuxMethodNotAllowed \<Rightarrow> (PlainStatus 405, tab, w)
       | MuxNotFound \<Rightarrow> (PlainStatus 404, tab, w)
       | MuxHandler ep vals \<Rightarrow>
           (let hr = handler_request r vals in
            case ep of
              EpHealth \<Rightarrow> (Answer (hd_health hs), tab, w)
            | EpVersion \<Rightarrow> (Answer (writeJSON 200 (VersionBody
                \<lparr>vr_Name = ''deployos-server'', vr_Version = hd_version hs\<rparr>)), tab, w)
            | EpRegister \<Rightarrow> (case hd_register hs tab hr (sreq_Body r) of (resp, tab') \<Rightarrow> (Answer resp, tab', w))
            | EpListDevices \<Rightarrow> (Answer (hd_list hs tab hr), tab, w)
            | EpSendCommand \<Rightarrow> (case hd_send hs tab w hr (sreq_Body r) of (resp, w') \<Rightarrow> (Answer resp, tab, w')))))"

text \<open>The handlers as \<^verbatim>\<open>run\<close> wires them: one authenticator, one table, one manager for all.\<close>

definition wired_handlers ::
  "control_plane_parts \<Rightarrow> (string \<Rightarrow> error option) \<Rightarrow> (out_request \<Rightarrow> error + supabase_response) \<Rightarrow>
   (string \<Rightarrow> error option) \<Rightarrow> pg \<Rightarrow> string list \<Rightarrow> jwt \<Rightarrow> Time \<Rightarrow>
   Manager \<Rightarrow> ('w \<Rightarrow> int \<Rightarrow> AgentID \<Rightarrow> Request \<Rightarrow> (error + Response) \<times> 'w) \<Rightarrow> error option \<Rightarrow> string \<Rightarrow> 'w handlers" where
  "wired_handlers parts newRequest do uuidParse p ks lib now m send ping version =
     (let authn = Authenticate newRequest do (cp_authenticator parts);
          deviceRepo = NewPostgresRepository p ks;
          deviceService = devices_NewService deviceRepo (Issue lib now (cp_tokenIssuer parts));
          deviceHandler = devices_NewHandler deviceService authn (\<lambda>d. Manager_IsConnected d m);
          commandHandler = commandbus_NewHandler send authn (IsOwner (repo_ListByUser (dsv_repo deviceService))) in
     \<lparr>hd_health = Registry_Handler [''database''] (cp_registry parts) ping,
      hd_version = version,
      hd_register = Handler_Register (dh_authenticator deviceHandler)
        (Register uuidParse (repo_Upsert (dsv_repo (dh_service deviceHandler))) (dsv_tokens (dh_service deviceHandler))),
      hd_list = (\<lambda>tab. Handler_List (dh_authenticator deviceHandler)
        (Service_List (repo_ListByUser (dsv_repo (dh_service deviceHandler))) tab) (dh_connections deviceHandler)),
      hd_send = (\<lambda>tab. Handler_Send (ch_authenticator commandHandler) (ch_ownership commandHandler tab)
        (ch_service commandHandler))\<rparr>)"

text \<open>What the handlers are, the structs unfolded.\<close>

lemma wired_handlers_eq:
  "wired_handlers parts newRequest do uuidParse p ks lib now m send ping version =
     (let authn = Authenticate newRequest do (cp_authenticator parts) in
     \<lparr>hd_health = Registry_Handler [''database''] (cp_registry parts) ping,
      hd_version = version,
      hd_register = register_endpoint authn uuidParse p lib now (cp_tokenIssuer parts),
      hd_list = (\<lambda>tab. Handler_List authn (Service_List (ListByUser p ks) tab) (\<lambda>d. Manager_IsConnected d m)),
      hd_send = (\<lambda>tab. Handler_Send authn (IsOwner (ListByUser p ks) tab) send)\<rparr>)"
  by (simp add: wired_handlers_def Let_def NewPostgresRepository_def devices_NewService_def devices_NewHandler_def
      commandbus_NewHandler_def register_endpoint_def)

section \<open>The two servers as a group\<close>

interpretation servers: group http_exec http_start http_result http_inv http_rank
  "grpc_exec addr" grpc_start grpc_result "grpc_inv addr" grpc_rank for addr
  by unfold_locales


section \<open>Start-up\<close>


section \<open>Requests\<close>

lemma split_api: "split_on (CHR ''/'') (''api/v1/devices/'' @ s) = ''api'' # ''v1'' # ''devices'' # split_on (CHR ''/'') s"
  by simp

lemma command_path_segments:
  "split_on (CHR ''/'') (''api/v1/devices/'' @ path_escape d @ ''/commands'') =
     [''api'', ''v1'', ''devices'', path_escape d, ''commands'']"
proof -
  have "CHR ''/'' \<notin> set (path_escape d)" using path_escape_safe [of d] by blast
  from split_on_append [OF this, of "''commands''"] show ?thesis by simp
qed

text \<open>No request matches two routes, so the order of registration does not matter.\<close>

abbreviation command_pattern :: "segment list" where
  "command_pattern \<equiv> [Lit ''api'', Lit ''v1'', Lit ''devices'', Wild ''deviceID'', Lit ''commands'']"

lemma find_route_send:
  "find_route server_routes meth ss = Some (EpSendCommand, vals) \<Longrightarrow>
     meth = ''POST'' \<and> match_segments command_pattern ss = Some vals"
  by (drule find_route_SomeD) (auto simp: server_routes_def method_ok_def)

lemma find_route_command:
  assumes "match_segments command_pattern ss = Some vals"
  shows "find_route server_routes ''POST'' ss = Some (EpSendCommand, vals)"
proof -
  have len: "length ss = 5" using match_segments_length [OF assms] by simp
  have "match_segments ps ss = None" if "length ps \<noteq> 5" for ps
    using match_segments_length [of ps ss] len that by (cases "match_segments ps ss") auto
  then show ?thesis using assms by (simp add: server_routes_def method_ok_def)
qed

lemma command_values:
  "match_segments command_pattern ss = Some vals \<Longrightarrow> \<exists>d. vals = [(''deviceID'', d)] \<and> d \<noteq> ''''"
  unfolding match_segments_Some using unescape_nonempty by blast

text \<open>
  Every device can be addressed: the escaped device identifier in the path reaches the handler as
  it was, whatever bytes it holds, unless it is empty or one of the two dot segments.
\<close>

lemma command_route:
  assumes "proper_elem d"
  shows "ServeMux server_routes ''POST'' (''/api/v1/devices/'' @ path_escape d @ ''/commands'') =
    MuxHandler EpSendCommand [(''deviceID'', d)]"
proof -
  from assms have "list_all proper_elem (split_on (CHR ''/'') (''api/v1/devices/'' @ path_escape d @ ''/commands''))"
    unfolding command_path_segments by (simp add: proper_path_escape) (simp add: proper_elem_def)
  note clean = cleanPath_proper [OF this]
  have "path_escape d \<noteq> ''''" "unescape_segment (path_escape d) = d"
    using assms by (simp_all add: proper_elem_def unescape_segment_def)
  then have "find_route server_routes ''POST'' [''api'', ''v1'', ''devices'', path_escape d, ''commands''] =
      Some (EpSendCommand, [(''deviceID'', d)])"
    by (intro find_route_command) (simp add: unescape_plain)
  with clean command_path_segments [of d] show ?thesis by (simp add: ServeMux_def)
qed

lemma ServeMux_send:
  "ServeMux server_routes meth path = MuxHandler EpSendCommand vals \<Longrightarrow>
     meth = ''POST'' \<and> (\<exists>d. vals = [(''deviceID'', d)] \<and> d \<noteq> '''')"
  using find_route_send command_values by (fastforce simp: ServeMux_def Let_def split: if_splits option.splits)

text \<open>A command the guards let through, posted to its device's path: the answer is the reply to what \<^verbatim>\<open>Send\<close> returns.\<close>

lemma posted_command_sent:
  assumes "proper_elem d" and "BearerToken (handler_request r [(''deviceID'', d)]) = Some token"
    and "Authenticate newRequest do (cp_authenticator parts) token = Inr user"
    and "IsOwner (ListByUser p ks) tab (usr_ID user) d = Inr True"
    and "read_command_request (sreq_Body r) = Some c" and "scr_Kind c \<noteq> ''''"
    and "sreq_Method r = ''POST''" and "sreq_Path r = ''/api/v1/devices/'' @ path_escape d @ ''/commands''"
    and "send w defaultSendTimeout d \<lparr>rq_ID = '''', rq_Kind = scr_Kind c, rq_Arguments = scr_Arguments c\<rparr> = (res, w')"
  shows "server_serve (wired_handlers parts newRequest do uuidParse p ks lib now m send ping version) (tab, w) r =
    (Answer (command_reply res), tab, w')"
proof -
  have pv: "hreq_PathValue (handler_request r [(''deviceID'', d)]) ''deviceID'' = d"
    by (simp add: handler_request_def path_value_def)
  then have "may_send (Authenticate newRequest do (cp_authenticator parts)) (IsOwner (ListByUser p ks) tab)
      (handler_request r [(''deviceID'', d)]) (sreq_Body r) user c"
    using assms(1-6) by (auto simp: may_send_def proper_elem_def)
  from Handler_Send_sends [OF this, of send w] show ?thesis
    using command_route [OF assms(1)] assms(7-9) pv by (simp add: server_serve_def wired_handlers_eq Let_def)
qed

lemma Handler_Register_table:
  assumes "Handler_Register authn (Register uuidParse (Upsert p) issue) tab r body = (resp, tab')" and "tab' \<noteq> tab"
  shows "\<exists>token user row req. BearerToken r = Some token \<and> authn token = Inr user \<and> read_register_request body = Some req \<and>
    written_row p tab (device_of_input (usr_ID user) (input_of_request req)) = Some row \<and>
    tab' = fmupd (pg_canon p (req_DeviceID req)) row tab"
proof -
  from assms obtain user req where u: "Handler_authenticate authn r = Inr user" and b: "read_register_request body = Some req"
    and t: "tab' = snd (Register uuidParse (Upsert p) issue tab (usr_ID user) (input_of_request req))"
    by (auto simp: Handler_Register_def split: sum.splits prod.splits option.splits)
  from u obtain token where "BearerToken r = Some token" "authn token = Inr user"
    by (auto simp: Handler_authenticate_Inr_iff)
  moreover have "tab' = snd (Upsert p tab (device_of_input (usr_ID user) (input_of_request req)))"
    using postgres.Register_db [of uuidParse p issue tab "usr_ID user" "input_of_request req"] t assms(2) by auto
  ultimately show ?thesis
    using Upsert_table [of p tab "device_of_input (usr_ID user) (input_of_request req)"] assms(2) b
    by (auto simp: input_of_request_def)
qed

text \<open>A request is either without effect, or it runs one of the two handlers that change state.\<close>

lemma server_serve_cases:
  assumes "server_serve hs (tab, w) r = (reply, tab', w')"
  obtains (none) "tab' = tab" "w' = w"
  | (register) vals resp where "hd_register hs tab (handler_request r vals) (sreq_Body r) = (resp, tab')" "w' = w"
  | (send) vals resp where "ServeMux server_routes (sreq_Method r) (sreq_Path r) = MuxHandler EpSendCommand vals"
      "hd_send hs tab w (handler_request r vals) (sreq_Body r) = (resp, w')" "tab' = tab"
proof (cases "ServeMux server_routes (sreq_Method r) (sreq_Path r)")
  case (MuxHandler ep vals)
  then show ?thesis using assms
    by (cases ep) (auto simp: server_serve_def Let_def split: prod.splits intro: none register send)
qed (use assms in \<open>auto simp: server_serve_def intro: none\<close>)

lemma BearerToken_handler_request: "BearerToken (handler_request r vals) = BearerToken (handler_request r [])"
  by (simp add: BearerToken_def handler_request_def)

text \<open>
  \<^bold>\<open>C1.\<close> Whatever request reaches the control plane's HTTP server, it changes nothing that is not the
  caller's: the devices table changes only for an authenticated caller, in one row, which
  then belongs to this caller and belonged to nobody else before, and the table stays
  consistent; the Command Bus changes only for a \<^verbatim>\<open>POST\<close> by an authenticated caller who is the
  recorded owner of the device named in the path.
\<close>

theorem server_changes_only_own:
  assumes "table_inv tab" and "range_order tab ks"
    and "server_serve (wired_handlers parts newRequest do uuidParse p ks lib now m send ping version) (tab, w) r =
      (reply, tab', w')"
  shows "table_inv tab' \<and>
    (tab' \<noteq> tab \<longrightarrow> (\<exists>token user k row.
       BearerToken (handler_request r []) = Some token \<and>
       Authenticate newRequest do (cp_authenticator parts) token = Inr user \<and>
       tab' = fmupd k row tab \<and> dev_UserID row = pg_canon p (usr_ID user) \<and>
       (\<forall>old. fmlookup tab k = Some old \<longrightarrow> dev_UserID old = pg_canon p (usr_ID user)))) \<and>
    (w' \<noteq> w \<longrightarrow> sreq_Method r = ''POST'' \<and> (\<exists>token user d row.
       ServeMux server_routes ''POST'' (sreq_Path r) = MuxHandler EpSendCommand [(''deviceID'', d)] \<and>
       BearerToken (handler_request r []) = Some token \<and>
       Authenticate newRequest do (cp_authenticator parts) token = Inr user \<and>
       fmlookup tab d = Some row \<and> dev_UserID row = pg_canon p (usr_ID user)))"
  using assms(3)
proof (cases rule: server_serve_cases)
  case none
  with assms(1) show ?thesis by simp
next
  case (register vals resp)
  show ?thesis
  proof (cases "tab' = tab")
    case False
    let ?authn = "Authenticate newRequest do (cp_authenticator parts)"
    from register(1) have "Handler_Register ?authn (Register uuidParse (Upsert p) (Issue lib now (cp_tokenIssuer parts)))
        tab (handler_request r vals) (sreq_Body r) = (resp, tab')"
      by (simp add: wired_handlers_eq register_endpoint_def Let_def)
    from Handler_Register_table [OF this False] obtain token and user :: User and row :: Device and req :: DeviceRegisterRequest where
      t: "BearerToken (handler_request r []) = Some token" "?authn token = Inr user"
      and row: "written_row p tab (device_of_input (usr_ID user) (input_of_request req)) = Some row"
      and tab': "tab' = fmupd (pg_canon p (req_DeviceID req)) row tab"
      by (auto simp: BearerToken_handler_request [of r vals])
    have sel: "dev_ID (device_of_input (usr_ID user) (input_of_request req)) = req_DeviceID req"
      "dev_UserID (device_of_input (usr_ID user) (input_of_request req)) = usr_ID user"
      by (simp_all add: input_of_request_def)
    note w = written_row_sel [OF assms(1) row, unfolded sel]
    from w assms(1) have "table_inv tab'" by (simp add: tab' table_inv_def)
    moreover have "\<forall>old. fmlookup tab (pg_canon p (req_DeviceID req)) = Some old \<longrightarrow>
        dev_UserID old = pg_canon p (usr_ID user)"
      using written_row_existing(1) [OF row, unfolded sel] by blast
    ultimately show ?thesis using t tab' w register(2) by blast
  qed (use assms(1) register(2) in simp)
next
  case (send vals resp)
  from ServeMux_send [OF send(1)] obtain d where d: "sreq_Method r = ''POST''" "vals = [(''deviceID'', d)]" by blast
  have ok: "case (ks, tab) of (ks, tab) \<Rightarrow> table_inv tab \<and> range_order tab ks" using assms(1,2) by simp
  have h: "Handler_Send (Authenticate newRequest do (cp_authenticator parts)) (IsOwner (ListByUser p ks) tab) send w
      (handler_request r vals) (sreq_Body r) = (resp, w')"
    using send(2) by (simp add: wired_handlers_eq Let_def)
  have pv: "hreq_PathValue (handler_request r vals) ''deviceID'' = d"
    by (simp add: d(2) handler_request_def path_value_def)
  from server_api.sends_only_for_owner [OF ok, of newRequest do "cp_authenticator parts" p send w "handler_request r vals"
      "sreq_Body r" resp w'] h
  show ?thesis using assms(1) send(1,3) d
    by (auto simp: pv [unfolded d(2)] BearerToken_handler_request [of r "[(''deviceID'', d)]"])
qed

section \<open>The stored rows\<close>

text \<open>
  Serving requests one after the other. What changes from one request to the next, the clock,
  the answers of Supabase and Postgres, the connected devices and the Command Bus, is open.
\<close>

inductive server_step ::
  "control_plane_parts \<Rightarrow> (string \<Rightarrow> error option) \<Rightarrow> jwt \<Rightarrow> string \<Rightarrow>
   table \<times> 'w \<Rightarrow> server_request \<Rightarrow> table \<times> 'w \<Rightarrow> bool"
  for parts uuidParse lib version where
  serve: "server_serve (wired_handlers parts newRequest do uuidParse p ks lib now m send ping version) (tab, w) r =
      (reply, tab', w') \<Longrightarrow> server_step parts uuidParse lib version (tab, w) r (tab', w')"

inductive_cases server_stepE: "server_step parts uuidParse lib version s r t"

definition text_row :: "Device \<Rightarrow> bool" where
  "text_row d \<longleftrightarrow> valid_utf8 (dev_Hostname d) \<and> valid_utf8 (dev_OperatingSystem d) \<and> valid_utf8 (dev_Architecture d) \<and>
     valid_utf8 (dev_DeployOSVersion d) \<and> dev_Status d = StatusRegistered"

definition typed_table :: "table \<Rightarrow> bool" where
  "typed_table tab \<longleftrightarrow> table_inv tab \<and> (\<forall>k row. fmlookup tab k = Some row \<longrightarrow> text_row row)"

lemma written_row_text:
  assumes "typed_table tab" and "text_request req"
    and "written_row p tab (device_of_input u (input_of_request req)) = Some row"
  shows "text_row row"
proof -
  let ?d = "device_of_input u (input_of_request req)"
  have d: "text_row ?d" using assms(2) by (simp add: text_row_def text_request_def device_of_input_def input_of_request_def)
  from assms(3) consider i u' where "row = inserted_row p i u' ?d" | k old where "fmlookup tab k = Some old" "row = updated_row p old ?d"
    by (auto simp: written_row_def split: option.splits if_splits)
  then show ?thesis
  proof cases
    case 1
    with d show ?thesis by (simp add: text_row_def inserted_row_def)
  next
    case 2
    with assms(1) have "text_row old" by (simp add: typed_table_def)
    with 2 d show ?thesis by (simp add: text_row_def updated_row_def)
  qed
qed

interpretation served: inductive_invariant "server_step parts uuidParse lib version" "(fmempty, w0)"
  "\<lambda>(tab, w). typed_table tab" for parts uuidParse lib version w0
proof
  show "case (fmempty, w0) of (tab, w) \<Rightarrow> typed_table tab" by (simp add: typed_table_def table_inv_empty)
  show "case t of (tab, w) \<Rightarrow> typed_table tab"
    if inv: "case s of (tab, w) \<Rightarrow> typed_table tab" and step: "server_step parts uuidParse lib version s r t" for s r t
  proof -
    from step obtain newRequest do p ks now m send ping tab w reply tab' w' where st: "s = (tab, w)" "t = (tab', w')"
      and serve: "server_serve (wired_handlers parts newRequest do uuidParse p ks lib now m send ping version) (tab, w) r =
        (reply, tab', w')" by (rule server_stepE)
    let ?authn = "Authenticate newRequest do (cp_authenticator parts)"
    from inv st(1) have typed: "typed_table tab" by simp
    have "typed_table tab'"
      using serve
    proof (cases rule: server_serve_cases)
      case (register vals resp)
      show ?thesis
      proof (cases "tab' = tab")
        case False
        from register(1) have "Handler_Register ?authn (Register uuidParse (Upsert p) (Issue lib now (cp_tokenIssuer parts)))
            tab (handler_request r vals) (sreq_Body r) = (resp, tab')"
          by (simp add: wired_handlers_eq register_endpoint_def Let_def)
        from Handler_Register_table [OF this False] obtain user :: User and row :: Device and req :: DeviceRegisterRequest where
          req: "read_register_request (sreq_Body r) = Some req"
          and row: "written_row p tab (device_of_input (usr_ID user) (input_of_request req)) = Some row"
          and tab': "tab' = fmupd (pg_canon p (req_DeviceID req)) row tab" by blast
        from typed have inv: "table_inv tab" by (simp add: typed_table_def)
        have "dev_ID row = pg_canon p (req_DeviceID req)" "row_ok row"
          using written_row_sel [OF inv row] by (simp_all add: input_of_request_def)
        with typed written_row_text [OF typed read_register_request_text [OF req] row] show ?thesis
          by (simp add: tab' typed_table_def table_inv_def)
      qed (simp add: typed)
    qed (simp_all add: typed)
    with st(2) show ?thesis by simp
  qed
qed

text \<open>
  \<^bold>\<open>C10.\<close> What the devices table holds is well typed, whatever bytes the control plane is sent: after
  any sequence of HTTP requests, starting from the empty table, every row is stored under its
  own identifier, its texts are UTF-8, its number of cores is positive and fits 32 bits, its
  memory is positive and fits a signed 64-bit integer, and its status is \<^verbatim>\<open>registered\<close>.
\<close>

theorem stored_rows_well_typed:
  assumes "run (server_step parts uuidParse lib version) (fmempty, w) rs (tab, w')" and "fmlookup tab k = Some row"
  shows "dev_ID row = k \<and> valid_utf8 (dev_Hostname row) \<and> valid_utf8 (dev_OperatingSystem row) \<and>
    valid_utf8 (dev_Architecture row) \<and> valid_utf8 (dev_DeployOSVersion row) \<and> dev_Status row = ''registered'' \<and>
    0 < dev_CPUCores row \<and> dev_CPUCores row < 2 ^ 31 \<and> 0 < uint (dev_MemoryBytes row) \<and> uint (dev_MemoryBytes row) < 2 ^ 63"
proof -
  have "typed_table tab" using served.reachable_inv [OF reachableI [OF assms(1)]] by simp
  with assms(2) show ?thesis
    by (auto simp: typed_table_def table_inv_def row_ok_def text_row_def StatusRegistered_def)
qed

section \<open>A concrete control plane\<close>

definition demo_parts :: control_plane_parts where
  "demo_parts = \<lparr>cp_logger = logging_New ''info'',
     cp_registry = Registry_Register ''database'' (\<lambda>ping. ping) NewRegistry,
     cp_authenticator = NewSupabaseAuthenticator ''https://p'' ''key'', cp_tokenIssuer = demo_issuer,
     cp_manager = NewManager, cp_httpServer = NewHTTPServer '':8080'', cp_grpcServer = NewGRPCServer '':9090''\<rparr>"

definition demo_handlers :: "nat handlers" where
  "demo_handlers = wired_handlers demo_parts (\<lambda>_. None) demo_supabase_user (\<lambda>_. None) (demo_pg 7) [''d1''] demo_jwt 0
     demo_manager demo_send None ''dev''"

definition demo_command_body :: string where
  "demo_command_body = json_text (encode_command_request \<lparr>scr_Kind = ''PING'', scr_Arguments = fmempty\<rparr>)"

lemma demo_command_body_read:
  "read_command_request demo_command_body = Some \<lparr>scr_Kind = ''PING'', scr_Arguments = fmempty\<rparr>"
proof -
  have "valid_utf8 ''PING''" by (simp add: ascii_valid_utf8)
  then show ?thesis using read_written(2) [of "\<lparr>scr_Kind = ''PING'', scr_Arguments = fmempty\<rparr>"]
    by (simp add: demo_command_body_def coerced_command_request_def valid_keys_def)
qed

definition demo_command_request :: server_request where
  "demo_command_request = \<lparr>sreq_Method = ''POST'', sreq_Path = ''/api/v1/devices/d1/commands'',
     sreq_Authorization = ''Bearer good'', sreq_Body = demo_command_body\<rparr>"

lemma demo_route: "ServeMux server_routes ''POST'' ''/api/v1/devices/d1/commands'' = MuxHandler EpSendCommand [(''deviceID'', ''d1'')]"
  by code_simp

lemma demo_bearer_handler: "BearerToken (handler_request demo_command_request vals) = Some ''good''"
  using demo_bearer by (simp add: BearerToken_def handler_request_def demo_command_request_def demo_operator_request_def)

lemma demo_serve:
  "server_serve demo_handlers (demo_table, 0) demo_command_request =
     (Answer (command_reply (Inr (response_of demo_result))), demo_table, 1)"
proof -
  have own: "IsOwner (ListByUser (demo_pg 7) [''d1'']) demo_table ''u1'' ''d1'' = Inr True"
    by (simp add: IsOwner_def demo_list)
  have pv: "hreq_PathValue (handler_request demo_command_request [(''deviceID'', ''d1'')]) ''deviceID'' = ''d1''"
    by (simp add: handler_request_def path_value_def)
  have req: "sreq_Method demo_command_request = ''POST''" "sreq_Path demo_command_request = ''/api/v1/devices/d1/commands''"
    "sreq_Body demo_command_request = demo_command_body"
    by (simp_all add: demo_command_request_def)
  have authn: "cp_authenticator demo_parts = NewSupabaseAuthenticator ''https://p'' ''key''" by (simp add: demo_parts_def)
  show ?thesis
    by (simp add: server_serve_def req demo_route demo_handlers_def wired_handlers_eq Handler_Send_def Let_def
        demo_bearer_handler authn demo_authenticate pv AgentID_Validate_def own demo_send_def
        demo_command_body_read)
qed

theorem server_changes_only_own_witness:
  "\<exists>token user d row.
     ServeMux server_routes ''POST'' (sreq_Path demo_command_request) = MuxHandler EpSendCommand [(''deviceID'', d)] \<and>
     BearerToken (handler_request demo_command_request []) = Some token \<and>
     Authenticate (\<lambda>_. None) demo_supabase_user (cp_authenticator demo_parts) token = Inr user \<and>
     fmlookup demo_table d = Some row \<and> dev_UserID row = pg_canon (demo_pg 7) (usr_ID user)"
  using server_changes_only_own [OF demo_table_inv demo_scan demo_serve [unfolded demo_handlers_def]] by simp

definition demo_failing_start :: "(http_event, grpc_event) group_event list" where
  "demo_failing_start = [StepA HServe, StepB (GListens (Some (anon ''address in use''))), StepA HSelectDone,
     StepA HShutdownCall, StepA (HServeReturns ErrServerClosed), StepA HSend, StepA (HShutdownReturns None), StepA HReceiveErr]"


lemma register_route: "ServeMux server_routes ''POST'' ''/api/v1/devices/register'' = MuxHandler EpRegister []"
  by code_simp

definition demo_register_http :: server_request where
  "demo_register_http = \<lparr>sreq_Method = ''POST'', sreq_Path = ''/api/v1/devices/register'',
     sreq_Authorization = ''Bearer good'', sreq_Body = demo_register_body\<rparr>"

lemma demo_register_step:
  "server_step demo_parts (\<lambda>_. None) demo_jwt ''dev'' (fmempty, 0 :: nat) demo_register_http (demo_table, 0)"
proof -
  let ?hs = "wired_handlers demo_parts (\<lambda>_. None) demo_supabase_user (\<lambda>_. None) (demo_pg_strict 5) [] demo_jwt 0
    demo_manager demo_send None ''dev''"
  have "BearerToken (handler_request demo_register_http []) = Some ''good''"
    using demo_bearer by (simp add: BearerToken_def handler_request_def demo_register_http_def demo_operator_request_def)
  then have "register_endpoint demo_authn (\<lambda>_. None) (demo_pg_strict 5) demo_jwt 0 demo_issuer fmempty
      (handler_request demo_register_http []) demo_register_body =
    register_endpoint demo_authn (\<lambda>_. None) (demo_pg_strict 5) demo_jwt 0 demo_issuer fmempty
      demo_operator_request demo_register_body"
    by (simp add: register_endpoint_def Handler_Register_def Handler_authenticate_def demo_bearer)
  then have "server_serve ?hs (fmempty, 0) demo_register_http =
      (Answer (writeJSON 201 (RegisterBody \<lparr>resp_DeviceID = ''d1'', resp_Token = ''tok'', resp_ExpiresAt = demo_exp\<rparr>)), demo_table, 0)"
    using demo_register_endpoint
    by (simp add: server_serve_def demo_register_http_def register_route wired_handlers_eq demo_parts_def Let_def
        demo_authn_def)
  then show ?thesis by (rule serve)
qed

theorem stored_rows_well_typed_witness:
  "\<exists>row. run (server_step demo_parts (\<lambda>_. None) demo_jwt ''dev'') (fmempty, 0 :: nat) [demo_register_http] (demo_table, 0) \<and>
    fmlookup demo_table ''d1'' = Some row \<and> valid_utf8 (dev_Hostname row) \<and> dev_Status row = ''registered''"
proof -
  have run: "run (server_step demo_parts (\<lambda>_. None) demo_jwt ''dev'') (fmempty, 0 :: nat) [demo_register_http] (demo_table, 0)"
    using demo_register_step by (simp add: run_Cons_iff)
  have row: "fmlookup demo_table ''d1'' = Some demo_row" by (simp add: demo_table_def)
  from stored_rows_well_typed [OF run row] run row show ?thesis by blast
qed

end
