(* ===== verification/Agent_Identity.thy ===== *)
theory Agent_Identity
  imports Contracts Go_Text
begin

text \<open>
  The agent's persistent identity, \<^verbatim>\<open>internal/agent/identity.go\<close>: the device identifier and the
  device token, each in a file of the data directory. The file system is a finite map from
  a directory and a file name to the file's contents; the failures of a call (reading,
  creating the directory, writing) are an argument of it, a failed write with what it left
  in the file.
\<close>

section \<open>identity.go\<close>

definition deviceIDFileName :: string where "deviceIDFileName = ''device_id''"
definition deviceTokenFileName :: string where "deviceTokenFileName = ''device_token''"

type_synonym fs = "(string \<times> string, string) fmap"

record io_faults =
  io_read :: "error option"
  io_mkdir :: "error option"
  io_write :: "(error \<times> string) option"

definition no_faults :: io_faults where
  "no_faults = \<lparr>io_read = None, io_mkdir = None, io_write = None\<rparr>"

definition readTrimmedFile :: "io_faults \<Rightarrow> fs \<Rightarrow> string \<Rightarrow> string \<Rightarrow> error + string option" where
  "readTrimmedFile io files dataDir name =
     (case io_read io of
        Some err \<Rightarrow> Inl (Wrapf (''reading '' @ name @ '': '') err '''')
      | None \<Rightarrow>
          (case fmlookup files (dataDir, name) of
             None \<Rightarrow> Inr None
           | Some contents \<Rightarrow>
               (let value = trim_space contents in if value = '''' then Inr None else Inr (Some value))))"

definition writeFile :: "io_faults \<Rightarrow> fs \<Rightarrow> string \<Rightarrow> string \<Rightarrow> string \<Rightarrow> error option \<times> fs" where
  "writeFile io files dataDir name contents =
     (case io_mkdir io of
        Some err \<Rightarrow> (Some (Wrapf ''creating data dir: '' err ''''), files)
      | None \<Rightarrow>
          (case io_write io of
             Some (err, left) \<Rightarrow>
               (Some (Wrapf (''writing '' @ name @ '': '') err ''''), fmupd (dataDir, name) left files)
           | None \<Rightarrow> (None, fmupd (dataDir, name) contents files)))"

text \<open>\<open>newID\<close> is what \<^verbatim>\<open>uuid.NewString\<close> returns, if it is called.\<close>

definition loadOrCreateDeviceID :: "io_faults \<Rightarrow> string \<Rightarrow> fs \<Rightarrow> string \<Rightarrow> (error + AgentID) \<times> fs" where
  "loadOrCreateDeviceID io newID files dataDir =
     (case readTrimmedFile io files dataDir deviceIDFileName of
        Inl err \<Rightarrow> (Inl err, files)
      | Inr (Some i) \<Rightarrow> (Inr i, files)
      | Inr None \<Rightarrow>
          (case writeFile io files dataDir deviceIDFileName newID of
             (Some err, files') \<Rightarrow> (Inl (Wrapf ''persisting device id: '' err ''''), files')
           | (None, files') \<Rightarrow> (Inr newID, files')))"

definition persistDeviceToken :: "io_faults \<Rightarrow> fs \<Rightarrow> string \<Rightarrow> string \<Rightarrow> error option \<times> fs" where
  "persistDeviceToken io files dataDir token =
     (case writeFile io files dataDir deviceTokenFileName token of
        (Some err, files') \<Rightarrow> (Some (Wrapf ''persisting device token: '' err ''''), files')
      | (None, files') \<Rightarrow> (None, files'))"

definition loadDeviceToken :: "io_faults \<Rightarrow> fs \<Rightarrow> string \<Rightarrow> error + string option" where
  "loadDeviceToken io files dataDir = readTrimmedFile io files dataDir deviceTokenFileName"

lemma file_names_differ [simp]: "deviceIDFileName \<noteq> deviceTokenFileName" "deviceTokenFileName \<noteq> deviceIDFileName"
  by (simp_all add: deviceIDFileName_def deviceTokenFileName_def)

lemma readTrimmedFile_cong:
  "fmlookup files (d, n) = fmlookup files' (d, n) \<Longrightarrow> readTrimmedFile io files d n = readTrimmedFile io files' d n"
  by (simp add: readTrimmedFile_def split: option.split)

lemma readTrimmedFile_written:
  "io_read io = None \<Longrightarrow> untrimmed v \<Longrightarrow> v \<noteq> '''' \<Longrightarrow>
     readTrimmedFile io (fmupd (d, n) v files) d n = Inr (Some v)"
  by (simp add: readTrimmedFile_def)

lemma readTrimmedFile_value: "readTrimmedFile io files d n = Inr (Some v) \<Longrightarrow> untrimmed v \<and> v \<noteq> ''''"
  by (auto simp: readTrimmedFile_def Let_def split: option.splits if_splits)

lemma writeFile_other:
  "(d', n') \<noteq> (d, n) \<Longrightarrow> fmlookup (snd (writeFile io files d n v)) (d', n') = fmlookup files (d', n')"
  by (auto simp: writeFile_def split: option.split)

lemma writeFile_ok: "writeFile io files d n v = (None, files') \<Longrightarrow> files' = fmupd (d, n) v files"
  by (auto simp: writeFile_def split: option.splits)

lemma persistDeviceToken_keeps_id:
  "fmlookup (snd (persistDeviceToken io f d tok)) (d, deviceIDFileName) = fmlookup f (d, deviceIDFileName)"
  using writeFile_other [of d deviceIDFileName d deviceTokenFileName io f tok]
  by (auto simp: persistDeviceToken_def split: prod.split option.split)

lemma loadOrCreateDeviceID_read:
  assumes "loadOrCreateDeviceID io newID files d = (Inr i, files')"
    and "untrimmed newID" and "newID \<noteq> ''''" and "io_read io' = None"
  shows "readTrimmedFile io' files' d deviceIDFileName = Inr (Some i)"
proof (cases "readTrimmedFile io files d deviceIDFileName")
  case (Inl e)
  with assms(1) show ?thesis by (simp add: loadOrCreateDeviceID_def)
next
  case (Inr r)
  show ?thesis
  proof (cases r)
    case None
    with Inr assms(1) have "i = newID" "files' = fmupd (d, deviceIDFileName) newID files"
      by (auto simp: loadOrCreateDeviceID_def dest: writeFile_ok split: prod.splits option.splits)
    with assms(2-4) readTrimmedFile_written show ?thesis by simp
  next
    case (Some v)
    with Inr assms(1) have "v = i" "files' = files" by (auto simp: loadOrCreateDeviceID_def)
    with Inr Some assms(4) show ?thesis
      by (auto simp: readTrimmedFile_def Let_def split: option.splits if_splits)
  qed
qed

text \<open>
  \<^bold>\<open>C36.\<close> The agent keeps its identity across restarts: once a start has obtained a device
  identifier, every later start that can read its files gets the same identifier and leaves
  the files as they are, whatever identifier it would have generated and whatever device
  tokens were written, or failed to be written, in between.
\<close>

theorem device_id_stable:
  assumes "loadOrCreateDeviceID io newID files dataDir = (Inr i, files')"
    and "untrimmed newID" and "newID \<noteq> ''''" and "io_read io' = None"
  shows "loadOrCreateDeviceID io' newID'
      (fold (\<lambda>(io, tok) f. snd (persistDeviceToken io f dataDir tok)) tokens files') dataDir =
    (Inr i, fold (\<lambda>(io, tok) f. snd (persistDeviceToken io f dataDir tok)) tokens files')"
proof -
  let ?f = "fold (\<lambda>(io, tok) f. snd (persistDeviceToken io f dataDir tok)) tokens files'"
  have "fmlookup ?f (dataDir, deviceIDFileName) = fmlookup files' (dataDir, deviceIDFileName)"
    by (induction tokens arbitrary: files') (auto simp: persistDeviceToken_keeps_id)
  from readTrimmedFile_cong [OF this, of io'] loadOrCreateDeviceID_read [OF assms]
  show ?thesis by (simp add: loadOrCreateDeviceID_def)
qed

text \<open>
  A persisted token is the token loaded: after \<^verbatim>\<open>persistDeviceToken\<close> succeeds with a non-empty
  token without outer white space, \<^verbatim>\<open>loadDeviceToken\<close> returns exactly this token.
\<close>

lemma token_persistence:
  assumes "persistDeviceToken io files dataDir token = (None, files')"
    and "untrimmed token" and "token \<noteq> ''''" and "io_read io' = None"
  shows "loadDeviceToken io' files' dataDir = Inr (Some token)"
proof -
  from assms(1) have "files' = fmupd (dataDir, deviceTokenFileName) token files"
    by (auto simp: persistDeviceToken_def dest: writeFile_ok split: prod.splits option.splits)
  with readTrimmedFile_written [OF assms(4,2,3)] show ?thesis by (simp add: loadDeviceToken_def)
qed

lemma untrimmed_abc: "untrimmed ''0b1c''"
  by (simp add: untrimmed_def strip_one_None space_seqs_def)

lemma demo_created:
  "loadOrCreateDeviceID no_faults ''0b1c'' fmempty ''/data'' =
     (Inr ''0b1c'', fmupd (''/data'', deviceIDFileName) ''0b1c'' fmempty)"
  by (simp add: loadOrCreateDeviceID_def readTrimmedFile_def writeFile_def no_faults_def)

theorem device_id_stable_witness:
  "fst (loadOrCreateDeviceID no_faults ''other''
      (fold (\<lambda>(io, tok) f. snd (persistDeviceToken io f ''/data'' tok))
        [(no_faults, ''tok''), (no_faults\<lparr>io_write := Some (anon ''disk full'', '''')\<rparr>, ''tok2'')]
        (fmupd (''/data'', deviceIDFileName) ''0b1c'' fmempty)) ''/data'') = Inr ''0b1c''"
proof -
  have "io_read no_faults = None" by (simp add: no_faults_def)
  from device_id_stable [OF demo_created untrimmed_abc _ this] show ?thesis by (metis fst_conv list.distinct(1))
qed

end
