(* ===== verification/Connection_Client.thy ===== *)
theory Connection_Client
  imports Complex_Main Connection_Server Commandbus_Dispatcher
begin

text \<open>
  The agent's end of the persistent connection, \<^verbatim>\<open>internal/connection/client.go\<close>. One attempt
  (\<^verbatim>\<open>connectOnce\<close>) is a function of what the environment does: the token source, dialing, the
  stream's answers up to its end. The command handlers run concurrently and \<^verbatim>\<open>connectOnce\<close>
  waits for all of them, so their answers are listed in the order of the commands, which is
  one of the orders in which they may be sent. \<^verbatim>\<open>Run\<close> is a function of the outcomes of the
  attempts and of the random numbers drawn; floating-point results go through an arbitrary
  rounding function \<open>rnd\<close>.
\<close>

section \<open>One attempt\<close>

definition DefaultInitialBackoff :: int where "DefaultInitialBackoff = 1 * second"
definition DefaultMaxBackoff :: int where "DefaultMaxBackoff = 30 * second"

record DeviceInfo =
  di_ID :: AgentID
  di_Hostname :: string
  di_OperatingSystem :: string
  di_Architecture :: string
  di_DeployOSVersion :: string

type_synonym CommandHandler = "Command option \<Rightarrow> CommandResult"

record Client =
  cl_serverAddr :: string
  cl_initialBackoff :: int
  cl_maxBackoff :: int
  cl_onCommand :: "CommandHandler option"
  cl_connected :: bool

definition NewClient :: "string \<Rightarrow> Client" where
  "NewClient serverAddr =
     \<lparr>cl_serverAddr = serverAddr, cl_initialBackoff = DefaultInitialBackoff,
      cl_maxBackoff = DefaultMaxBackoff, cl_onCommand = None, cl_connected = False\<rparr>"

definition OnCommand :: "CommandHandler \<Rightarrow> Client \<Rightarrow> Client" where
  "OnCommand handler c = c\<lparr>cl_onCommand := Some handler\<rparr>"

definition Connected :: "Client \<Rightarrow> bool" where
  "Connected c = cl_connected c"

text \<open>What the environment does during one attempt.\<close>

record attempt =
  at_token :: "error + string"
  at_dial :: "error option"
  at_open :: "error option"
  at_send :: "error option"
  at_first :: "error + ConnectionEnvelope"
  at_incoming :: "ConnectionEnvelope list"
  at_end :: error

text \<open>
  What an attempt leaves behind: the results of \<^verbatim>\<open>connectOnce\<close>, the envelopes handed to the
  stream, and whether the client was marked connected.
\<close>

record attempt_result =
  ar_authenticated :: bool
  ar_err :: "error option"
  ar_sent :: "ConnectionEnvelope list"
  ar_connected :: bool

definition authenticate_request :: "DeviceInfo \<Rightarrow> string \<Rightarrow> ConnectionEnvelope" where
  "authenticate_request device tok =
     envelope (Payload_AuthenticateRequest (Some
       \<lparr>areq_Connection = Some \<lparr>pbc_DeviceToken = tok, pbc_ProtocolVersion = ProtocolVersion\<rparr>,
        areq_Device = Some
          \<lparr>pbd_Id = di_ID device, pbd_Hostname = di_Hostname device,
           pbd_OperatingSystem = di_OperatingSystem device, pbd_Architecture = di_Architecture device,
           pbd_DeployosVersion = di_DeployOSVersion device\<rparr>\<rparr>))"

text \<open>The receive loop: the answers to the commands among the received envelopes.\<close>

fun answers :: "CommandHandler option \<Rightarrow> ConnectionEnvelope list \<Rightarrow> ConnectionEnvelope list" where
  "answers onCommand [] = []"
| "answers onCommand (env # envs) =
     (case (GetCommandRequest (Some env), onCommand) of
        (Some cmd, Some handler) \<Rightarrow>
          envelope (Payload_CommandResponse (Some (handler (Some cmd)))) # answers onCommand envs
      | _ \<Rightarrow> answers onCommand envs)"

definition failed_attempt :: "error \<Rightarrow> ConnectionEnvelope list \<Rightarrow> attempt_result" where
  "failed_attempt err sent =
     \<lparr>ar_authenticated = False, ar_err = Some err, ar_sent = sent, ar_connected = False\<rparr>"

definition connectOnce :: "Client \<Rightarrow> DeviceInfo \<Rightarrow> attempt \<Rightarrow> attempt_result" where
  "connectOnce c device a =
     (case at_token a of
        Inl err \<Rightarrow> failed_attempt (Wrapf ''loading device token: '' err '''') []
      | Inr tok \<Rightarrow>
      (case at_dial a of
         Some err \<Rightarrow> failed_attempt (Wrapf ''dialing control plane: '' err '''') []
       | None \<Rightarrow>
       (case at_open a of
          Some err \<Rightarrow> failed_attempt (Wrapf ''opening connection stream: '' err '''') []
        | None \<Rightarrow>
        (case at_send a of
           Some err \<Rightarrow> failed_attempt (Wrapf ''sending authenticate request: '' err '''') []
         | None \<Rightarrow>
           (let request = authenticate_request device tok in
            case at_first a of
              Inl err \<Rightarrow> failed_attempt (Wrapf ''receiving authenticate response: '' err '''') [request]
            | Inr env \<Rightarrow>
              (case GetAuthenticateResponse (Some env) of
                 None \<Rightarrow> failed_attempt
                   (anon ''expected an authenticate response as the first message'') [request]
               | Some resp \<Rightarrow>
                 (if \<not> AuthenticateResponse_GetAuthenticated (Some resp)
                  then failed_attempt (anon (''control plane rejected authentication: '' @
                         AuthenticateResponse_GetError (Some resp))) [request]
                  else \<lparr>ar_authenticated = True,
                        ar_err = (if errors_is (at_end a) io_EOF then None else Some (at_end a)),
                        ar_sent = request # answers (cl_onCommand c) (at_incoming a),
                        ar_connected = True\<rparr>)))))))"

section \<open>Reconnecting\<close>

text \<open>\<open>r\<close> is what \<^verbatim>\<open>rand.Float64\<close> returned; the conversion to a duration truncates.\<close>

definition jitter :: "(rat \<Rightarrow> rat) \<Rightarrow> rat \<Rightarrow> int \<Rightarrow> int" where
  "jitter rnd r d =
     (let factor = rnd (rnd (4 / 5) + rnd (r * rnd (2 / 5))) in
      \<lfloor>rnd (rnd (of_int d) * factor)\<rfloor>)"

text \<open>
  One turn of the loop of \<^verbatim>\<open>Run\<close>: did the attempt authenticate, was the context cancelled by
  its end, the random number, was it cancelled during the wait.
\<close>

record round =
  rd_authenticated :: bool
  rd_cancelled :: bool
  rd_random :: rat
  rd_cancelled_wait :: bool

text \<open>
  The turns of the loop: the pairs of back-off and wait, and whether \<^verbatim>\<open>Run\<close> returned (it has
  not when the turns given are only the first ones).
\<close>

fun Run_loop :: "(rat \<Rightarrow> rat) \<Rightarrow> Client \<Rightarrow> int \<Rightarrow> round list \<Rightarrow> (int \<times> int) list \<times> bool" where
  "Run_loop rnd c backoff [] = ([], False)"
| "Run_loop rnd c backoff (rd # rds) =
     (if rd_cancelled rd then ([], True)
      else
        (let backoff' = (if rd_authenticated rd then cl_initialBackoff c else backoff);
             wait = jitter rnd (rd_random rd) backoff' in
         if rd_cancelled_wait rd then ([(backoff', wait)], True)
         else (case Run_loop rnd c (min (i64 (backoff' * 2)) (cl_maxBackoff c)) rds of
                 (ws, returned) \<Rightarrow> ((backoff', wait) # ws, returned))))"

definition Client_Run :: "(rat \<Rightarrow> rat) \<Rightarrow> Client \<Rightarrow> round list \<Rightarrow> (int \<times> int) list \<times> bool" where
  "Client_Run rnd c rds = Run_loop rnd c (cl_initialBackoff c) rds"

section \<open>Properties of one attempt\<close>

lemma failed_attempt_sel [simp]:
  "\<not> ar_authenticated (failed_attempt err sent)" "ar_err (failed_attempt err sent) = Some err"
  "ar_sent (failed_attempt err sent) = sent" "\<not> ar_connected (failed_attempt err sent)"
  by (simp_all add: failed_attempt_def)

lemma connectOnce_refused:
  "\<not> ar_authenticated (connectOnce c device a) \<Longrightarrow>
     (\<exists>err. ar_err (connectOnce c device a) = Some err) \<and>
     length (ar_sent (connectOnce c device a)) \<le> 1 \<and> \<not> ar_connected (connectOnce c device a)"
  by (auto simp: connectOnce_def Let_def split: sum.splits option.splits)

lemma connectOnce_served:
  "ar_authenticated (connectOnce c device a) \<Longrightarrow>
     \<exists>tok env resp. at_token a = Inr tok \<and> at_dial a = None \<and> at_open a = None \<and> at_send a = None \<and>
       at_first a = Inr env \<and> GetAuthenticateResponse (Some env) = Some resp \<and> aresp_Authenticated resp \<and>
       connectOnce c device a =
         \<lparr>ar_authenticated = True, ar_err = (if errors_is (at_end a) io_EOF then None else Some (at_end a)),
          ar_sent = authenticate_request device tok # answers (cl_onCommand c) (at_incoming a),
          ar_connected = True\<rparr>"
  by (auto simp: connectOnce_def Let_def AuthenticateResponse_GetAuthenticated_def
      split: sum.splits option.splits if_splits)

lemma set_answers:
  "set (answers (Some h) envs) =
     {envelope (Payload_CommandResponse (Some (h (Some cmd)))) | cmd env.
        env \<in> set envs \<and> GetCommandRequest (Some env) = Some cmd}"
  by (induction envs) (auto split: option.splits)

text \<open>The commands among the envelopes, in order, and the identifiers of their answers.\<close>

lemma answers_ids:
  "map (\<lambda>e. map_option res_CommandId (GetCommandResponse (Some e))) (answers (Some (WireHandler d)) envs) =
     map (\<lambda>cmd. Some (cmd_Id cmd)) (List.map_filter (\<lambda>e. GetCommandRequest (Some e)) envs)"
proof (induction envs)
  case (Cons env envs)
  have "res_CommandId (WireHandler d (Some cmd)) = cmd_Id cmd" for cmd
    by (simp add: WireHandler_def responseToProto_def requestFromProto_def Command_GetId_def)
  with Cons show ?case by (simp add: List.map_filter_def split: option.split)
qed (simp add: List.map_filter_def)

text \<open>
  An attempt authenticates exactly when the control plane's first message says so: the
  result says authenticated, and the client counts as connected, if and only if the token
  was loaded, dialing, opening and sending succeeded and the first message received is an
  authentication response with its flag set; the first envelope sent is then the
  authentication request for this device and token, and every other attempt ends with an
  error, having sent at most this request.
\<close>

lemma attempt_authenticated_iff:
  "(ar_authenticated (connectOnce c device a) \<longleftrightarrow>
      (\<exists>tok env resp. at_token a = Inr tok \<and> at_dial a = None \<and> at_open a = None \<and> at_send a = None \<and>
         at_first a = Inr env \<and> GetAuthenticateResponse (Some env) = Some resp \<and>
         aresp_Authenticated resp \<and>
         ar_sent (connectOnce c device a) =
           authenticate_request device tok # answers (cl_onCommand c) (at_incoming a))) \<and>
   ar_connected (connectOnce c device a) = ar_authenticated (connectOnce c device a) \<and>
   (if ar_authenticated (connectOnce c device a) then True
    else (\<exists>err. ar_err (connectOnce c device a) = Some err) \<and> length (ar_sent (connectOnce c device a)) \<le> 1)"
proof (cases "ar_authenticated (connectOnce c device a)")
  case True
  from connectOnce_served [OF this] obtain tok env resp where
    "at_token a = Inr tok" "at_dial a = None" "at_open a = None" "at_send a = None" "at_first a = Inr env"
    "GetAuthenticateResponse (Some env) = Some resp" "aresp_Authenticated resp"
    "connectOnce c device a =
         \<lparr>ar_authenticated = True, ar_err = (if errors_is (at_end a) io_EOF then None else Some (at_end a)),
          ar_sent = authenticate_request device tok # answers (cl_onCommand c) (at_incoming a),
          ar_connected = True\<rparr>" by blast
  then show ?thesis by simp
next
  case False
  have "\<not> (\<exists>tok env resp. at_token a = Inr tok \<and> at_dial a = None \<and> at_open a = None \<and> at_send a = None \<and>
      at_first a = Inr env \<and> GetAuthenticateResponse (Some env) = Some resp \<and> aresp_Authenticated resp)"
    using False by (auto simp: connectOnce_def AuthenticateResponse_GetAuthenticated_def)
  with connectOnce_refused [OF False] False show ?thesis by auto
qed


section \<open>Properties of the reconnect loop\<close>

text \<open>
  What the code relies on of floating point: a result is off by at most half a unit in the
  53rd binary place (round to nearest in double precision).
\<close>

definition rounding :: "(rat \<Rightarrow> rat) \<Rightarrow> bool" where
  "rounding rnd \<longleftrightarrow> (\<forall>x. \<bar>rnd x - x\<bar> \<le> \<bar>x\<bar> / 2 ^ 53)"

abbreviation ulp :: rat where
  "ulp \<equiv> 1 / 2 ^ 53"

lemma rounding_bounds:
  assumes "rounding rnd" and "0 \<le> lo" and "lo \<le> x" and "x \<le> hi"
  shows "lo * (1 - ulp) \<le> rnd x \<and> rnd x \<le> hi * (1 + ulp)"
proof -
  from assms have "0 \<le> x" by linarith
  from assms(1) have "\<bar>rnd x - x\<bar> \<le> \<bar>x\<bar> / 2 ^ 53" by (simp add: rounding_def)
  with \<open>0 \<le> x\<close> have "x - x / 2 ^ 53 \<le> rnd x" "rnd x \<le> x + x / 2 ^ 53" by linarith+
  moreover have "lo * (1 - ulp) \<le> x * (1 - ulp)" "x * (1 + ulp) \<le> hi * (1 + ulp)"
    using assms by (auto intro: mult_right_mono)
  ultimately show ?thesis by (simp add: algebra_simps)
qed

lemma rounding_nonneg: "rounding rnd \<Longrightarrow> 0 \<le> x \<Longrightarrow> 0 \<le> rnd x"
  using rounding_bounds [of rnd 0 x x] by simp

text \<open>The factor of \<^verbatim>\<open>jitter\<close> lies between 0.8 and 1.2, up to rounding.\<close>

lemma jitter_factor_bounds:
  assumes rnd: "rounding rnd" and r: "0 \<le> r" "r < 1"
  shows "4 / 5 - 1 / 2 ^ 48 \<le> rnd (rnd (4 / 5) + rnd (r * rnd (2 / 5))) \<and>
    rnd (rnd (4 / 5) + rnd (r * rnd (2 / 5))) \<le> 6 / 5 + 1 / 2 ^ 48"
proof -
  let ?b = "rnd (2 / 5)" and ?a = "rnd (4 / 5)"
  let ?p = "rnd (r * ?b)"
  have b: "0 \<le> ?b" "?b \<le> 2 / 5 + 1 / 2 ^ 53"
    using rounding_bounds [OF rnd, of "2 / 5" "2 / 5" "2 / 5"] rounding_nonneg [OF rnd, of "2 / 5"] by simp_all
  have "r * ?b \<le> 1 * ?b" using r b by (intro mult_right_mono) auto
  then have "0 \<le> r * ?b" "r * ?b \<le> 2 / 5 + 1 / 2 ^ 53" using r b by simp_all
  from rounding_bounds [OF rnd _ this] have p: "0 \<le> ?p" "?p \<le> 2 / 5 + 1 / 2 ^ 51" by simp_all
  have a: "4 / 5 - 1 / 2 ^ 53 \<le> ?a" "?a \<le> 4 / 5 + 1 / 2 ^ 53"
    using rounding_bounds [OF rnd, of "4 / 5" "4 / 5" "4 / 5"] by simp_all
  from a p have "4 / 5 - 1 / 2 ^ 53 \<le> ?a + ?p" "?a + ?p \<le> 6 / 5 + 1 / 2 ^ 50" by simp_all
  from rounding_bounds [OF rnd _ this] show ?thesis by simp
qed

lemma jitter_bounds:
  assumes rnd: "rounding rnd" and r: "0 \<le> r" "r < 1" and d: "0 < d" "d \<le> 2 ^ 40"
  shows "4 * d - 6 \<le> 5 * jitter rnd r d \<and> 5 * jitter rnd r d \<le> 6 * d + 1"
proof -
  let ?f = "rnd (rnd (4 / 5) + rnd (r * rnd (2 / 5)))" and ?d = "of_int d :: rat"
  note f = jitter_factor_bounds [OF rnd r]
  have "?d \<le> of_int (2 ^ 40)" using d(2) by (simp only: of_int_le_iff)
  then have dr: "0 < ?d" "?d \<le> 2 ^ 40" using d(1) by simp_all
  have D: "?d * (1 - ulp) \<le> rnd ?d" "rnd ?d \<le> ?d * (1 + ulp)"
    using rounding_bounds [OF rnd, of ?d ?d ?d] dr by simp_all
  have hi: "rnd ?d * ?f \<le> ?d * (1 + ulp) * (6 / 5 + 1 / 2 ^ 48)"
    using D f dr by (intro mult_mono) auto
  have lo: "?d * (1 - ulp) * (4 / 5 - 1 / 2 ^ 48) \<le> rnd ?d * ?f"
    using D f dr by (intro mult_mono) (auto intro: rounding_nonneg [OF rnd])
  have "?d * (1 - ulp) * (4 / 5 - 1 / 2 ^ 48) * (1 - ulp) \<le> rnd (rnd ?d * ?f)"
    "rnd (rnd ?d * ?f) \<le> ?d * (1 + ulp) * (6 / 5 + 1 / 2 ^ 48) * (1 + ulp)"
    using rounding_bounds [OF rnd _ lo hi] dr by simp_all
  then have "4 / 5 * ?d - 1 / 4 \<le> rnd (rnd ?d * ?f)" "rnd (rnd ?d * ?f) \<le> 6 / 5 * ?d + 1 / 4"
    using dr by (simp_all add: algebra_simps)
  moreover have "jitter rnd r d = \<lfloor>rnd (rnd ?d * ?f)\<rfloor>" by (simp add: jitter_def Let_def)
  moreover have "of_int \<lfloor>x\<rfloor> \<le> x" "x < of_int \<lfloor>x\<rfloor> + 1" for x :: rat by linarith+
  ultimately have "4 / 5 * ?d - 1 / 4 < of_int (jitter rnd r d) + 1" "of_int (jitter rnd r d) \<le> 6 / 5 * ?d + 1 / 4"
    by (metis order_le_less_trans, metis order_trans)
  then have "of_int (4 * d - 7) < (of_int (5 * jitter rnd r d) :: rat)"
    "(of_int (5 * jitter rnd r d) :: rat) < of_int (6 * d + 2)" by simp_all
  then show ?thesis unfolding of_int_less_iff by linarith
qed

text \<open>
  The exponent of each turn: the number of attempts in a row, before this one and since the
  last one that authenticated, that failed to authenticate.
\<close>

fun exponents :: "nat \<Rightarrow> round list \<Rightarrow> nat list" where
  "exponents n [] = []"
| "exponents n (rd # rds) =
     (let m = (if rd_authenticated rd then 0 else n) in m # exponents (Suc m) rds)"

definition backoff_at :: "Client \<Rightarrow> nat \<Rightarrow> int" where
  "backoff_at c e = min (cl_initialBackoff c * 2 ^ e) (cl_maxBackoff c)"

definition client_wf :: "Client \<Rightarrow> bool" where
  "client_wf c \<longleftrightarrow> 0 < cl_initialBackoff c \<and> cl_initialBackoff c \<le> cl_maxBackoff c \<and> cl_maxBackoff c \<le> 2 ^ 39"

lemma NewClient_wf: "client_wf (NewClient addr)"
  by (simp add: client_wf_def NewClient_def DefaultInitialBackoff_def DefaultMaxBackoff_def)

lemma backoff_at_bounds:
  assumes "client_wf c"
  shows "cl_initialBackoff c \<le> backoff_at c e" "backoff_at c e \<le> cl_maxBackoff c"
proof -
  have "cl_initialBackoff c * 1 \<le> cl_initialBackoff c * 2 ^ e"
    using assms by (intro mult_left_mono) (auto simp: client_wf_def)
  then show "cl_initialBackoff c \<le> backoff_at c e" using assms by (simp add: backoff_at_def client_wf_def)
qed (simp add: backoff_at_def)

lemma backoff_at_0: "client_wf c \<Longrightarrow> backoff_at c 0 = cl_initialBackoff c"
  by (simp add: backoff_at_def client_wf_def)

lemma backoff_at_Suc:
  assumes "client_wf c"
  shows "min (i64 (backoff_at c e * 2)) (cl_maxBackoff c) = backoff_at c (Suc e)"
proof -
  have "0 < backoff_at c e" "backoff_at c e \<le> 2 ^ 39"
    using backoff_at_bounds [OF assms, of e] assms by (auto simp: client_wf_def)
  then have "i64 (backoff_at c e * 2) = backoff_at c e * 2" by (intro i64_id) auto
  then show ?thesis using assms by (auto simp: backoff_at_def client_wf_def min_def)
qed

lemma Run_loop_backoffs:
  assumes "client_wf c"
  shows "map fst (fst (Run_loop rnd c (backoff_at c n) rds)) =
    map (backoff_at c) (take (length (fst (Run_loop rnd c (backoff_at c n) rds))) (exponents n rds))"
proof (induction rds arbitrary: n)
  case (Cons rd rds)
  from Cons.IH [of "Suc 0"] Cons.IH [of "Suc n"] show ?case
    by (simp add: Let_def split_beta backoff_at_Suc [OF assms] flip: backoff_at_0 [OF assms])
qed simp

lemma Run_loop_waits:
  "(b, w) \<in> set (fst (Run_loop rnd c backoff rds)) \<Longrightarrow> \<exists>rd \<in> set rds. w = jitter rnd (rd_random rd) b"
proof (induction rds arbitrary: backoff)
  case (Cons rd rds)
  let ?b = "if rd_authenticated rd then cl_initialBackoff c else backoff"
  from Cons.IH [of "min (i64 (?b * 2)) (cl_maxBackoff c)"] Cons.prems show ?case
    by (auto simp: Let_def split_beta split: if_splits)
qed simp

lemma Run_loop_returned:
  "snd (Run_loop rnd c backoff rds) \<longleftrightarrow> (\<exists>rd \<in> set rds. rd_cancelled rd \<or> rd_cancelled_wait rd)"
  by (induction rds arbitrary: backoff) (auto simp: Let_def split_beta)

lemma Client_Run_exponents:
  assumes "client_wf c" and "Client_Run rnd c rds = (ws, returned)"
  shows "map fst ws = map (backoff_at c) (take (length ws) (exponents 0 rds))"
  using Run_loop_backoffs [OF assms(1), of rnd 0 rds] assms by (simp add: Client_Run_def backoff_at_0)

lemma Client_Run_bounds:
  assumes "client_wf c" and "rounding rnd" and "\<forall>rd \<in> set rds. 0 \<le> rd_random rd \<and> rd_random rd < 1"
    and "Client_Run rnd c rds = (ws, returned)" and "(b, w) \<in> set ws"
  shows "cl_initialBackoff c \<le> b \<and> b \<le> cl_maxBackoff c \<and> 4 * b - 6 \<le> 5 * w \<and> 5 * w \<le> 6 * b + 1"
proof -
  from assms(5) have "b \<in> set (map fst ws)" by force
  with Client_Run_exponents [OF assms(1,4)] obtain e where "b = backoff_at c e" by (auto dest: in_set_takeD)
  with backoff_at_bounds [OF assms(1)] have b: "cl_initialBackoff c \<le> b" "b \<le> cl_maxBackoff c" by simp_all
  with assms(1) have "0 < b" "b \<le> 2 ^ 40" by (auto simp: client_wf_def)
  moreover from Run_loop_waits [of b w rnd c "cl_initialBackoff c" rds] assms(4,5)
  obtain rd where "rd \<in> set rds" "w = jitter rnd (rd_random rd) b" by (auto simp: Client_Run_def)
  ultimately show ?thesis using b assms(2,3) jitter_bounds [of rnd "rd_random rd" b] by auto
qed

text \<open>
  \<^bold>\<open>C30.\<close> The reconnect loop backs off exponentially, within bounds, and never gives up: for a
  client with sane settings the delay before the random factor is the initial back-off
  doubled once per failed attempt since the last one that authenticated, capped at the
  maximum (no doubling overflows); the delay actually waited differs from it by at most a
  fifth, plus a rounding error below two nanoseconds; and \<^verbatim>\<open>Run\<close> returns only when its
  context is cancelled.
\<close>

theorem reconnect_backoff:
  assumes "client_wf c" and "rounding rnd" and "\<forall>rd \<in> set rds. 0 \<le> rd_random rd \<and> rd_random rd < 1"
    and "Client_Run rnd c rds = (ws, returned)"
  shows "map fst ws = map (backoff_at c) (take (length ws) (exponents 0 rds)) \<and>
    (\<forall>(b, w) \<in> set ws. cl_initialBackoff c \<le> b \<and> b \<le> cl_maxBackoff c \<and>
       4 * b - 6 \<le> 5 * w \<and> 5 * w \<le> 6 * b + 1) \<and>
    (returned \<longleftrightarrow> (\<exists>rd \<in> set rds. rd_cancelled rd \<or> rd_cancelled_wait rd))"
  using Client_Run_exponents [OF assms(1,4)] Client_Run_bounds [OF assms]
    Run_loop_returned [of rnd c "cl_initialBackoff c" rds] assms(4)
  by (auto simp: Client_Run_def)

text \<open>
  The maximal back-off does not bound the delay: the random factor is applied after the cap,
  so with the default settings a delay can be more than two seconds longer than
  \<^verbatim>\<open>DefaultMaxBackoff\<close>, which the comment on the constants says it bounds.
\<close>

lemma delay_exceeds_maximum:
  assumes "rounding rnd"
  shows "\<exists>r. 0 \<le> r \<and> r < 1 \<and> DefaultMaxBackoff + 2 * second < jitter rnd r DefaultMaxBackoff"
proof (intro exI [of _ "3 / 4"] conjI)
  let ?f = "rnd (rnd (4 / 5) + rnd (3 / 4 * rnd (2 / 5)))" and ?d = "30000000000 :: rat"
  note lo = rounding_bounds [OF assms, THEN conjunct1]
  have "2 / 5 - 1 / 2 ^ 53 \<le> rnd (2 / 5)" using lo [of "2 / 5" "2 / 5" "2 / 5"] by simp
  then have "3 / 10 - 1 / 2 ^ 53 \<le> 3 / 4 * rnd (2 / 5)" by simp
  from lo [OF _ this order_refl] have "3 / 10 - 1 / 2 ^ 51 \<le> rnd (3 / 4 * rnd (2 / 5))" by simp
  moreover have "4 / 5 - 1 / 2 ^ 53 \<le> rnd (4 / 5)" using lo [of "4 / 5" "4 / 5" "4 / 5"] by simp
  ultimately have "11 / 10 - 1 / 2 ^ 50 \<le> rnd (4 / 5) + rnd (3 / 4 * rnd (2 / 5))" by simp
  from lo [OF _ this order_refl] have f: "109 / 100 \<le> ?f" by simp
  have "?d - 1 \<le> rnd ?d" using lo [of ?d ?d ?d] by simp
  with f have "(?d - 1) * (109 / 100) \<le> rnd ?d * ?f" by (intro mult_mono) auto
  from lo [OF _ this order_refl] have "32500000000 \<le> rnd (rnd ?d * ?f)" by simp
  then show "DefaultMaxBackoff + 2 * second < jitter rnd (3 / 4) DefaultMaxBackoff"
    by (simp add: jitter_def DefaultMaxBackoff_def; linarith)
qed simp_all

section \<open>A concrete client\<close>

definition demo_client :: Client where
  "demo_client = OnCommand (WireHandler demo_dispatcher) (NewClient ''localhost:9090'')"

definition demo_attempt :: attempt where
  "demo_attempt = \<lparr>at_token = Inr ''tok'', at_dial = None, at_open = None, at_send = None,
     at_first = Inr (authSuccess ''sess''), at_incoming = [demo_command], at_end = io_EOF\<rparr>"

definition demo_device_info :: DeviceInfo where
  "demo_device_info = \<lparr>di_ID = ''d1'', di_Hostname = ''host'', di_OperatingSystem = ''linux'',
     di_Architecture = ''amd64'', di_DeployOSVersion = ''dev''\<rparr>"

definition demo_rounds :: "round list" where
  "demo_rounds = [\<lparr>rd_authenticated = False, rd_cancelled = False, rd_random = 1 / 2, rd_cancelled_wait = False\<rparr>,
     \<lparr>rd_authenticated = False, rd_cancelled = False, rd_random = 0, rd_cancelled_wait = False\<rparr>,
     \<lparr>rd_authenticated = True, rd_cancelled = False, rd_random = 0, rd_cancelled_wait = True\<rparr>]"


theorem reconnect_backoff_witness:
  "map fst (fst (Client_Run (\<lambda>x. x) (NewClient ''localhost:9090'') demo_rounds)) =
     [1 * second, 2 * second, 1 * second]"
proof -
  obtain ws ret where run: "Client_Run (\<lambda>x. x) (NewClient ''localhost:9090'') demo_rounds = (ws, ret)"
    by fastforce
  have "length ws = 3"
    using run by (auto simp: Client_Run_def demo_rounds_def Let_def)
  moreover have "\<forall>rd \<in> set demo_rounds. 0 \<le> rd_random rd \<and> rd_random rd < 1"
    by (simp add: demo_rounds_def)
  moreover have "rounding (\<lambda>x. x)" by (simp add: rounding_def)
  ultimately show ?thesis
    using reconnect_backoff [OF NewClient_wf _ _ run] run
    by (simp add: demo_rounds_def backoff_at_def NewClient_def DefaultInitialBackoff_def DefaultMaxBackoff_def
        numeral_3_eq_3)
qed

end
