(* ===== verification/Containers_Docker.thy ===== *)
theory Containers_Docker
  imports Go_Path Json_Codec "HOL-Library.Multiset"
begin

text \<open>
  The container runtime, \<^verbatim>\<open>internal/containers/runtime.go\<close>, and its Docker implementation,
  \<^verbatim>\<open>internal/containers/docker\<close>. The Docker daemon is an argument that answers a URL with an
  error or a response with the text of its body, which is decoded along the field tags. Go leaves
  the order of a range over a map open, so the port and network maps come with an order. The JSON texts of the
  results, which the agent's executors put into their answers, follow the field tags of
  \<^verbatim>\<open>runtime.go\<close>.
\<close>

section \<open>runtime.go\<close>

definition ErrContainerNotFound :: error where
  "ErrContainerNotFound = New ''containers.ErrContainerNotFound'' ''container not found''"

text \<open>A time comes with the offset of its location, which its JSON text shows.\<close>

record Container =
  c_ID :: string
  c_Name :: string
  c_Image :: string
  c_Status :: string
  c_State :: string
  c_Created :: Time
  c_CreatedZone :: int

record Mount =
  mnt_Source :: string
  mnt_Destination :: string
  mnt_Mode :: string

record Port =
  port_ContainerPort :: int
  port_HostPort :: int
  port_Protocol :: string

text \<open>A nil slice is \<open>None\<close>, where one can occur.\<close>

record ContainerDetails =
  cd_Container :: Container
  cd_Command :: "string list option"
  cd_Env :: "string list option"
  cd_Mounts :: "Mount list"
  cd_Ports :: "Port list"
  cd_Networks :: "string list"
  cd_RestartCount :: int

text \<open>The JSON texts. The fields of the embedded container come first, in line with the others.\<close>

definition container_members :: "Container \<Rightarrow> (string \<times> json) list option" where
  "container_members c =
     map_option (\<lambda>t. [(''id'', encode_string (c_ID c)), (''name'', encode_string (c_Name c)),
       (''image'', encode_string (c_Image c)), (''status'', encode_string (c_Status c)),
       (''state'', encode_string (c_State c)), (''created'', t)]) (encode_time (\<lambda>_. c_CreatedZone c) (c_Created c))"

definition encode_mount :: "Mount \<Rightarrow> json" where
  "encode_mount m = JObject [(''source'', encode_string (mnt_Source m)), (''destination'', encode_string (mnt_Destination m)),
     (''mode'', encode_string (mnt_Mode m))]"

definition encode_port :: "Port \<Rightarrow> json" where
  "encode_port p = JObject [(''container_port'', encode_int (port_ContainerPort p)), (''host_port'', encode_int (port_HostPort p)),
     (''protocol'', encode_string (port_Protocol p))]"

definition encode_slice :: "('a \<Rightarrow> json) \<Rightarrow> 'a list option \<Rightarrow> json" where
  "encode_slice enc xs = (case xs of None \<Rightarrow> JNull | Some ys \<Rightarrow> JArray (map enc ys))"

definition details_members :: "ContainerDetails \<Rightarrow> (string \<times> json) list" where
  "details_members d =
     [(''command'', encode_slice encode_string (cd_Command d)), (''env'', encode_slice encode_string (cd_Env d)),
      (''mounts'', encode_slice encode_mount (Some (cd_Mounts d))), (''ports'', encode_slice encode_port (Some (cd_Ports d))),
      (''networks'', encode_slice encode_string (Some (cd_Networks d))), (''restart_count'', encode_int (cd_RestartCount d))]"

text \<open>\<^verbatim>\<open>json.Marshal\<close>; the only error is that of a time that has no text.\<close>

definition marshal_error :: "Container \<Rightarrow> error" where
  "marshal_error c =
     anon (''json: error calling MarshalJSON for type time.Time: Time.MarshalJSON: '' @
       format_error (c_CreatedZone c) (c_Created c))"

definition marshal_list :: "Container list \<Rightarrow> error + string" where
  "marshal_list cs =
     (case find (\<lambda>c. container_members c = None) cs of
        Some c \<Rightarrow> Inl (marshal_error c)
      | None \<Rightarrow> Inr (json_text (JArray (map (\<lambda>c. JObject (the (container_members c))) cs))))"

definition marshal_details :: "ContainerDetails \<Rightarrow> error + string" where
  "marshal_details d =
     (case container_members (cd_Container d) of
        None \<Rightarrow> Inl (marshal_error (cd_Container d))
      | Some kvs \<Rightarrow> Inr (json_text (JObject (kvs @ details_members d))))"

section \<open>docker.go\<close>

definition docker_errNotFound :: error where
  "docker_errNotFound = New ''docker.errNotFound'' ''docker: not found''"

text \<open>A response: its status and its body, and the error decoding it reports if it does.\<close>

record docker_response =
  dr_StatusCode :: nat
  dr_Body :: string
  dr_DecodeError :: error

text \<open>The body of an error, a struct with the message as its only field.\<close>

definition api_error_fields :: "(string \<times> string decoder) list" where
  "api_error_fields = [(''message'', decode_string)]"

definition defaultRequestTimeout :: int where
  "defaultRequestTimeout = 10 * second"

text \<open>The HTTP client: the unix socket it dials whatever the URL's host is, and its timeout.\<close>

record docker_client =
  dcl_socket :: "string option"
  dcl_Timeout :: int

record docker_Runtime =
  drt_client :: docker_client
  drt_baseURL :: string

definition NewRuntime :: "string \<Rightarrow> docker_Runtime" where
  "NewRuntime socketPath =
     \<lparr>drt_client = \<lparr>dcl_socket = Some socketPath, dcl_Timeout = defaultRequestTimeout\<rparr>,
      drt_baseURL = ''http://unix''\<rparr>"

definition newRuntimeWithClient :: "string \<Rightarrow> docker_client \<Rightarrow> docker_Runtime" where
  "newRuntimeWithClient baseURL client = \<lparr>drt_client = client, drt_baseURL = baseURL\<rparr>"

definition docker_get ::
  "(string \<Rightarrow> error option) \<Rightarrow> (string \<Rightarrow> error + docker_response) \<Rightarrow> docker_Runtime \<Rightarrow> string \<Rightarrow>
   'a decoder \<Rightarrow> 'a \<Rightarrow> error + 'a" where
  "docker_get newRequest do r path dec x =
     (let url = drt_baseURL r @ path in
      case newRequest url of
        Some err \<Rightarrow> Inl (Wrapf ''building docker api request: '' err '''')
      | None \<Rightarrow>
        (case do url of
           Inl err \<Rightarrow> Inl (Wrapf ''calling docker api: '' err '''')
         | Inr resp \<Rightarrow>
           (if dr_StatusCode resp = 404 then Inl docker_errNotFound
            else if dr_StatusCode resp \<noteq> 200 then
              Inl (anon (''docker api returned '' @ dec_nat (dr_StatusCode resp) @ '': '' @
                fst (decode_body (decode_struct api_error_fields) '''' (dr_Body resp))))
            else (case decode_body dec x (dr_Body resp) of
                    (y, status) \<Rightarrow>
                      if status = Fine then Inr y
                      else Inl (Wrapf ''decoding docker api response: '' (dr_DecodeError resp) '''')))))"

section \<open>list.go\<close>

record containerSummary =
  cs_ID :: string
  cs_Names :: "string slice"
  cs_Image :: string
  cs_Created :: int
  cs_State :: string
  cs_Status :: string

definition summary_fields :: "(string \<times> containerSummary decoder) list" where
  "summary_fields =
     [(''Id'', at_field cs_ID (\<lambda>s. cs_ID_update (\<lambda>_. s)) decode_string),
      (''Names'', at_field cs_Names (\<lambda>s. cs_Names_update (\<lambda>_. s)) (decode_slice decode_string '''')),
      (''Image'', at_field cs_Image (\<lambda>s. cs_Image_update (\<lambda>_. s)) decode_string),
      (''Created'', at_field cs_Created (\<lambda>i. cs_Created_update (\<lambda>_. i)) decode_int),
      (''State'', at_field cs_State (\<lambda>s. cs_State_update (\<lambda>_. s)) decode_string),
      (''Status'', at_field cs_Status (\<lambda>s. cs_Status_update (\<lambda>_. s)) decode_string)]"

definition zero_summary :: containerSummary where
  "zero_summary = \<lparr>cs_ID = '''', cs_Names = NilSlice, cs_Image = '''', cs_Created = 0, cs_State = '''', cs_Status = ''''\<rparr>"

definition decode_summaries :: "containerSummary slice decoder" where
  "decode_summaries = decode_slice (decode_struct summary_fields) zero_summary"

definition containerName :: "string list \<Rightarrow> string" where
  "containerName names = (case names of [] \<Rightarrow> '''' | n # _ \<Rightarrow> trim_prefix n ''/'')"

text \<open>\<^verbatim>\<open>time.Unix(sec, 0)\<close>: the seconds from year 1 to 1970 are added at 64 bits.\<close>

definition time_Unix :: "int \<Rightarrow> Time" where
  "time_Unix sec = i64 (sec + 62135596800) * second"

definition container_of_summary :: "containerSummary \<Rightarrow> Container" where
  "container_of_summary s =
     \<lparr>c_ID = cs_ID s, c_Name = containerName (slice_items (cs_Names s)), c_Image = cs_Image s,
      c_Status = cs_Status s, c_State = cs_State s, c_Created = time_Unix (cs_Created s),
      c_CreatedZone = 0\<rparr>"

definition ListContainers ::
  "(string \<Rightarrow> error option) \<Rightarrow> (string \<Rightarrow> error + docker_response) \<Rightarrow> docker_Runtime \<Rightarrow> error + Container list" where
  "ListContainers newRequest do r =
     (case docker_get newRequest do r ''/containers/json?all=true'' decode_summaries NilSlice of
        Inl err \<Rightarrow> Inl err
      | Inr summaries \<Rightarrow> Inr (map container_of_summary (slice_items summaries)))"

section \<open>inspect.go\<close>

text \<open>The structs without a name are records named after their field.\<close>

record inspect_State =
  ist_Status :: string

record inspect_Config =
  icf_Image :: string
  icf_Cmd :: "string slice"
  icf_Env :: "string slice"

record inspect_Binding =
  ibd_HostPort :: string

record inspect_NetworkSettings =
  ins_Ports :: "(string, inspect_Binding slice) fmap"
  ins_Networks :: "(string, unit) fmap"

record inspect_Mount =
  imt_Source :: string
  imt_Destination :: string
  imt_Mode :: string

record containerInspect =
  ci_ID :: string
  ci_Name :: string
  ci_Image :: string
  ci_State :: inspect_State
  ci_Created :: string
  ci_Config :: inspect_Config
  ci_RestartCount :: int
  ci_NetworkSettings :: inspect_NetworkSettings
  ci_Mounts :: "inspect_Mount slice"

definition state_fields :: "(string \<times> inspect_State decoder) list" where
  "state_fields = [(''Status'', at_field ist_Status (\<lambda>s. ist_Status_update (\<lambda>_. s)) decode_string)]"

definition config_fields :: "(string \<times> inspect_Config decoder) list" where
  "config_fields =
     [(''Image'', at_field icf_Image (\<lambda>s. icf_Image_update (\<lambda>_. s)) decode_string),
      (''Cmd'', at_field icf_Cmd (\<lambda>s. icf_Cmd_update (\<lambda>_. s)) (decode_slice decode_string '''')),
      (''Env'', at_field icf_Env (\<lambda>s. icf_Env_update (\<lambda>_. s)) (decode_slice decode_string ''''))]"

definition binding_fields :: "(string \<times> inspect_Binding decoder) list" where
  "binding_fields = [(''HostPort'', at_field ibd_HostPort (\<lambda>s. ibd_HostPort_update (\<lambda>_. s)) decode_string)]"

definition network_fields :: "(string \<times> inspect_NetworkSettings decoder) list" where
  "network_fields =
     [(''Ports'', at_field ins_Ports (\<lambda>m. ins_Ports_update (\<lambda>_. m))
        (decode_map_of (decode_slice (decode_struct binding_fields) \<lparr>ibd_HostPort = ''''\<rparr>) NilSlice)),
      (''Networks'', at_field ins_Networks (\<lambda>m. ins_Networks_update (\<lambda>_. m)) (decode_map_of (decode_struct []) ()))]"

definition mount_fields :: "(string \<times> inspect_Mount decoder) list" where
  "mount_fields =
     [(''Source'', at_field imt_Source (\<lambda>s. imt_Source_update (\<lambda>_. s)) decode_string),
      (''Destination'', at_field imt_Destination (\<lambda>s. imt_Destination_update (\<lambda>_. s)) decode_string),
      (''Mode'', at_field imt_Mode (\<lambda>s. imt_Mode_update (\<lambda>_. s)) decode_string)]"

definition inspect_fields :: "(string \<times> containerInspect decoder) list" where
  "inspect_fields =
     [(''Id'', at_field ci_ID (\<lambda>s. ci_ID_update (\<lambda>_. s)) decode_string),
      (''Name'', at_field ci_Name (\<lambda>s. ci_Name_update (\<lambda>_. s)) decode_string),
      (''Image'', at_field ci_Image (\<lambda>s. ci_Image_update (\<lambda>_. s)) decode_string),
      (''State'', at_field ci_State (\<lambda>s. ci_State_update (\<lambda>_. s)) (decode_struct state_fields)),
      (''Created'', at_field ci_Created (\<lambda>s. ci_Created_update (\<lambda>_. s)) decode_string),
      (''Config'', at_field ci_Config (\<lambda>s. ci_Config_update (\<lambda>_. s)) (decode_struct config_fields)),
      (''RestartCount'', at_field ci_RestartCount (\<lambda>i. ci_RestartCount_update (\<lambda>_. i)) decode_int),
      (''NetworkSettings'', at_field ci_NetworkSettings (\<lambda>s. ci_NetworkSettings_update (\<lambda>_. s)) (decode_struct network_fields)),
      (''Mounts'', at_field ci_Mounts (\<lambda>s. ci_Mounts_update (\<lambda>_. s))
        (decode_slice (decode_struct mount_fields) \<lparr>imt_Source = '''', imt_Destination = '''', imt_Mode = ''''\<rparr>))]"

definition zero_inspect :: containerInspect where
  "zero_inspect =
     \<lparr>ci_ID = '''', ci_Name = '''', ci_Image = '''', ci_State = \<lparr>ist_Status = ''''\<rparr>, ci_Created = '''',
      ci_Config = \<lparr>icf_Image = '''', icf_Cmd = NilSlice, icf_Env = NilSlice\<rparr>, ci_RestartCount = 0,
      ci_NetworkSettings = \<lparr>ins_Ports = fmempty, ins_Networks = fmempty\<rparr>, ci_Mounts = NilSlice\<rparr>"

definition inspectMounts :: "containerInspect \<Rightarrow> Mount list" where
  "inspectMounts ins =
     map (\<lambda>m. \<lparr>mnt_Source = imt_Source m, mnt_Destination = imt_Destination m, mnt_Mode = imt_Mode m\<rparr>)
       (slice_items (ci_Mounts ins))"

definition splitPortSpec :: "string \<Rightarrow> int \<times> string" where
  "splitPortSpec spec =
     (case cut (CHR ''/'') spec of (port, protocol, found) \<Rightarrow>
        (let protocol' = (if \<not> found then ''tcp'' else protocol) in (fst (atoi port), protocol')))"

definition inspectPorts :: "string list \<Rightarrow> containerInspect \<Rightarrow> Port list" where
  "inspectPorts ks ins =
     concat (map (\<lambda>(spec, bindings).
       (case splitPortSpec spec of (containerPort, protocol) \<Rightarrow>
          map (\<lambda>b. \<lparr>port_ContainerPort = containerPort, port_HostPort = fst (atoi (ibd_HostPort b)),
                     port_Protocol = protocol\<rparr>) (slice_items bindings)))
       (range_pairs (ins_Ports (ci_NetworkSettings ins)) ks))"

definition inspectNetworks :: "string list \<Rightarrow> containerInspect \<Rightarrow> string list" where
  "inspectNetworks ks ins = map fst (range_pairs (ins_Networks (ci_NetworkSettings ins)) ks)"

text \<open>
  \<^verbatim>\<open>time.Parse\<close> returns the zero time with an error, which is ignored. \<open>pk\<close> and \<open>nk\<close> are the
  orders of the two range loops.
\<close>

definition InspectContainer ::
  "(string \<Rightarrow> error option) \<Rightarrow> (string \<Rightarrow> error + docker_response) \<Rightarrow>
   string list \<Rightarrow> string list \<Rightarrow> docker_Runtime \<Rightarrow> string \<Rightarrow> error + ContainerDetails" where
  "InspectContainer newRequest do pk nk r i =
     (case docker_get newRequest do r (''/containers/'' @ path_escape i @ ''/json'') (decode_struct inspect_fields)
             zero_inspect of
        Inl err \<Rightarrow>
          (if errors_is err docker_errNotFound
           then Inl (Wrapf '''' ErrContainerNotFound ('': '' @ i)) else Inl err)
      | Inr ins \<Rightarrow>
          let created = (case parse_time (ci_Created ins) of None \<Rightarrow> (0, 0) | Some tz \<Rightarrow> tz) in
          Inr \<lparr>cd_Container =
                 \<lparr>c_ID = ci_ID ins, c_Name = trim_prefix (ci_Name ins) ''/'',
                  c_Image = icf_Image (ci_Config ins), c_Status = ist_Status (ci_State ins),
                  c_State = ist_Status (ci_State ins),
                  c_Created = fst created, c_CreatedZone = snd created\<rparr>,
               cd_Command = slice_value (icf_Cmd (ci_Config ins)), cd_Env = slice_value (icf_Env (ci_Config ins)),
               cd_Mounts = inspectMounts ins, cd_Ports = inspectPorts pk ins,
               cd_Networks = inspectNetworks nk ins, cd_RestartCount = ci_RestartCount ins\<rparr>)"

section \<open>Properties\<close>

lemma docker_get_404:
  "newRequest (drt_baseURL r @ path) = None \<Longrightarrow> do (drt_baseURL r @ path) = Inr resp \<Longrightarrow>
   dr_StatusCode resp = 404 \<Longrightarrow> docker_get newRequest do r path dec x = Inl docker_errNotFound"
  by (simp add: docker_get_def)

text \<open>
  Inspecting asks the daemon about exactly the container named: the request's path is
  \<^verbatim>\<open>/containers/\<close>, one segment, \<^verbatim>\<open>/json\<close>, whatever characters the identifier holds (no
  identifier can add a segment, a query or a fragment), the segment decodes back to the
  identifier, and the result depends on the daemon's answer to this request only; a 404 for
  it becomes \<^verbatim>\<open>ErrContainerNotFound\<close> with the identifier in the message.
\<close>

lemma inspect_asks_for_named_container:
  "\<exists>seg. set seg \<inter> {CHR ''/'', CHR ''?'', CHR ''#''} = {} \<and> PathUnescape seg = Some i \<and>
     (let url = drt_baseURL r @ ''/containers/'' @ seg @ ''/json'' in
      InspectContainer newRequest do pk nk r i =
        InspectContainer (\<lambda>u. if u = url then newRequest u else None)
          (\<lambda>u. if u = url then do u else Inl e) pk nk r i \<and>
      (newRequest url = None \<and> do url = Inr resp \<and> dr_StatusCode resp = 404 \<longrightarrow>
         InspectContainer newRequest do pk nk r i =
           Inl (Wrapf '''' ErrContainerNotFound ('': '' @ i))))"
proof (intro exI [of _ "path_escape i"] conjI)
  show "set (path_escape i) \<inter> {CHR ''/'', CHR ''?'', CHR ''#''} = {}" by (rule path_escape_safe)
  show "PathUnescape (path_escape i) = Some i" by simp
  show "let url = drt_baseURL r @ ''/containers/'' @ path_escape i @ ''/json'' in
      InspectContainer newRequest do pk nk r i =
        InspectContainer (\<lambda>u. if u = url then newRequest u else None)
          (\<lambda>u. if u = url then do u else Inl e) pk nk r i \<and>
      (newRequest url = None \<and> do url = Inr resp \<and> dr_StatusCode resp = 404 \<longrightarrow>
         InspectContainer newRequest do pk nk r i =
           Inl (Wrapf '''' ErrContainerNotFound ('': '' @ i)))"
    by (simp add: Let_def InspectContainer_def docker_get_def)
qed

text \<open>
  The list of containers has one entry per summary; a daemon that answers 404 makes it
  return the package's internal error, which the comment on that error says never escapes.
\<close>

lemma list_containers_404:
  assumes "newRequest (drt_baseURL r @ ''/containers/json?all=true'') = None"
    and "do (drt_baseURL r @ ''/containers/json?all=true'') = Inr resp" and "dr_StatusCode resp = 404"
  shows "ListContainers newRequest do r = Inl docker_errNotFound"
  using assms by (simp add: ListContainers_def docker_get_404)

lemma splitPortSpec_roundtrip:
  assumes "0 \<le> n" and "n < 2 ^ 63"
  shows "splitPortSpec (itoa n @ ''/'' @ proto) = (n, proto)" "splitPortSpec (itoa n) = (n, ''tcp'')"
proof -
  have d: "itoa n = dec_nat (nat n)" using assms(1) by (simp add: itoa_def)
  have "list_all is_digit (itoa n)" using dec_nat_digits [of "nat n"] d by simp
  moreover have "\<not> is_digit (CHR ''/'')" by (simp add: is_digit_def)
  ultimately have slash: "CHR ''/'' \<notin> set (itoa n)" by (auto simp: list_all_iff)
  have "fst (atoi (itoa n)) = n" using atoi_itoa [of n] assms by simp
  with cut_found [OF slash, of proto] cut_not_found [OF slash]
  show "splitPortSpec (itoa n @ ''/'' @ proto) = (n, proto)" "splitPortSpec (itoa n) = (n, ''tcp'')"
    by (simp_all add: splitPortSpec_def)
qed

text \<open>The ports and networks of a container do not depend on the order of the maps, up to order.\<close>

lemma inspect_order_free:
  assumes "range_order (ins_Ports (ci_NetworkSettings ins)) pk" "range_order (ins_Ports (ci_NetworkSettings ins)) pk'"
    and "range_order (ins_Networks (ci_NetworkSettings ins)) nk" "range_order (ins_Networks (ci_NetworkSettings ins)) nk'"
  shows "mset (inspectPorts pk ins) = mset (inspectPorts pk' ins) \<and>
    mset (inspectNetworks nk ins) = mset (inspectNetworks nk' ins)"
proof -
  have perm: "mset ks = mset ks'" if "range_order m ks" "range_order m ks'" for m :: "(string, 'v) fmap" and ks ks'
    using that set_eq_iff_mset_eq_distinct [of ks ks'] by (simp add: range_order_def)
  have "mset (concat (map f xs)) = mset (concat (map f ys))" if "mset xs = mset ys" for f :: "string \<Rightarrow> Port list" and xs ys
    using that by (simp add: mset_concat flip: sum_mset_sum_list)
  from this [OF perm [OF assms(1,2)]] show ?thesis
    using perm [OF assms(3,4)] by (simp add: inspectPorts_def inspectNetworks_def range_pairs_def o_def)
qed

definition demo_daemon :: "string \<Rightarrow> error + docker_response" where
  "demo_daemon url = Inr \<lparr>dr_StatusCode = 404, dr_Body = '''', dr_DecodeError = anon ''EOF''\<rparr>"

section \<open>The texts of the results\<close>

lemma container_members_fit:
  assumes "container_members c = Some kvs" and "(k, v) \<in> set kvs"
  shows "raw_text k \<and> json_fits d v"
proof -
  have "list_all plain_name [''id'', ''name'', ''image'', ''status'', ''state'', ''created'']" by code_simp
  then show ?thesis using assms
    by (auto simp: container_members_def raw_text_plain_name dest: encode_time_fits)
qed

text \<open>
  A list of containers has a text exactly if every creation time lies in the years 0 to 9999;
  the text is one JSON array with an object per container, in their order.
\<close>

lemma container_members_iff:
  "container_members c \<noteq> None \<longleftrightarrow> format_time (c_CreatedZone c) (c_Created c) \<noteq> None"
  by (simp add: container_members_def encode_time_def)

lemma marshal_list_outcome:
  "(\<exists>text. marshal_list cs = Inr text) \<longleftrightarrow> (\<forall>c \<in> set cs. format_time (c_CreatedZone c) (c_Created c) \<noteq> None)"
  "marshal_list cs = Inr text \<Longrightarrow>
     \<exists>vs. read_value text = Some (JArray vs) \<and> list_all2 (\<lambda>c v. \<exists>kvs. container_members c = Some kvs \<and> v = JObject kvs) cs vs"
proof -
  show "(\<exists>text. marshal_list cs = Inr text) \<longleftrightarrow> (\<forall>c \<in> set cs. format_time (c_CreatedZone c) (c_Created c) \<noteq> None)"
    unfolding container_members_iff [symmetric]
    by (auto simp: marshal_list_def find_None_iff find_Some_iff split: option.split)
  assume m: "marshal_list cs = Inr text"
  let ?vs = "map (\<lambda>c. JObject (the (container_members c))) cs"
  from m have all: "\<forall>c \<in> set cs. container_members c \<noteq> None" and body: "text = json_text (JArray ?vs)"
    by (auto simp: marshal_list_def find_None_iff split: option.splits)
  have "raw_text k \<and> json_fits d v" if "c \<in> set cs" "(k, v) \<in> set (the (container_members c))" for c k v d
    using all that container_members_fit [of c "the (container_members c)" k v d] by fastforce
  then have "json_fits maxNestingDepth (JArray ?vs)" by (fastforce simp: maxNestingDepth_def list_all_iff)
  from parse_json_text [OF this, of "[]"] have "read_value text = Some (JArray ?vs)"
    by (simp add: read_value_def body number_end_def del: json_text.simps)
  moreover have "list_all2 (\<lambda>c v. \<exists>kvs. container_members c = Some kvs \<and> v = JObject kvs) cs ?vs"
    using all by (auto simp: list_all2_conv_all_nth)
  ultimately show "\<exists>vs. read_value text = Some (JArray vs) \<and>
      list_all2 (\<lambda>c v. \<exists>kvs. container_members c = Some kvs \<and> v = JObject kvs) cs vs" by blast
qed

end
