(* ===== verification/Agent.thy ===== *)
theory Agent
  imports Agent_Identity Connection_Client Containers_Docker Monitoring Wire_Bodies
begin

text \<open>
  The node agent, \<^verbatim>\<open>internal/agent\<close>: \<^verbatim>\<open>sysinfo.go\<close>, the command executors (\<^verbatim>\<open>handlers.go\<close>), the
  registrar (\<^verbatim>\<open>registrar.go\<close>) and the agent's start (\<^verbatim>\<open>agent.go\<close>). What the operating system
  reports, the container runtime and the control plane's HTTP API are arguments.
\<close>

section \<open>sysinfo.go\<close>

record systemInfo =
  si_Hostname :: string
  si_OperatingSystem :: string
  si_Architecture :: string
  si_CPUCores :: int
  si_MemoryBytes :: "64 word"

text \<open>What the machine reports: its hostname and its memory, each with a possible error.\<close>

record machine =
  mc_Hostname :: "error + string"
  mc_VirtualMemory :: "error + 64 word"
  mc_GOOS :: string
  mc_GOARCH :: string
  mc_NumCPU :: int

definition collectSystemInfo :: "machine \<Rightarrow> error + systemInfo" where
  "collectSystemInfo m =
     (case mc_Hostname m of
        Inl err \<Rightarrow> Inl (Wrapf ''reading hostname: '' err '''')
      | Inr hostname \<Rightarrow>
          (case mc_VirtualMemory m of
             Inl err \<Rightarrow> Inl (Wrapf ''reading memory info: '' err '''')
           | Inr vmTotal \<Rightarrow>
               Inr \<lparr>si_Hostname = hostname, si_OperatingSystem = mc_GOOS m, si_Architecture = mc_GOARCH m,
                    si_CPUCores = mc_NumCPU m, si_MemoryBytes = vmTotal\<rparr>))"

section \<open>handlers.go\<close>

text \<open>Responses of executors leave the command identifier to the dispatcher.\<close>

definition ok_response :: "string \<Rightarrow> (string, string) fmap \<Rightarrow> Response" where
  "ok_response msg details =
     \<lparr>rs_CommandID = '''', rs_Success = True, rs_Message = msg, rs_Details = details\<rparr>"

definition pingExecutor :: Executor where
  "pingExecutor = ExecutorFunc (\<lambda>_. ok_response ''pong'' fmempty)"

definition getVersionExecutor :: "string \<Rightarrow> Executor" where
  "getVersionExecutor version =
     ExecutorFunc (\<lambda>_. ok_response version (fmupd ''version'' version fmempty))"

definition info_details :: "string \<Rightarrow> systemInfo \<Rightarrow> (string, string) fmap" where
  "info_details version info =
     fmupd ''deployos_version'' version
      (fmupd ''memory_bytes'' (dec_nat (unat (si_MemoryBytes info)))
      (fmupd ''cpu_cores'' (itoa (si_CPUCores info))
      (fmupd ''architecture'' (si_Architecture info)
      (fmupd ''operating_system'' (si_OperatingSystem info)
      (fmupd ''hostname'' (si_Hostname info) fmempty)))))"

definition getInfoExecutor :: "string \<Rightarrow> machine \<Rightarrow> Executor" where
  "getInfoExecutor version m =
     ExecutorFunc (\<lambda>_.
       case collectSystemInfo m of
         Inl err \<Rightarrow> failure '''' (error_text err)
       | Inr info \<Rightarrow> ok_response '''' (info_details version info))"

text \<open>A container runtime.\<close>

record runtime =
  rt_ListContainers :: "error + Container list"
  rt_InspectContainer :: "string \<Rightarrow> error + ContainerDetails"

text \<open>
  The Docker runtime behind this interface: \<open>dk\<close> holds the daemon's answers and
  the other arguments of the two operations.
\<close>

record docker_host =
  dk_newRequest :: "string \<Rightarrow> error option"
  dk_do :: "string \<Rightarrow> error + docker_response"
  dk_portOrder :: "string list"
  dk_networkOrder :: "string list"

definition docker_as_runtime :: "docker_host \<Rightarrow> docker_Runtime \<Rightarrow> runtime" where
  "docker_as_runtime dk r =
     \<lparr>rt_ListContainers = ListContainers (dk_newRequest dk) (dk_do dk) r,
      rt_InspectContainer = InspectContainer (dk_newRequest dk) (dk_do dk)
        (dk_portOrder dk) (dk_networkOrder dk) r\<rparr>"

definition payload_response :: "string \<Rightarrow> error + string \<Rightarrow> Response" where
  "payload_response key payload =
     (case payload of
        Inl err \<Rightarrow> failure '''' (error_text err)
      | Inr text \<Rightarrow> ok_response '''' (fmupd key text fmempty))"

definition listContainersExecutor :: "runtime \<Rightarrow> Executor" where
  "listContainersExecutor rt =
     ExecutorFunc (\<lambda>_.
       case rt_ListContainers rt of
         Inl err \<Rightarrow> failure '''' (error_text err)
       | Inr containers \<Rightarrow> payload_response ''containers'' (marshal_list containers))"

definition inspectContainerExecutor :: "runtime \<Rightarrow> Executor" where
  "inspectContainerExecutor rt =
     ExecutorFunc (\<lambda>req.
       let i = (case fmlookup (rq_Arguments req) ''id'' of Some v \<Rightarrow> v | None \<Rightarrow> '''') in
       if i = '''' then failure '''' ''missing required argument: id''
       else (case rt_InspectContainer rt i of
               Inl err \<Rightarrow> failure '''' (error_text err)
             | Inr details \<Rightarrow> payload_response ''container'' (marshal_details details)))"

definition newDispatcher :: "string \<Rightarrow> machine \<Rightarrow> runtime \<Rightarrow> Dispatcher" where
  "newDispatcher version m rt =
     Dispatcher_Register KindInspectContainer (inspectContainerExecutor rt)
      (Dispatcher_Register KindListContainers (listContainersExecutor rt)
       (Dispatcher_Register KindGetInfo (getInfoExecutor version m)
        (Dispatcher_Register KindGetVersion (getVersionExecutor version)
         (Dispatcher_Register KindPing pingExecutor NewDispatcher))))"

section \<open>registrar.go\<close>

text \<open>A response of the control plane: its status and its body, and the error decoding it reports if it does.\<close>

record register_reply =
  rp_StatusCode :: nat
  rp_Body :: string
  rp_DecodeError :: error

record register_call =
  rq_URL :: string
  rq_Authorization :: string
  rq_Body :: string

record registrar =
  rgr_baseURL :: string
  rgr_Timeout :: int

definition newRegistrar :: "string \<Rightarrow> registrar" where
  "newRegistrar baseURL = \<lparr>rgr_baseURL = trim_suffix baseURL ''/'', rgr_Timeout = 30 * second\<rparr>"

definition register_request_of :: "registrar \<Rightarrow> string \<Rightarrow> DeviceRegisterRequest \<Rightarrow> register_call" where
  "register_request_of r userAccessToken req =
     \<lparr>rq_URL = rgr_baseURL r @ ''/api/v1/devices/register'',
      rq_Authorization = ''Bearer '' @ userAccessToken, rq_Body = json_text (encode_register_request req)\<rparr>"

definition registrar_register ::
  "(string \<Rightarrow> error option) \<Rightarrow> (register_call \<Rightarrow> error + register_reply) \<Rightarrow> registrar \<Rightarrow> string \<Rightarrow>
   DeviceRegisterRequest \<Rightarrow> error + DeviceRegisterResponse" where
  "registrar_register newRequest do r userAccessToken req =
     (let call = register_request_of r userAccessToken req in
      case newRequest (rq_URL call) of
        Some err \<Rightarrow> Inl (Wrapf ''building registration request: '' err '''')
      | None \<Rightarrow>
        (case do call of
           Inl err \<Rightarrow> Inl (Wrapf ''calling control plane: '' err '''')
         | Inr resp \<Rightarrow>
           (if rp_StatusCode resp \<noteq> 201 then
              (if read_error (rp_Body resp) \<noteq> '''' then
                 Inl (anon (''control plane rejected registration ('' @ dec_nat (rp_StatusCode resp) @ ''): '' @
                   read_error (rp_Body resp)))
               else Inl (anon (''control plane rejected registration: status '' @ dec_nat (rp_StatusCode resp))))
            else (case read_register_response (rp_Body resp) of
                    None \<Rightarrow> Inl (Wrapf ''decoding registration response: '' (rp_DecodeError resp) '''')
                  | Some res \<Rightarrow> Inr res))))"

section \<open>agent.go\<close>

definition registrationTimeout :: int where
  "registrationTimeout = 30 * second"

record agent_Config =
  cfg_HTTPAddr :: string
  cfg_DataDir :: string
  cfg_APIBaseURL :: string
  cfg_GRPCServerAddr :: string
  cfg_UserAccessToken :: string
  cfg_DockerSocket :: string

definition register_request_for :: "string \<Rightarrow> AgentID \<Rightarrow> systemInfo \<Rightarrow> DeviceRegisterRequest" where
  "register_request_for version deviceID info =
     \<lparr>req_DeviceID = deviceID, req_Hostname = si_Hostname info,
      req_OperatingSystem = si_OperatingSystem info, req_Architecture = si_Architecture info,
      req_CPUCores = si_CPUCores info, req_MemoryBytes = si_MemoryBytes info,
      req_DeployOSVersion = version\<rparr>"

text \<open>The errors are logged and dropped: what is left is the new state of the files.\<close>

definition registerWithControlPlane ::
  "(string \<Rightarrow> error option) \<Rightarrow> (register_call \<Rightarrow> error + register_reply) \<Rightarrow> io_faults \<Rightarrow> string \<Rightarrow> agent_Config \<Rightarrow>
   fs \<Rightarrow> AgentID \<Rightarrow> systemInfo \<Rightarrow> fs" where
  "registerWithControlPlane newRequest do io version cfg files deviceID info =
     (case registrar_register newRequest do (newRegistrar (cfg_APIBaseURL cfg)) (cfg_UserAccessToken cfg)
             (register_request_for version deviceID info) of
        Inl _ \<Rightarrow> files
      | Inr resp \<Rightarrow> snd (persistDeviceToken io files (cfg_DataDir cfg) (resp_Token resp)))"

definition loadToken :: "io_faults \<Rightarrow> fs \<Rightarrow> agent_Config \<Rightarrow> error + string" where
  "loadToken io files cfg =
     (case loadDeviceToken io files (cfg_DataDir cfg) of
        Inl err \<Rightarrow> Inl (Wrapf ''loading device token: '' err '''')
      | Inr None \<Rightarrow> Inl (anon ''no device token persisted yet; waiting for registration'')
      | Inr (Some token) \<Rightarrow> Inr token)"

definition connection_check :: "Client Check" where
  "connection_check c = (if \<not> Connected c then Some (anon ''not connected to control plane'') else None)"

record Agent =
  ag_cfg :: agent_Config
  ag_registry :: "Client Registry"
  ag_registrar :: registrar
  ag_conn :: Client
  ag_dispatcher :: Dispatcher

definition Agent_New :: "string \<Rightarrow> machine \<Rightarrow> docker_host \<Rightarrow> agent_Config \<Rightarrow> Agent" where
  "Agent_New version m dk cfg =
     \<lparr>ag_cfg = cfg, ag_registry = NewRegistry, ag_registrar = newRegistrar (cfg_APIBaseURL cfg),
      ag_conn = NewClient (cfg_GRPCServerAddr cfg),
      ag_dispatcher = newDispatcher version m (docker_as_runtime dk (NewRuntime (cfg_DockerSocket cfg)))\<rparr>"

text \<open>
  \<^verbatim>\<open>Run\<close> up to the point where it starts the connection and the HTTP server: the agent with its
  command handler and its health check, and the device information the client presents.
  \<open>io\<close> gives the faults of the identity and \<open>io'\<close> those of the token write.
\<close>

definition Agent_Run ::
  "(string \<Rightarrow> error option) \<Rightarrow> (register_call \<Rightarrow> error + register_reply) \<Rightarrow> io_faults \<Rightarrow> io_faults \<Rightarrow> string \<Rightarrow>
   machine \<Rightarrow> string \<Rightarrow> Agent \<Rightarrow> fs \<Rightarrow> (error + Agent \<times> DeviceInfo) \<times> fs" where
  "Agent_Run newRequest do io io' version m newID a files =
     (case loadOrCreateDeviceID io newID files (cfg_DataDir (ag_cfg a)) of
        (Inl err, files') \<Rightarrow> (Inl (Wrapf ''loading device identity: '' err ''''), files')
      | (Inr deviceID, files') \<Rightarrow>
          (case collectSystemInfo m of
             Inl err \<Rightarrow> (Inl (Wrapf ''collecting system info: '' err ''''), files')
           | Inr info \<Rightarrow>
               (Inr (a\<lparr>ag_conn := OnCommand (WireHandler (ag_dispatcher a)) (ag_conn a),
                       ag_registry := Registry_Register ''control_plane_connection'' connection_check (ag_registry a)\<rparr>,
                     \<lparr>di_ID = deviceID, di_Hostname = si_Hostname info,
                      di_OperatingSystem = si_OperatingSystem info,
                      di_Architecture = si_Architecture info, di_DeployOSVersion = version\<rparr>),
                registerWithControlPlane newRequest do io' version (ag_cfg a) files' deviceID info)))"

definition agent_handleVersion :: "string \<Rightarrow> http_response" where
  "agent_handleVersion version = writeJSON 200 (VersionBody \<lparr>vr_Name = ''deployos-agent'', vr_Version = version\<rparr>)"

section \<open>Properties\<close>

lemma kinds_distinct [simp]:
  "KindPing \<noteq> KindGetVersion" "KindPing \<noteq> KindGetInfo" "KindPing \<noteq> KindListContainers"
  "KindPing \<noteq> KindInspectContainer" "KindGetVersion \<noteq> KindGetInfo" "KindGetVersion \<noteq> KindListContainers"
  "KindGetVersion \<noteq> KindInspectContainer" "KindGetInfo \<noteq> KindListContainers"
  "KindGetInfo \<noteq> KindInspectContainer" "KindListContainers \<noteq> KindInspectContainer"
  by (simp_all add: KindPing_def KindGetVersion_def KindGetInfo_def KindListContainers_def KindInspectContainer_def)

lemmas kinds_distinct_sym [simp] = kinds_distinct [symmetric]

text \<open>The executor an agent has for a kind.\<close>

definition agent_executor :: "string \<Rightarrow> machine \<Rightarrow> runtime \<Rightarrow> string \<Rightarrow> Executor option" where
  "agent_executor version m rt kind =
     map_of [(''PING'', pingExecutor), (''GET_VERSION'', getVersionExecutor version),
             (''GET_INFO'', getInfoExecutor version m), (''LIST_CONTAINERS'', listContainersExecutor rt),
             (''INSPECT_CONTAINER'', inspectContainerExecutor rt)] kind"

lemma newDispatcher_get: "disp_get kind (newDispatcher version m rt) = agent_executor version m rt kind"
  by (auto simp: newDispatcher_def disp.get_put disp.get_empty agent_executor_def KindPing_def KindGetVersion_def
      KindGetInfo_def KindListContainers_def KindInspectContainer_def)

lemma agent_executor_returns:
  "agent_executor version m rt kind = Some ex \<Longrightarrow> \<exists>r. ex req = Returns r"
  by (auto simp: agent_executor_def pingExecutor_def getVersionExecutor_def getInfoExecutor_def
      listContainersExecutor_def inspectContainerExecutor_def ExecutorFunc_def split: if_splits)

lemma info_details_lookup:
  "fmlookup (info_details v info) ''cpu_cores'' = Some (itoa (si_CPUCores info))"
  "fmlookup (info_details v info) ''memory_bytes'' = Some (dec_nat (unat (si_MemoryBytes info)))"
  "fmlookup (info_details v info) ''hostname'' = Some (si_Hostname info)"
  "fmlookup (info_details v info) ''deployos_version'' = Some v"
  by (simp_all add: info_details_def)


text \<open>The names in the details of every answer are texts, so that they reach the operator as they are.\<close>

lemma agent_details_keys: "valid_keys (rs_Details (Dispatch (newDispatcher v m rt) req))"
proof -
  have names: "valid_utf8 k" if "k \<in> {''version'', ''hostname'', ''operating_system'', ''architecture'', ''cpu_cores'',
      ''memory_bytes'', ''deployos_version'', ''containers'', ''container''}" for k
    using that by (auto simp: ascii_valid_utf8)
  have exec: "fmlookup (disp_executors (newDispatcher v m rt)) (rq_Kind req) = agent_executor v m rt (rq_Kind req)"
    using newDispatcher_get by (simp add: disp_get_def)
  show ?thesis
    by (auto simp: Dispatch_def exec agent_executor_def pingExecutor_def getVersionExecutor_def getInfoExecutor_def
        listContainersExecutor_def inspectContainerExecutor_def ExecutorFunc_def payload_response_def ok_response_def
        failure_def info_details_def valid_keys_def names Let_def split: option.splits sum.splits if_splits)
qed

lemma registration_keeps_identity:
  "fmlookup (registerWithControlPlane newRequest do io v cfg files d info) (cfg_DataDir cfg, deviceIDFileName) =
     fmlookup files (cfg_DataDir cfg, deviceIDFileName)"
  by (simp add: registerWithControlPlane_def persistDeviceToken_keeps_id split: sum.split)

lemma connection_health:
  "http_status (Registry_Handler [''control_plane_connection'']
     (Registry_Register ''control_plane_connection'' connection_check NewRegistry) c) = (if Connected c then 200 else 503)"
  by (simp add: Registry_Handler_def Registry_Register_def NewRegistry_def range_pairs_def connection_check_def
      StatusOK_def StatusDegraded_def)

text \<open>
  \<^bold>\<open>C35.\<close> The agent starts under its persisted identity, whether or not it could register: if its
  identity can be read or created and the system information collected, it starts, whatever
  the control plane answers; the identifier it presents is the one the data directory holds
  afterwards, its commands are answered by the five executors over its own Docker socket, and
  its health endpoint says \<^verbatim>\<open>degraded\<close> until the connection is up and \<^verbatim>\<open>ok\<close> from then on.
\<close>

theorem agent_starts:
  assumes "loadOrCreateDeviceID io newID files (cfg_DataDir cfg) = (Inr i, files')"
    and "collectSystemInfo m = Inr info"
    and "untrimmed newID" and "newID \<noteq> ''''" and "io_read io2 = None"
  shows "\<exists>a dev files''. Agent_Run newRequest do io io' v m newID (Agent_New v m dk cfg) files = (Inr (a, dev), files'') \<and>
    di_ID dev = i \<and> readTrimmedFile io2 files'' (cfg_DataDir cfg) deviceIDFileName = Inr (Some i) \<and>
    cl_onCommand (ag_conn a) =
      Some (WireHandler (newDispatcher v m (docker_as_runtime dk (NewRuntime (cfg_DockerSocket cfg))))) \<and>
    \<not> Connected (ag_conn a) \<and>
    (\<forall>c. http_status (Registry_Handler [''control_plane_connection''] (ag_registry a) c) = (if Connected c then 200 else 503))"
proof -
  let ?files = "registerWithControlPlane newRequest do io' v cfg files' i info"
  have id: "readTrimmedFile io2 ?files (cfg_DataDir cfg) deviceIDFileName = Inr (Some i)"
    using loadOrCreateDeviceID_read [OF assms(1,3,4,5)] registration_keeps_identity
    by (metis readTrimmedFile_cong)
  with assms(1,2) show ?thesis
    by (simp add: Agent_Run_def Agent_New_def OnCommand_def NewClient_def Connected_def connection_health [unfolded Connected_def])
qed

text \<open>A registration the control plane did not accept leaves the files as they were.\<close>

lemma registration_failure_keeps_files:
  assumes "do (register_request_of (newRegistrar (cfg_APIBaseURL cfg)) (cfg_UserAccessToken cfg)
      (register_request_for v d info)) = Inr reply" and "rp_StatusCode reply \<noteq> 201"
  shows "registerWithControlPlane newRequest do io v cfg files d info = files"
  using assms by (simp add: registerWithControlPlane_def registrar_register_def Let_def split: option.split)

definition demo_machine :: machine where
  "demo_machine = \<lparr>mc_Hostname = Inr ''host'', mc_VirtualMemory = Inr 1024, mc_GOOS = ''linux'',
     mc_GOARCH = ''amd64'', mc_NumCPU = 8\<rparr>"

definition demo_runtime :: runtime where
  "demo_runtime = \<lparr>rt_ListContainers = Inr [], rt_InspectContainer = (\<lambda>i. Inl ErrContainerNotFound)\<rparr>"

definition demo_info :: systemInfo where
  "demo_info = \<lparr>si_Hostname = ''host'', si_OperatingSystem = ''linux'', si_Architecture = ''amd64'',
     si_CPUCores = 8, si_MemoryBytes = 1024\<rparr>"

lemma demo_collect: "collectSystemInfo demo_machine = Inr demo_info"
  by (simp add: collectSystemInfo_def demo_machine_def demo_info_def)


definition demo_agent_config :: agent_Config where
  "demo_agent_config = \<lparr>cfg_HTTPAddr = '':8081'', cfg_DataDir = ''/data'', cfg_APIBaseURL = ''http://localhost:8080'',
     cfg_GRPCServerAddr = ''localhost:9090'', cfg_UserAccessToken = '''', cfg_DockerSocket = ''/var/run/docker.sock''\<rparr>"

definition demo_docker :: docker_host where
  "demo_docker = \<lparr>dk_newRequest = (\<lambda>_. None), dk_do = demo_daemon,
     dk_portOrder = [], dk_networkOrder = []\<rparr>"

theorem agent_starts_witness:
  "\<exists>a dev files''. Agent_Run (\<lambda>_. None) (\<lambda>_. Inl (anon ''connection refused'')) no_faults no_faults ''dev'' demo_machine ''0b1c''
      (Agent_New ''dev'' demo_machine demo_docker demo_agent_config) fmempty = (Inr (a, dev), files'') \<and>
    di_ID dev = ''0b1c'' \<and> readTrimmedFile no_faults files'' (cfg_DataDir demo_agent_config) deviceIDFileName = Inr (Some ''0b1c'') \<and>
    cl_onCommand (ag_conn a) = Some (WireHandler (newDispatcher ''dev'' demo_machine
      (docker_as_runtime demo_docker (NewRuntime (cfg_DockerSocket demo_agent_config))))) \<and>
    \<not> Connected (ag_conn a) \<and>
    (\<forall>c. http_status (Registry_Handler [''control_plane_connection''] (ag_registry a) c) = (if Connected c then 200 else 503))"
proof (rule agent_starts [OF _ demo_collect untrimmed_abc])
  show "loadOrCreateDeviceID no_faults ''0b1c'' fmempty (cfg_DataDir demo_agent_config) =
      (Inr ''0b1c'', fmupd (''/data'', deviceIDFileName) ''0b1c'' fmempty)"
    using demo_created by (simp add: demo_agent_config_def)
qed (simp_all add: no_faults_def)

end
