(* ===== verification/Commands.thy ===== *)
theory Commands
  imports Agent Config Logging
begin

text \<open>
  The two other binaries: \<^verbatim>\<open>cmd/agent/main.go\<close>, which turns the configuration into an agent, and
  the command line interface \<^verbatim>\<open>cmd/cli\<close>. The cobra package is an argument: it finds the command
  the arguments name among those the code registers and runs it. A writer is the list of its
  answers to the successive writes.
\<close>

section \<open>cmd/agent/main.go\<close>

definition agent_config_of :: "Config \<Rightarrow> agent_Config" where
  "agent_config_of cfg =
     \<lparr>cfg_HTTPAddr = ac_HTTPAddr (conf_Agent cfg), cfg_DataDir = ac_DataDir (conf_Agent cfg),
      cfg_APIBaseURL = ac_APIBaseURL (conf_Agent cfg), cfg_GRPCServerAddr = ac_GRPCServerAddr (conf_Agent cfg),
      cfg_UserAccessToken = ac_UserAccessToken (conf_Agent cfg), cfg_DockerSocket = ac_DockerSocket (conf_Agent cfg)\<rparr>"

text \<open>\<open>agentRun\<close> is \<^verbatim>\<open>Agent.Run\<close> with everything it depends on.\<close>

definition agent_run :: "string \<Rightarrow> machine \<Rightarrow> docker_host \<Rightarrow> (Agent \<Rightarrow> error option) \<Rightarrow> error + Config \<Rightarrow> Logger option \<times> error option" where
  "agent_run version m dk agentRun loaded =
     (case loaded of
        Inl err \<Rightarrow> (None, Some err)
      | Inr cfg \<Rightarrow>
          (Some (logging_New (conf_LogLevel cfg)), agentRun (Agent_New version m dk (agent_config_of cfg))))"

text \<open>\<^verbatim>\<open>main\<close>: an error is logged and ends the process with 1.\<close>

definition agent_main :: "error option \<Rightarrow> string option \<times> nat" where
  "agent_main r = (case r of Some err \<Rightarrow> (Some (error_text err), 1) | None \<Rightarrow> (None, 0))"

section \<open>cmd/cli\<close>

type_synonym writer = "string \<Rightarrow> error option"

text \<open>Successive \<^verbatim>\<open>Fprintf\<close> calls, each checked: what was written, and the first error.\<close>

fun write_all :: "writer \<Rightarrow> string list \<Rightarrow> string list \<times> error option" where
  "write_all w [] = ([], None)"
| "write_all w (t # ts) =
     (case w t of
        Some err \<Rightarrow> ([], Some err)
      | None \<Rightarrow> (case write_all w ts of (written, err) \<Rightarrow> (t # written, err)))"

record cli_command =
  cc_Use :: string
  cc_Short :: string
  cc_RunE :: "writer \<Rightarrow> string list \<times> error option"

definition newVersionCmd :: "string \<Rightarrow> cli_command" where
  "newVersionCmd version =
     \<lparr>cc_Use = ''version'', cc_Short = ''Print the deployos CLI version'',
      cc_RunE = (\<lambda>w. write_all w [version @ [CHR 0x0A]])\<rparr>"

definition newAgentCmd :: cli_command where
  "newAgentCmd =
     \<lparr>cc_Use = ''agent'', cc_Short = ''Manage the DeployOS node agent running on this machine'',
      cc_RunE = (\<lambda>w. write_all w
        [''agent management via the CLI is not implemented yet; run the deployos-agent binary directly (cmd/agent) to start an agent.'' @
         [CHR 0x0A]])\<rparr>"

text \<open>\<open>stat\<close> is the error of \<^verbatim>\<open>os.Stat\<close>, if any.\<close>

definition describePresence :: "(string \<Rightarrow> error option) \<Rightarrow> string \<Rightarrow> string" where
  "describePresence stat path =
     (case stat path of Some _ \<Rightarrow> ''not found (defaults will be used)'' | None \<Rightarrow> ''found'')"

definition newDoctorCmd :: "(string \<Rightarrow> error option) \<Rightarrow> string \<Rightarrow> string \<Rightarrow> string \<Rightarrow> cli_command" where
  "newDoctorCmd stat goVersion goos goarch =
     \<lparr>cc_Use = ''doctor'', cc_Short = ''Check that the local environment is ready to run DeployOS'',
      cc_RunE = (\<lambda>w. write_all w
        [''go runtime:  '' @ goVersion @ '' ('' @ goos @ ''/'' @ goarch @ '')'' @ [CHR 0x0A],
         ''config.yaml: '' @ describePresence stat ''config.yaml'' @ [CHR 0x0A],
         ''.env:        '' @ describePresence stat ''.env'' @ [CHR 0x0A]])\<rparr>"

record cli_root =
  rc_Use :: string
  rc_Short :: string
  rc_Long :: string
  rc_SilenceUsage :: bool
  rc_SilenceErrors :: bool
  rc_Commands :: "cli_command list"

definition newRootCmd :: "(string \<Rightarrow> error option) \<Rightarrow> string \<Rightarrow> string \<Rightarrow> string \<Rightarrow> string \<Rightarrow> cli_root" where
  "newRootCmd stat goVersion goos goarch version =
     \<lparr>rc_Use = ''deployos'', rc_Short = ''DeployOS - a personal cloud operating system'',
      rc_Long = ''DeployOS turns a machine into a secure, production-ready cloud server.'',
      rc_SilenceUsage = True, rc_SilenceErrors = True,
      rc_Commands = [newVersionCmd version, newDoctorCmd stat goVersion goos goarch, newAgentCmd]\<rparr>"

text \<open>
  \<open>cobra\<close> is the root command's \<^verbatim>\<open>Execute\<close>; \<^verbatim>\<open>main\<close> prints an error, which cobra leaves silent, and
  exits with 1.
\<close>

definition Execute :: "(cli_root \<Rightarrow> error option) \<Rightarrow> (string \<Rightarrow> error option) \<Rightarrow> string \<Rightarrow> string \<Rightarrow> string \<Rightarrow> string \<Rightarrow> error option" where
  "Execute cobra stat goVersion goos goarch version = cobra (newRootCmd stat goVersion goos goarch version)"

definition cli_main :: "error option \<Rightarrow> string \<times> nat" where
  "cli_main r = (case r of Some err \<Rightarrow> (error_text err @ [CHR 0x0A], 1) | None \<Rightarrow> ('''', 0))"

lemma write_all_ok: "snd (write_all w ts) = None \<longleftrightarrow> (\<forall>t \<in> set ts. w t = None)"
  by (induction ts) (auto split: option.splits prod.splits)

lemma write_all_prefix: "\<exists>rest. ts = fst (write_all w ts) @ rest \<and> (rest = [] \<longleftrightarrow> snd (write_all w ts) = None)"
  by (induction ts) (fastforce split: option.split prod.split)+

lemma cli_commands_distinct:
  "distinct (map cc_Use (rc_Commands (newRootCmd stat goVersion goos goarch version)))"
  by (simp add: newRootCmd_def newVersionCmd_def newDoctorCmd_def newAgentCmd_def)

text \<open>The agent the binary builds dials the addresses and the socket of the configuration.\<close>

lemma agent_config_used:
  "ag_cfg (Agent_New v m dk (agent_config_of cfg)) = agent_config_of cfg"
  "cl_serverAddr (ag_conn (Agent_New v m dk (agent_config_of cfg))) = ac_GRPCServerAddr (conf_Agent cfg)"
  by (simp_all add: Agent_New_def agent_config_of_def NewClient_def)

end
