(* ===== verification/Commandbus_Spec.thy ===== *)
theory Commandbus_Spec
  imports Commandbus_Service
begin

text \<open>
  What the Command Bus promises, as an abstract machine without pending map, channels and
  goroutines: requests are asked, sent, and then answered by a result that arrived under
  their identifier, or fail; each step is atomic. The service refines it.
\<close>

section \<open>The specification\<close>

datatype request_status = Open | Answered Response | Failed error

record bus_request =
  br_device :: AgentID
  br_request :: Request
  br_id :: string
  br_status :: request_status

record bus_spec =
  sp_requests :: "nat \<Rightarrow> bus_request option"
  sp_sent :: "(AgentID \<times> ConnectionEnvelope) set"
  sp_results :: "CommandResult set"

datatype bus_action =
    Ask nat AgentID Request string
  | Sent nat
  | Arrive CommandResult
  | AnswerWith nat CommandResult
  | Fail nat error

definition spec_init :: bus_spec where
  "spec_init = \<lparr>sp_requests = (\<lambda>_. None), sp_sent = {}, sp_results = {}\<rparr>"

abbreviation request_message :: "bus_request \<Rightarrow> AgentID \<times> ConnectionEnvelope" where
  "request_message q \<equiv> (br_device q, command_envelope (br_id q) (br_request q))"

abbreviation set_request :: "nat \<Rightarrow> bus_request \<Rightarrow> bus_spec \<Rightarrow> bus_spec" where
  "set_request k q S \<equiv> S\<lparr>sp_requests := (sp_requests S)(k := Some q)\<rparr>"

inductive spec_step :: "bus_spec \<Rightarrow> bus_action \<Rightarrow> bus_spec \<Rightarrow> bool" where
  ask: "sp_requests S k = None \<Longrightarrow> (\<forall>k' q. sp_requests S k' = Some q \<longrightarrow> br_id q \<noteq> i) \<Longrightarrow>
    spec_step S (Ask k d r i) (set_request k \<lparr>br_device = d, br_request = r, br_id = i, br_status = Open\<rparr> S)"
| sent: "sp_requests S k = Some q \<Longrightarrow> br_status q = Open \<Longrightarrow>
    spec_step S (Sent k) (S\<lparr>sp_sent := insert (request_message q) (sp_sent S)\<rparr>)"
| arrive: "spec_step S (Arrive r) (S\<lparr>sp_results := insert r (sp_results S)\<rparr>)"
| answer: "sp_requests S k = Some q \<Longrightarrow> br_status q = Open \<Longrightarrow> request_message q \<in> sp_sent S \<Longrightarrow>
    r \<in> sp_results S \<Longrightarrow> res_CommandId r = br_id q \<Longrightarrow>
    spec_step S (AnswerWith k r) (set_request k (q\<lparr>br_status := Answered (response_of r)\<rparr>) S)"
| fail: "sp_requests S k = Some q \<Longrightarrow> br_status q = Open \<Longrightarrow>
    spec_step S (Fail k e) (set_request k (q\<lparr>br_status := Failed e\<rparr>) S)"

inductive_cases spec_stepE: "spec_step S a T"

text \<open>A request that is closed stays as it is.\<close>

lemma closed_is_final:
  "run spec_step S as T \<Longrightarrow> sp_requests S k = Some q \<Longrightarrow> br_status q \<noteq> Open \<Longrightarrow> sp_requests T k = Some q"
proof (induction rule: run.induct)
  case (run_Cons S a T as U)
  from run_Cons.hyps(1) run_Cons.prems have "sp_requests T k = Some q"
    by (cases rule: spec_step.cases) auto
  with run_Cons show ?case by blast
qed simp

section \<open>The service refines it\<close>

fun status_of :: "send_state \<Rightarrow> request_status" where
  "status_of (Returned (Inr resp)) = Answered resp"
| "status_of (Returned (Inl err)) = Failed err"
| "status_of _ = Open"

definition abs_call :: "send_call \<Rightarrow> bus_request" where
  "abs_call c = \<lparr>br_device = call_device c, br_request = call_request c, br_id = call_id c,
     br_status = status_of (call_state c)\<rparr>"

definition bus_abs :: "Service \<Rightarrow> bus_spec" where
  "bus_abs s = \<lparr>sp_requests = (\<lambda>k. map_option abs_call (calls s k)), sp_sent = set (delivered s),
     sp_results = snd ` set (handled s)\<rparr>"

fun bus_act :: "Service \<Rightarrow> svc_event \<Rightarrow> bus_action option" where
  "bus_act s (SendBegin k d r i) = Some (Ask k d r i)"
| "bus_act s (SendDeliver k err) = (case err of None \<Rightarrow> Some (Sent k) | Some _ \<Rightarrow> None)"
| "bus_act s (SendReceive k) = Some (AnswerWith k (hd (chan s k)))"
| "bus_act s (SendCtxDone k err) = None"
| "bus_act s (SendCleanup k) =
     (case calls s k of
        Some c \<Rightarrow> (case call_state c of CleaningUp err \<Rightarrow> Some (Fail k err) | _ \<Rightarrow> None)
      | None \<Rightarrow> None)"
| "bus_act s (HandleTake j d env) = map_option Arrive (GetCommandResponse env)"
| "bus_act s (HandlePut j) = None"

lemma bus_abs_sel [simp]:
  "sp_requests (bus_abs s) k = map_option abs_call (calls s k)" "sp_sent (bus_abs s) = set (delivered s)"
  "sp_results (bus_abs s) = snd ` set (handled s)"
  by (simp_all add: bus_abs_def)

lemma bus_abs_NewService [simp]: "bus_abs NewService = spec_init"
  by (simp add: bus_abs_def NewService_def spec_init_def)

text \<open>Bringing the abstraction of an updated service into the form of the specification's steps.\<close>

lemma bus_abs_set_call:
  "bus_abs (set_call k c s) = set_request k (abs_call c) (bus_abs s)"
  by (auto simp: bus_abs_def)

lemma bus_abs_other [simp]:
  "bus_abs (s\<lparr>pending := p\<rparr>) = bus_abs s" "bus_abs (s\<lparr>chan := ch\<rparr>) = bus_abs s"
  "bus_abs (s\<lparr>handlers := h\<rparr>) = bus_abs s"
  "bus_abs (s\<lparr>delivered := delivered s @ [m]\<rparr>) = bus_abs s\<lparr>sp_sent := insert m (set (delivered s))\<rparr>"
  "bus_abs (s\<lparr>handled := handled s @ [(d, r)]\<rparr>) = bus_abs s\<lparr>sp_results := insert r (snd ` set (handled s))\<rparr>"
  by (auto simp: bus_abs_def)

lemma abs_call_sel [simp]:
  "br_device (abs_call c) = call_device c" "br_request (abs_call c) = call_request c" "br_id (abs_call c) = call_id c"
  "br_status (abs_call c) = status_of (call_state c)"
  by (simp_all add: abs_call_def)

lemma same_status:
  "calls s k = Some c \<Longrightarrow> status_of st = status_of (call_state c) \<Longrightarrow>
     bus_abs (set_call k (c\<lparr>call_state := st\<rparr>) s) = bus_abs s"
  by (auto simp: bus_abs_def abs_call_def)

lemma new_status:
  "abs_call (c\<lparr>call_state := st\<rparr>) = (abs_call c)\<lparr>br_status := status_of st\<rparr>"
  by (simp add: abs_call_def)

lemma ask_simulated:
  assumes "calls s k = None" and "fresh_id s (SendBegin k d r i)"
  shows "spec_step (bus_abs s) (Ask k d r i)
    (set_request k \<lparr>br_device = d, br_request = r, br_id = i, br_status = Open\<rparr> (bus_abs s))"
proof (rule spec_step.ask)
  show "\<forall>k' q. sp_requests (bus_abs s) k' = Some q \<longrightarrow> br_id q \<noteq> i"
  proof (intro allI impI)
    fix k' q
    assume "sp_requests (bus_abs s) k' = Some q"
    then obtain c where "calls s k' = Some c" "q = abs_call c" by auto
    with assms(2) show "br_id q \<noteq> i" by (simp add: fresh_id_def)
  qed
qed (simp add: assms(1))

lemma answer_simulated:
  assumes "svc_inv s" and "calls s k = Some c" and "call_state c = Waiting" and "chan s k = r # rest"
  shows "spec_step (bus_abs s) (AnswerWith k r)
    (set_request k ((abs_call c)\<lparr>br_status := Answered (response_of r)\<rparr>) (bus_abs s))"
proof -
  have "r \<in> snd ` set (handled s)" "res_CommandId r = call_id c"
    using assms(1,2,4) by (fastforce simp: svc_inv_def chan_inv_def)+
  moreover have "(call_device c, command_envelope (call_id c) (call_request c)) \<in> set (delivered s)"
    using assms(1-3) by (auto simp: svc_inv_def answer_inv_def)
  ultimately show ?thesis using assms(2,3) by (intro spec_step.answer) simp_all
qed

lemma bus_step_simulated:
  assumes "svc_inv s" and "svc_step s e t"
  shows "case bus_act s e of None \<Rightarrow> bus_abs t = bus_abs s | Some a \<Rightarrow> spec_step (bus_abs s) a (bus_abs t)"
proof -
  from assms(2) have x: "svc_exec s e = Some t" and fresh: "fresh_id s e" by (simp_all add: svc_step_def)
  from x show ?thesis
  proof (cases rule: svc_execE)
    case (begin_call k d r i)
    have "bus_abs t = set_request k \<lparr>br_device = d, br_request = r, br_id = i, br_status = Open\<rparr> (bus_abs s)"
      unfolding begin_call(3) bus_abs_set_call by (simp add: abs_call_def)
    with ask_simulated [OF begin_call(2)] fresh begin_call(1) show ?thesis by simp
  next
    case (deliver k c)
    let ?m = "(call_device c, command_envelope (call_id c) (call_request c))"
    have "bus_abs t = bus_abs (s\<lparr>delivered := delivered s @ [?m]\<rparr>)"
      unfolding deliver(4) using deliver(2,3) by (intro same_status) simp_all
    moreover have "spec_step (bus_abs s) (Sent k) (bus_abs s\<lparr>sp_sent := insert (request_message (abs_call c)) (sp_sent (bus_abs s))\<rparr>)"
      using deliver(2,3) by (intro spec_step.sent) simp_all
    ultimately show ?thesis using deliver(1) by simp
  next
    case (receive k c r rest)
    have "bus_abs t = set_request k ((abs_call c)\<lparr>br_status := Answered (response_of r)\<rparr>) (bus_abs s)"
      unfolding receive(5) bus_abs_set_call new_status by simp
    with answer_simulated [OF assms(1) receive(2-4)] receive(1,4) show ?thesis by simp
  next
    case (cleanup k c x)
    have "bus_abs t = set_request k ((abs_call c)\<lparr>br_status := Failed x\<rparr>) (bus_abs s)"
      unfolding cleanup(4) bus_abs_set_call new_status by simp
    moreover have "spec_step (bus_abs s) (Fail k x) (set_request k ((abs_call c)\<lparr>br_status := Failed x\<rparr>) (bus_abs s))"
      using cleanup(2,3) by (intro spec_step.fail) simp_all
    ultimately show ?thesis using cleanup(1-3) by simp
  qed (simp_all add: same_status spec_step.arrive [of "bus_abs s", simplified])
qed

interpretation bus: simulation svc_step NewService "\<lambda>s. svc_inv s \<and> live_inv s" spec_step bus_abs bus_act
  by unfold_locales (use bus_step_simulated in blast)

text \<open>
  \<^bold>\<open>C2.\<close> The Command Bus refines its specification: every run of the service, with its pending map,
  channels and concurrent handlers, is a run of the abstract machine in which a request is
  asked under a fresh identifier, sent, and then atomically answered by a result that arrived
  under this identifier, or fails; requests, messages sent and results received are the same.
\<close>

theorem command_bus_refines:
  assumes "run svc_step NewService es s"
  shows "\<exists>as. run spec_step spec_init as (bus_abs s) \<and> length as \<le> length es"
  using bus.trace_inclusion [OF assms] by simp

theorem command_bus_refines_witness:
  "\<exists>as. run spec_step spec_init as (bus_abs demo_waiting) \<and> length as \<le> 2"
proof -
  have "run svc_step NewService [SendBegin 0 ''dev'' demo_request ''id1'', SendDeliver 0 None] demo_waiting"
    by (simp add: run_Cons_iff svc_step_def fresh_id_def demo_waiting_def NewService_def demo_call_def)
  from command_bus_refines [OF this] show ?thesis by (simp add: numeral_2_eq_2)
qed

end
