(* ===== verification/Agent_Process.thy ===== *)
theory Agent_Process
  imports Agent Runtime_Servers Serve_Mux
begin

text \<open>
  The running agent: the tail of \<^verbatim>\<open>Agent.Run\<close> in \<^verbatim>\<open>internal/agent/agent.go\<close>, which runs the
  connection client and the HTTP server as a group. The reconnect loop \<^verbatim>\<open>Client.Run\<close> is given
  here as a step function, because it shares its flag \<^verbatim>\<open>connected\<close> with the health check; its
  waits are those of \<open>Client_Run\<close>. It is an interpretation of the contract \<open>task\<close>.
\<close>

section \<open>The reconnect loop step by step\<close>

text \<open>
  \<^verbatim>\<open>Run\<close>: at the loop's head, in \<^verbatim>\<open>connectOnce\<close> before and after it authenticated, about to clear
  the flag, about to check the context, in the select, returned.
\<close>

datatype client_pc =
  CTop | CConnecting | CServing attempt | CStore bool | CCheck bool | CWait | CReturned

text \<open>\<open>cr_waits\<close> remembers the back-offs with the delays waited.\<close>

record client_run =
  cr_pc :: client_pc
  cr_client :: Client
  cr_backoff :: int
  cr_waits :: "(int \<times> int) list"

definition client_start :: "Client \<Rightarrow> client_run" where
  "client_start c = \<lparr>cr_pc = CTop, cr_client = c, cr_backoff = cl_initialBackoff c, cr_waits = []\<rparr>"

datatype client_event =
    CLoop
  | CAttempt attempt
  | CConnectionEnds
  | CStored
  | CChecked rat
  | CDone
  | CTimer

text \<open>
  \<open>CAttempt\<close> says what the environment does in an attempt, \<open>CChecked\<close> carries the number
  \<^verbatim>\<open>rand.Float64\<close> returns, in the half-open unit interval.
\<close>

fun client_exec ::
  "(rat \<Rightarrow> rat) \<Rightarrow> DeviceInfo \<Rightarrow> bool \<Rightarrow> client_run \<Rightarrow> client_event \<Rightarrow> client_run option" where
  "client_exec rnd device done s CLoop =
     (if cr_pc s = CTop then Some (s\<lparr>cr_pc := if done then CReturned else CConnecting\<rparr>) else None)"
| "client_exec rnd device done s (CAttempt a) =
     (if cr_pc s = CConnecting
      then Some (if ar_connected (connectOnce (cr_client s) device a)
                 then s\<lparr>cr_pc := CServing a, cr_client := (cr_client s)\<lparr>cl_connected := True\<rparr>\<rparr>
                 else s\<lparr>cr_pc := CStore (ar_authenticated (connectOnce (cr_client s) device a))\<rparr>)
      else None)"
| "client_exec rnd device done s CConnectionEnds =
     (case cr_pc s of
        CServing a \<Rightarrow> Some (s\<lparr>cr_pc := CStore (ar_authenticated (connectOnce (cr_client s) device a))\<rparr>)
      | _ \<Rightarrow> None)"
| "client_exec rnd device done s CStored =
     (case cr_pc s of
        CStore authenticated \<Rightarrow>
          Some (s\<lparr>cr_pc := CCheck authenticated, cr_client := (cr_client s)\<lparr>cl_connected := False\<rparr>\<rparr>)
      | _ \<Rightarrow> None)"
| "client_exec rnd device done s (CChecked r) =
     (case cr_pc s of
        CCheck authenticated \<Rightarrow>
          (if \<not> (0 \<le> r \<and> r < 1) then None
           else if done then Some (s\<lparr>cr_pc := CReturned\<rparr>)
           else let backoff = (if authenticated then cl_initialBackoff (cr_client s) else cr_backoff s) in
             Some (s\<lparr>cr_pc := CWait, cr_backoff := backoff,
                    cr_waits := cr_waits s @ [(backoff, jitter rnd r backoff)]\<rparr>))
      | _ \<Rightarrow> None)"
| "client_exec rnd device done s CDone =
     (if cr_pc s = CWait \<and> done then Some (s\<lparr>cr_pc := CReturned\<rparr>) else None)"
| "client_exec rnd device done s CTimer =
     (if cr_pc s = CWait
      then Some (s\<lparr>cr_pc := CTop, cr_backoff := min (i64 (cr_backoff s * 2)) (cl_maxBackoff (cr_client s))\<rparr>)
      else None)"

text \<open>\<^verbatim>\<open>Run\<close> returns nothing but nil.\<close>

definition client_result :: "client_run \<Rightarrow> error option option" where
  "client_result s = (if cr_pc s = CReturned then Some None else None)"

section \<open>The running agent\<close>

definition agent_group ::
  "(client_run, http_run) errgroup_lib \<Rightarrow> (rat \<Rightarrow> rat) \<Rightarrow> DeviceInfo \<Rightarrow> (client_run, http_run) errgroup \<Rightarrow>
   (client_event, http_event) group_event \<Rightarrow> (client_run, http_run) errgroup option" where
  "agent_group lib rnd device = group_exec lib (client_exec rnd device) client_result http_exec http_result"

definition agent_group_start :: "Agent \<Rightarrow> (client_run, http_run) errgroup" where
  "agent_group_start a = new_group (client_start (ag_conn a)) http_start"

definition agent_Wait :: "(client_run, http_run) errgroup_lib \<Rightarrow> (client_run, http_run) errgroup \<Rightarrow> error option option" where
  "agent_Wait lib g = group_Wait lib client_result http_result g"

datatype agent_endpoint = AgHealth | AgVersion

definition agent_routes :: "agent_endpoint route list" where
  "agent_routes = [(''GET'', [Lit ''healthz''], AgHealth), (''GET'', [Lit ''version''], AgVersion)]"

text \<open>A request to the agent's HTTP server while its client is in the state \<open>c\<close>.\<close>

definition agent_serve :: "string \<Rightarrow> Agent \<Rightarrow> Client \<Rightarrow> string \<Rightarrow> string \<Rightarrow> reply" where
  "agent_serve version a c meth path =
     (case ServeMux agent_routes meth path of
        MuxRedirect p \<Rightarrow> RedirectTo p
      | MuxMethodNotAllowed \<Rightarrow> PlainStatus 405
      | MuxNotFound \<Rightarrow> PlainStatus 404
      | MuxHandler AgHealth _ \<Rightarrow> Answer (Registry_Handler [''control_plane_connection''] (ag_registry a) c)
      | MuxHandler AgVersion _ \<Rightarrow> Answer (agent_handleVersion version))"

section \<open>The loop keeps the contract of a task\<close>

text \<open>The back-off after some full turns of the loop.\<close>

fun backoff_after :: "Client \<Rightarrow> int \<Rightarrow> round list \<Rightarrow> int" where
  "backoff_after c b [] = b"
| "backoff_after c b (rd # rds) =
     backoff_after c (min (i64 ((if rd_authenticated rd then cl_initialBackoff c else b) * 2)) (cl_maxBackoff c)) rds"

lemma Run_loop_snoc:
  "\<not> snd (Run_loop rnd c b rds) \<Longrightarrow>
     Run_loop rnd c b (rds @ [rd]) =
       (fst (Run_loop rnd c b rds) @ fst (Run_loop rnd c (backoff_after c b rds) [rd]),
        snd (Run_loop rnd c (backoff_after c b rds) [rd]))"
  by (induction rds arbitrary: b) (auto simp: Let_def split_beta split: if_splits)

lemma backoff_after_snoc:
  "backoff_after c b (rds @ [rd]) =
     min (i64 ((if rd_authenticated rd then cl_initialBackoff c else backoff_after c b rds) * 2)) (cl_maxBackoff c)"
  by (induction rds arbitrary: b) simp_all

text \<open>
  The turns taken so far explain the waits and the current back-off: \<open>rds\<close> is a list of
  turns on which the functional loop does the same.
\<close>

definition turns_of :: "(rat \<Rightarrow> rat) \<Rightarrow> Client \<Rightarrow> client_run \<Rightarrow> round list \<Rightarrow> bool" where
  "turns_of rnd c s rds \<longleftrightarrow>
     (\<forall>rd \<in> set rds. 0 \<le> rd_random rd \<and> rd_random rd < 1) \<and>
     Client_Run rnd c rds = (cr_waits s, cr_pc s = CReturned) \<and>
     (cr_pc s \<noteq> CReturned \<longrightarrow>
        backoff_after c (cl_initialBackoff c) rds =
          (if cr_pc s = CWait then min (i64 (cr_backoff s * 2)) (cl_maxBackoff c) else cr_backoff s))"

fun client_rank :: "client_pc \<Rightarrow> nat" where
  "client_rank CReturned = 0" | "client_rank CTop = 1" | "client_rank (CCheck _) = 1" | "client_rank CWait = 2"
| "client_rank (CStore _) = 2" | "client_rank (CServing _) = 3" | "client_rank CConnecting = 4"

text \<open>A last turn in which the context is cancelled, and one that goes on to wait.\<close>

definition last_turn :: round where
  "last_turn = \<lparr>rd_authenticated = False, rd_cancelled = True, rd_random = 0, rd_cancelled_wait = True\<rparr>"

definition full_turn :: "bool \<Rightarrow> rat \<Rightarrow> round" where
  "full_turn authenticated r =
     \<lparr>rd_authenticated = authenticated, rd_cancelled = False, rd_random = r, rd_cancelled_wait = False\<rparr>"

lemma turns_of_return:
  assumes "turns_of rnd c s rds" and "cr_pc s \<noteq> CReturned" and "cr_waits t = cr_waits s" and "cr_pc t = CReturned"
  shows "turns_of rnd c t (rds @ [last_turn])"
  using assms Run_loop_snoc [of rnd c "cl_initialBackoff c" rds last_turn]
  by (auto simp: turns_of_def Client_Run_def last_turn_def)

lemma turns_of_wait:
  assumes "turns_of rnd c s rds" and "cr_pc s = CCheck auth" and "0 \<le> r" and "r < 1"
    and "b = (if auth then cl_initialBackoff c else cr_backoff s)"
    and "t = s\<lparr>cr_pc := CWait, cr_backoff := b, cr_waits := cr_waits s @ [(b, jitter rnd r b)]\<rparr>"
  shows "turns_of rnd c t (rds @ [full_turn auth r])"
  using assms Run_loop_snoc [of rnd c "cl_initialBackoff c" rds "full_turn auth r"]
  by (auto simp: turns_of_def Client_Run_def full_turn_def backoff_after_snoc Let_def)

lemma client_execE:
  assumes "client_exec rnd device done s e = Some t"
  obtains (top) "cr_pc s = CTop" "t = s\<lparr>cr_pc := if done then CReturned else CConnecting\<rparr>"
  | (served) a where "cr_pc s = CConnecting" "ar_connected (connectOnce (cr_client s) device a)"
      "t = s\<lparr>cr_pc := CServing a, cr_client := (cr_client s)\<lparr>cl_connected := True\<rparr>\<rparr>"
  | (refused) a where "cr_pc s = CConnecting" "\<not> ar_connected (connectOnce (cr_client s) device a)"
      "t = s\<lparr>cr_pc := CStore (ar_authenticated (connectOnce (cr_client s) device a))\<rparr>"
  | (ended) a where "cr_pc s = CServing a"
      "t = s\<lparr>cr_pc := CStore (ar_authenticated (connectOnce (cr_client s) device a))\<rparr>"
  | (stored) auth where "cr_pc s = CStore auth"
      "t = s\<lparr>cr_pc := CCheck auth, cr_client := (cr_client s)\<lparr>cl_connected := False\<rparr>\<rparr>"
  | (checked) auth where "cr_pc s = CCheck auth" "done" "t = s\<lparr>cr_pc := CReturned\<rparr>"
  | (waiting) auth r b where "cr_pc s = CCheck auth" "\<not> done" "0 \<le> r" "r < 1"
      "b = (if auth then cl_initialBackoff (cr_client s) else cr_backoff s)"
      "t = s\<lparr>cr_pc := CWait, cr_backoff := b, cr_waits := cr_waits s @ [(b, jitter rnd r b)]\<rparr>"
  | (cancelled) "cr_pc s = CWait" "done" "t = s\<lparr>cr_pc := CReturned\<rparr>"
  | (timer) "cr_pc s = CWait"
      "t = s\<lparr>cr_pc := CTop, cr_backoff := min (i64 (cr_backoff s * 2)) (cl_maxBackoff (cr_client s))\<rparr>"
proof (cases e)
  case CLoop
  with assms show thesis by (intro top) (auto split: if_splits)
next
  case (CAttempt a)
  with assms show thesis
    by (cases "ar_connected (connectOnce (cr_client s) device a)") (auto intro: served refused split: if_splits)
next
  case CConnectionEnds
  with assms show thesis by (cases "cr_pc s") (auto intro: ended)
next
  case CStored
  with assms show thesis by (cases "cr_pc s") (auto intro: stored)
next
  case (CChecked r)
  with assms obtain auth where "cr_pc s = CCheck auth" "0 \<le> r" "r < 1" by (auto split: client_pc.splits if_splits)
  with CChecked assms show thesis
    by (cases "done") (auto simp: Let_def intro: checked waiting [OF _ _ _ _ refl])
next
  case CDone
  with assms show thesis by (intro cancelled) (auto split: if_splits)
next
  case CTimer
  with assms show thesis by (intro timer) (auto split: if_splits)
qed

lemma turns_of_same:
  assumes "turns_of rnd c s rds" and "cr_waits t = cr_waits s" and "cr_backoff t = cr_backoff s"
    and "cr_pc s \<notin> {CWait, CReturned}" and "cr_pc t \<notin> {CWait, CReturned}"
  shows "turns_of rnd c t rds"
  using assms by (simp add: turns_of_def)

lemma turns_of_timer:
  assumes "turns_of rnd c s rds" and "cr_pc s = CWait"
    and "t = s\<lparr>cr_pc := CTop, cr_backoff := min (i64 (cr_backoff s * 2)) (cl_maxBackoff c)\<rparr>"
  shows "turns_of rnd c t rds"
  using assms by (simp add: turns_of_def)

lemma settings_eq:
  assumes "k\<lparr>cl_connected := False\<rparr> = c"
  shows "cl_initialBackoff k = cl_initialBackoff c" "cl_maxBackoff k = cl_maxBackoff c"
  using assms by auto

lemma turns_of_exec:
  assumes "turns_of rnd c s rds" and "(cr_client s)\<lparr>cl_connected := False\<rparr> = c"
    and "client_exec rnd device done s e = Some t"
  shows "\<exists>rds. turns_of rnd c t rds"
  using assms(3)
proof (cases rule: client_execE)
  case top
  show ?thesis
  proof (cases "done")
    case True
    with top have "turns_of rnd c t (rds @ [last_turn])" by (intro turns_of_return [OF assms(1)]) simp_all
    then show ?thesis ..
  next
    case False
    with top have "turns_of rnd c t rds" by (intro turns_of_same [OF assms(1)]) simp_all
    then show ?thesis ..
  qed
next
  case (checked auth)
  then have "turns_of rnd c t (rds @ [last_turn])" by (intro turns_of_return [OF assms(1)]) simp_all
  then show ?thesis ..
next
  case cancelled
  then have "turns_of rnd c t (rds @ [last_turn])" by (intro turns_of_return [OF assms(1)]) simp_all
  then show ?thesis ..
next
  case (waiting auth r b)
  then have "turns_of rnd c t (rds @ [full_turn auth r])"
    using settings_eq [OF assms(2)] by (intro turns_of_wait [OF assms(1)]) simp_all
  then show ?thesis ..
next
  case timer
  then have "turns_of rnd c t rds" using settings_eq [OF assms(2)] by (intro turns_of_timer [OF assms(1)]) simp_all
  then show ?thesis ..
qed (auto intro!: exI [of _ rds] turns_of_same [OF assms(1)])

lemma connected_iff_authenticated: "ar_connected (connectOnce c device a) = ar_authenticated (connectOnce c device a)"
  using attempt_authenticated_iff [of c device a] by blast

lemma connectOnce_flag [simp]: "connectOnce (c\<lparr>cl_connected := b\<rparr>) device a = connectOnce c device a"
proof -
  have "cl_onCommand (c\<lparr>cl_connected := b\<rparr>) = cl_onCommand c" by simp
  then show ?thesis by (simp only: connectOnce_def)
qed

text \<open>An attempt that is being served did authenticate.\<close>

definition serving_inv :: "DeviceInfo \<Rightarrow> client_run \<Rightarrow> bool" where
  "serving_inv device s \<longleftrightarrow>
     (\<forall>a. cr_pc s = CServing a \<longrightarrow> ar_authenticated (connectOnce (cr_client s) device a)) \<and>
     (cl_connected (cr_client s) \<longleftrightarrow> (\<exists>a. cr_pc s = CServing a) \<or> cr_pc s = CStore True)"

lemma serving_inv_exec:
  assumes "serving_inv device s" and "client_exec rnd device done s e = Some t"
  shows "serving_inv device t"
  using assms(2)
  by (cases rule: client_execE) (use assms(1) in \<open>auto simp: serving_inv_def connected_iff_authenticated\<close>)

lemma client_exec_settings:
  assumes "client_exec rnd device done s e = Some t"
  shows "(cr_client t)\<lparr>cl_connected := False\<rparr> = (cr_client s)\<lparr>cl_connected := False\<rparr>"
  using assms by (cases rule: client_execE) simp_all

abbreviation idle :: "Client \<Rightarrow> Client" where
  "idle c \<equiv> c\<lparr>cl_connected := False\<rparr>"

definition client_inv :: "(rat \<Rightarrow> rat) \<Rightarrow> DeviceInfo \<Rightarrow> Client \<Rightarrow> client_run \<Rightarrow> bool" where
  "client_inv rnd device c s \<longleftrightarrow>
     (cr_client s)\<lparr>cl_connected := False\<rparr> = idle c \<and> serving_inv device s \<and> (\<exists>rds. turns_of rnd (idle c) s rds)"

lemma client_inv_start: "client_inv rnd device c (client_start (idle c))"
  by (auto simp: client_inv_def client_start_def serving_inv_def turns_of_def Client_Run_def intro: exI [of _ "[]"])

lemma client_inv_exec:
  assumes "client_inv rnd device c s" and "client_exec rnd device done s e = Some t"
  shows "client_inv rnd device c t"
proof -
  from assms(1) obtain rds where "turns_of rnd (idle c) s rds" and eq: "(cr_client s)\<lparr>cl_connected := False\<rparr> = idle c"
    and "serving_inv device s" by (auto simp: client_inv_def)
  with turns_of_exec [OF this(1) eq assms(2)] serving_inv_exec [OF _ assms(2)] client_exec_settings [OF assms(2)]
  show ?thesis by (simp add: client_inv_def)
qed

lemma client_rank_exec: "client_exec rnd device True s e = Some t \<Longrightarrow> client_rank (cr_pc t) < client_rank (cr_pc s)"
  by (erule client_execE) simp_all

lemma client_rank_le: "client_rank p \<le> 4"
  by (cases p) simp_all

lemma client_result_exec:
  "client_exec rnd device done s e = Some t \<Longrightarrow> client_result s = Some r \<Longrightarrow> client_result t = Some r"
  by (erule client_execE) (simp_all add: client_result_def)

lemma client_progress:
  assumes "client_result s = None"
  shows "\<exists>e t. client_exec rnd device True s e = Some t"
proof (cases "cr_pc s")
  case CTop then show ?thesis by (intro exI [of _ CLoop]) simp
next
  case CConnecting then show ?thesis by (intro exI [of _ "CAttempt undefined"]) simp
next
  case (CServing a) then show ?thesis by (intro exI [of _ CConnectionEnds]) simp
next
  case (CStore x) then show ?thesis by (intro exI [of _ CStored]) simp
next
  case (CCheck x) then show ?thesis by (intro exI [of _ "CChecked 0"]) simp
next
  case CWait then show ?thesis by (intro exI [of _ CDone]) simp
qed (use assms in \<open>simp add: client_result_def\<close>)

lemma client_result_start: "client_result (client_start c) = None"
  by (simp add: client_result_def client_start_def)

interpretation client: task "client_exec rnd device" "client_start (idle c)" client_result
  "client_inv rnd device c" "\<lambda>s. client_rank (cr_pc s)" for rnd device c
  by unfold_locales
     (simp_all add: client_inv_start client_inv_exec client_rank_exec client_result_exec client_progress client_result_start)

interpretation agent: group "client_exec rnd device" "client_start (idle c)" client_result
  "client_inv rnd device c" "\<lambda>s. client_rank (cr_pc s)" http_exec http_start http_result http_inv http_rank for rnd device c
  by unfold_locales

section \<open>Properties of the running agent\<close>

text \<open>What \<^verbatim>\<open>Run\<close> hands to the group, for an agent made by \<^verbatim>\<open>New\<close>.\<close>

lemma Agent_Run_started:
  assumes "Agent_Run newRequest do io io' v m newID (Agent_New v m dk cfg) files = (Inr (a, dev), files')"
  shows "ag_conn a = idle (ag_conn a)" "client_wf (ag_conn a)"
    "ag_registry a = Registry_Register ''control_plane_connection'' connection_check NewRegistry"
    "cl_initialBackoff (ag_conn a) = DefaultInitialBackoff" "cl_maxBackoff (ag_conn a) = DefaultMaxBackoff"
proof -
  have "ag_conn a = OnCommand (WireHandler (ag_dispatcher (Agent_New v m dk cfg))) (NewClient (cfg_GRPCServerAddr cfg)) \<and>
      ag_registry a = Registry_Register ''control_plane_connection'' connection_check NewRegistry"
    using assms by (auto simp: Agent_Run_def Agent_New_def split: prod.splits sum.splits)
  then show "ag_conn a = idle (ag_conn a)" "client_wf (ag_conn a)"
    "ag_registry a = Registry_Register ''control_plane_connection'' connection_check NewRegistry"
    "cl_initialBackoff (ag_conn a) = DefaultInitialBackoff" "cl_maxBackoff (ag_conn a) = DefaultMaxBackoff"
    using NewClient_wf [of "cfg_GRPCServerAddr cfg"]
    by (simp_all add: OnCommand_def NewClient_def client_wf_def)
qed

text \<open>The invariant of the group, for every run that \<^verbatim>\<open>Run\<close> starts.\<close>

lemma agent_run_inv:
  assumes "ag_conn a = idle (ag_conn a)" and "errgroup_ok lib"
    and "run (\<lambda>g e h. agent_group lib rnd dev g e = Some h) (agent_group_start a) es g"
  shows "run (agent.gstep rnd dev lib) (new_group (client_start (idle (ag_conn a))) http_start) es g"
    "agent.ginv rnd dev (ag_conn a) g" "client_inv rnd dev (ag_conn a) (grp_a g)"
proof -
  show r: "run (agent.gstep rnd dev lib) (new_group (client_start (idle (ag_conn a))) http_start) es g"
    using assms(1,3) by (simp add: agent.gstep_def [abs_def] agent_group_def agent_group_start_def)
  from agent.group_inv [OF this assms(2)] show "agent.ginv rnd dev (ag_conn a) g" .
  then show "client_inv rnd dev (ag_conn a) (grp_a g)" by (simp add: agent.ginv_def)
qed

lemma client_returns_cancelled:
  "client_exec rnd device done s e = Some t \<Longrightarrow> cr_pc t = CReturned \<Longrightarrow> done"
  by (erule client_execE) (auto split: if_splits)

lemma agent_returned_cancelled:
  assumes "run (agent.gstep rnd dev lib) g es h" and "errgroup_ok lib"
    and "cr_pc (grp_a g) = CReturned \<longrightarrow> grp_cancelled g"
  shows "cr_pc (grp_a h) = CReturned \<longrightarrow> grp_cancelled h"
  using assms(1,3)
proof (induction rule: run.induct)
  case (run_Cons g e h es u)
  from run_Cons.hyps(1) have "agent.gexec rnd dev lib g e = Some h" by (simp add: agent.gstep_def)
  then have "cr_pc (grp_a h) = CReturned \<longrightarrow> grp_cancelled h"
    by (cases rule: agent.gexecE)
       (use run_Cons.prems in \<open>auto simp: note_end_sel [OF assms(2)] note_end_cancelled [OF assms(2)]
          dest: client_returns_cancelled\<close>)
  then show ?case by (rule run_Cons.IH)
qed simp

lemma client_waits_bounded:
  assumes "client_inv rnd dev c s" and "client_wf c" and "rounding rnd" and "(b, w) \<in> set (cr_waits s)"
  shows "cl_initialBackoff c \<le> b \<and> b \<le> cl_maxBackoff c \<and> 4 * b - 6 \<le> 5 * w \<and> 5 * w \<le> 6 * b + 1"
proof -
  from assms(1) obtain rds where rds: "turns_of rnd (idle c) s rds" by (auto simp: client_inv_def)
  have "client_wf (idle c)" using assms(2) by (simp add: client_wf_def)
  from Client_Run_bounds [OF this assms(3) _ _ assms(4), of rds "cr_pc s = CReturned"] rds show ?thesis by (simp add: turns_of_def)
qed

lemma client_result_nil: "client_result s \<noteq> Some (Some err)"
  by (simp add: client_result_def)


lemma agent_serve_fixed:
  "agent_serve v a c ''GET'' ''/healthz'' = Answer (Registry_Handler [''control_plane_connection''] (ag_registry a) c)"
  "agent_serve v a c ''GET'' ''/version'' = Answer (agent_handleVersion v)"
proof -
  have "ServeMux agent_routes ''GET'' ''/healthz'' = MuxHandler AgHealth []"
    "ServeMux agent_routes ''GET'' ''/version'' = MuxHandler AgVersion []" by code_simp+
  then show "agent_serve v a c ''GET'' ''/healthz'' = Answer (Registry_Handler [''control_plane_connection''] (ag_registry a) c)"
    "agent_serve v a c ''GET'' ''/version'' = Answer (agent_handleVersion v)" by (simp_all add: agent_serve_def)
qed

text \<open>
  \<^bold>\<open>C16.\<close> The agent's health endpoint tells whether it is connected: at every moment of every
  run, \<^verbatim>\<open>GET /healthz\<close> is answered with 200 exactly if an attempt has been authenticated by the
  control plane and its end has not been recorded yet, and otherwise with 503; when \<^verbatim>\<open>Run\<close>
  returns, the answer is 503.
\<close>

theorem agent_reports_connection:
  assumes "Agent_Run newRequest do io io' v m newID (Agent_New v m dk cfg) files = (Inr (a, dev), files')"
    and "errgroup_ok lib"
    and "run (\<lambda>g e h. agent_group lib rnd dev g e = Some h) (agent_group_start a) es g"
  shows "\<exists>resp. agent_serve v a (cr_client (grp_a g)) ''GET'' ''/healthz'' = Answer resp \<and>
    http_status resp =
      (if (\<exists>att. cr_pc (grp_a g) = CServing att \<and> ar_authenticated (connectOnce (cr_client (grp_a g)) dev att)) \<or>
          cr_pc (grp_a g) = CStore True then 200 else 503) \<and>
    (agent_Wait lib g \<noteq> None \<longrightarrow> http_status resp = 503)"
proof -
  note init = Agent_Run_started [OF assms(1)]
  from agent_run_inv(3) [OF init(1) assms(2,3)] have inv: "serving_inv dev (grp_a g)" by (simp add: client_inv_def)
  have returned: "cr_pc (grp_a g) = CReturned" if "agent_Wait lib g \<noteq> None"
    using that unfolding agent_Wait_def group_Wait_iff(1) [OF assms(2)] by (auto simp: client_result_def split: if_splits)
  let ?resp = "Registry_Handler [''control_plane_connection''] (ag_registry a) (cr_client (grp_a g))"
  have status: "http_status ?resp = (if Connected (cr_client (grp_a g)) then 200 else 503)"
    by (simp only: init(3) connection_health)
  have "Connected (cr_client (grp_a g)) \<longleftrightarrow>
      (\<exists>att. cr_pc (grp_a g) = CServing att \<and> ar_authenticated (connectOnce (cr_client (grp_a g)) dev att)) \<or>
      cr_pc (grp_a g) = CStore True"
    using inv unfolding serving_inv_def Connected_def by blast
  with status returned agent_serve_fixed(1) show ?thesis by auto
qed

section \<open>A concrete agent\<close>

definition demo_token_missing :: attempt where
  "demo_token_missing = demo_attempt\<lparr>at_token := Inl (anon ''no device token persisted yet; waiting for registration'')\<rparr>"

text \<open>One failed attempt and its wait; then the HTTP server fails, which ends the loop.\<close>

definition demo_port_in_use :: "(client_event, http_event) group_event list" where
  "demo_port_in_use =
     [StepA CLoop, StepA (CAttempt demo_token_missing), StepA CStored, StepB HServe, StepA (CChecked (1 / 2)),
      StepB (HServeReturns (anon ''address in use'')), StepB HSend, StepB HSelectErr, StepA CTimer, StepA CLoop]"

lemma demo_agent_started:
  "\<exists>a dev files'. Agent_Run (\<lambda>_. None) (\<lambda>_. Inl (anon ''connection refused'')) no_faults no_faults ''dev'' demo_machine
     ''0b1c'' (Agent_New ''dev'' demo_machine demo_docker demo_agent_config) fmempty = (Inr (a, dev), files')"
proof -
  have "loadOrCreateDeviceID no_faults ''0b1c'' fmempty (cfg_DataDir demo_agent_config) =
      (Inr ''0b1c'', fmupd (''/data'', deviceIDFileName) ''0b1c'' fmempty)"
    using demo_created by (simp add: demo_agent_config_def)
  then show ?thesis by (simp add: Agent_Run_def demo_collect Agent_New_def)
qed


theorem agent_reports_connection_witness:
  "\<exists>a dev files' g resp. Agent_Run (\<lambda>_. None) (\<lambda>_. Inl (anon ''connection refused'')) no_faults no_faults ''dev'' demo_machine
      ''0b1c'' (Agent_New ''dev'' demo_machine demo_docker demo_agent_config) fmempty = (Inr (a, dev), files') \<and>
    run (\<lambda>g e h. agent_group demo_errgroup (\<lambda>x. x) dev g e = Some h) (agent_group_start a)
      [StepA CLoop, StepA (CAttempt demo_attempt)] g \<and>
    agent_serve ''dev'' a (cr_client (grp_a g)) ''GET'' ''/healthz'' = Answer resp \<and> http_status resp = 200"
proof -
  obtain a dev files' where start: "Agent_Run (\<lambda>_. None) (\<lambda>_. Inl (anon ''connection refused'')) no_faults no_faults ''dev''
      demo_machine ''0b1c'' (Agent_New ''dev'' demo_machine demo_docker demo_agent_config) fmempty = (Inr (a, dev), files')"
    using demo_agent_started by blast
  have served: "ar_connected (connectOnce c dev demo_attempt)" "ar_authenticated (connectOnce c dev demo_attempt)" for c
    by (simp_all add: connectOnce_def demo_attempt_def authSuccess_def AuthenticateResponse_GetAuthenticated_def)
  obtain g where g: "run (\<lambda>g e h. agent_group demo_errgroup (\<lambda>x. x) dev g e = Some h) (agent_group_start a)
      [StepA CLoop, StepA (CAttempt demo_attempt)] g"
    and serving: "cr_pc (grp_a g) = CServing demo_attempt"
    by (simp add: run_Cons_iff agent_group_def agent_group_start_def new_group_def client_start_def
        client_result_def note_end_def served)
  from agent_reports_connection [OF start demo_errgroup_ok g] serving served
  obtain resp where "agent_serve ''dev'' a (cr_client (grp_a g)) ''GET'' ''/healthz'' = Answer resp" "http_status resp = 200"
    by auto
  with start g show ?thesis by blast
qed

end
