(* ===== verification/Agent_Containers.thy ===== *)
theory Agent_Containers
  imports Agent
begin

text \<open>
  What the agent answers about its containers, from the bytes of the Docker daemon to the bytes
  of the answer: \<^verbatim>\<open>LIST_CONTAINERS\<close> and \<^verbatim>\<open>INSPECT_CONTAINER\<close> of \<^verbatim>\<open>internal/agent/handlers.go\<close> over the
  runtime of \<^verbatim>\<open>internal/containers/docker\<close>. The relations of the first section say what a JSON
  value of the daemon stands for.
\<close>

section \<open>What the daemon reports\<close>

text \<open>
  The daemon's values: a text with any escapes, an integer, an array of texts. An entry of its
  list is an object that has the six members of a summary in the order the daemon writes them
  and any other members before, between and after them.
\<close>

definition text_value :: "json \<Rightarrow> string \<Rightarrow> bool" where
  "text_value v s \<longleftrightarrow> (case v of JString raw \<Rightarrow> unquote raw = Some s | _ \<Rightarrow> False)"

definition int_value :: "json \<Rightarrow> int \<Rightarrow> bool" where
  "int_value v i \<longleftrightarrow> v = encode_int i \<and> int64 i"

definition known_members :: "(string \<times> 'a decoder) list \<Rightarrow> (string \<times> json) list \<Rightarrow> (string \<times> json) list" where
  "known_members tags kvs = filter (\<lambda>(k, v). field_for tags (the (unquote k)) \<noteq> None) kvs"

text \<open>An object whose members that have a field are, in this order, those of a list of names and values.\<close>

definition object_value :: "(string \<times> 'a decoder) list \<Rightarrow> (string \<times> (json \<Rightarrow> bool)) list \<Rightarrow> json \<Rightarrow> bool" where
  "object_value tags members v \<longleftrightarrow>
     (case v of
        JObject kvs \<Rightarrow>
          list_all (\<lambda>(k, v). unquote k \<noteq> None) kvs \<and>
          list_all2 (\<lambda>(k, v) (name, is_value). k = name \<and> is_value v) (known_members tags kvs) members
      | _ \<Rightarrow> False)"

definition slice_of :: "(json \<Rightarrow> 'a \<Rightarrow> bool) \<Rightarrow> json \<Rightarrow> 'a slice \<Rightarrow> bool" where
  "slice_of is_value v s \<longleftrightarrow>
     (case v of
        JNull \<Rightarrow> s = NilSlice
      | JArray vs \<Rightarrow> list_all2 is_value vs (slice_items s) \<and> s = Slice (length (slice_items s)) (slice_items s)
      | _ \<Rightarrow> False)"

definition summary_value :: "json \<Rightarrow> containerSummary \<Rightarrow> bool" where
  "summary_value v s \<longleftrightarrow> object_value summary_fields
     [(''Id'', \<lambda>v. text_value v (cs_ID s)), (''Names'', \<lambda>v. slice_of text_value v (cs_Names s)),
      (''Image'', \<lambda>v. text_value v (cs_Image s)), (''Created'', \<lambda>v. int_value v (cs_Created s)),
      (''State'', \<lambda>v. text_value v (cs_State s)), (''Status'', \<lambda>v. text_value v (cs_Status s))] v"

lemma summary_value_int64: "summary_value v s \<Longrightarrow> int64 (cs_Created s)"
  by (auto simp: summary_value_def object_value_def int_value_def list_all2_Cons2 split: json.splits)

lemma decode_text_value: "text_value v s \<Longrightarrow> decode_string v x = (s, Fine)"
  by (auto simp: text_value_def decode_string_def split: json.splits)

lemma decode_int_value: "int_value v i \<Longrightarrow> decode_int v x = (i, Fine)"
  by (auto simp: int_value_def int64_def decode_encode_int)

lemma decode_slice_of:
  assumes "slice_of is_value v s" and "\<And>v y. is_value v y \<Longrightarrow> dec v zero = (y, Fine)"
  shows "decode_slice dec zero v NilSlice = (s, Fine)"
proof (cases v)
  case (JArray vs)
  with assms(1) have s: "list_all2 is_value vs (slice_items s)" "s = Slice (length (slice_items s)) (slice_items s)"
    by (auto simp: slice_of_def)
  from s(1) have "list_all2 (\<lambda>v y. dec v zero = (y, Fine)) vs (slice_items s)"
    by (rule list_all2_mono) (rule assms(2))
  from decode_slice_fresh [of dec zero vs "slice_items s"] this s(2) show ?thesis by (simp add: JArray)
qed (use assms(1) in \<open>auto simp: slice_of_def decode_slice_def\<close>)

lemma decode_object_value:
  assumes "object_value tags members v"
  shows "\<exists>vs. list_all2 (\<lambda>(name, is_value) v. is_value v) members vs \<and>
    (\<forall>x. decode_struct tags v x = decode_members (field_for tags) (zip (map fst members) vs) x)"
proof -
  from assms obtain kvs where v: "v = JObject kvs" "list_all (\<lambda>(k, v). unquote k \<noteq> None) kvs"
    and known: "list_all2 (\<lambda>(k, v) (name, is_value). k = name \<and> is_value v) (known_members tags kvs) members"
    by (auto simp: object_value_def split: json.splits)
  have "known_members tags kvs = zip (map fst members) (map snd (known_members tags kvs))"
    using known by (induction rule: list_all2_induct) auto
  moreover have "list_all2 (\<lambda>(name, is_value) v. is_value v) members (map snd (known_members tags kvs))"
    using known by (induction rule: list_all2_induct) auto
  moreover have "decode_struct tags v x = decode_members (field_for tags) (known_members tags kvs) x" for x
    using decode_members_known [OF v(2), of "field_for tags"] by (simp add: v(1) decode_struct_def known_members_def)
  ultimately show ?thesis by metis
qed

lemmas object_defs = list_all2_Cons1 unquote_plain field_for_def at_field_def decode_text_value decode_int_value

lemma plain_summary_tags [simp]:
  "plain_name ''Id''" "plain_name ''Names''" "plain_name ''Image''" "plain_name ''Created''" "plain_name ''State''"
  "plain_name ''Status''"
  by code_simp+

lemma decode_summary_value:
  assumes "summary_value v s"
  shows "decode_struct summary_fields v zero_summary = (s, Fine)"
  using decode_object_value [OF assms [unfolded summary_value_def]]
    decode_slice_of [of text_value _ "cs_Names s" decode_string "''''", OF _ decode_text_value]
  by (auto simp: object_defs summary_fields_def zero_summary_def)

lemma decode_summaries_value:
  assumes "list_all2 summary_value vs ss"
  shows "decode_summaries (JArray vs) NilSlice = (Slice (length ss) ss, Fine)"
  unfolding decode_summaries_def
  by (rule decode_slice_fresh, rule list_all2_mono [OF assms]) (rule decode_summary_value)

lemma list_containers_refused:
  assumes "case do (drt_baseURL r @ ''/containers/json?all=true'') of
    Inl err \<Rightarrow> True | Inr resp \<Rightarrow> dr_StatusCode resp \<noteq> 200"
  shows "\<exists>err. ListContainers newRequest do r = Inl err"
  using assms by (auto simp: ListContainers_def docker_get_def Let_def split: sum.splits option.split)

lemma list_containers_value:
  assumes "newRequest (drt_baseURL r @ ''/containers/json?all=true'') = None"
    and "do (drt_baseURL r @ ''/containers/json?all=true'') = Inr resp" and "dr_StatusCode resp = 200"
    and "read_value (dr_Body resp) = Some (JArray vs)" and "list_all2 summary_value vs ss"
  shows "ListContainers newRequest do r = Inr (map container_of_summary ss)"
  using assms by (simp add: ListContainers_def docker_get_def decode_body_def decode_summaries_value)

section \<open>What the daemon reports of one container\<close>

text \<open>A map: the members of an object in their order, the last of several with one name.\<close>

definition map_of_members :: "(json \<Rightarrow> 'v \<Rightarrow> bool) \<Rightarrow> json \<Rightarrow> (string, 'v) fmap \<Rightarrow> bool" where
  "map_of_members is_value v m \<longleftrightarrow>
     (case v of
        JNull \<Rightarrow> m = fmempty
      | JObject kvs \<Rightarrow>
          (\<exists>kys. list_all2 (\<lambda>(k, v) (key, y). unquote k = Some key \<and> is_value v y) kvs kys \<and>
            m = fold (\<lambda>(key, y). fmupd key y) kys fmempty)
      | _ \<Rightarrow> False)"

definition state_value :: "json \<Rightarrow> inspect_State \<Rightarrow> bool" where
  "state_value v s \<longleftrightarrow> object_value state_fields [(''Status'', \<lambda>v. text_value v (ist_Status s))] v"

definition config_value :: "json \<Rightarrow> inspect_Config \<Rightarrow> bool" where
  "config_value v c \<longleftrightarrow> object_value config_fields
     [(''Env'', \<lambda>v. slice_of text_value v (icf_Env c)), (''Cmd'', \<lambda>v. slice_of text_value v (icf_Cmd c)),
      (''Image'', \<lambda>v. text_value v (icf_Image c))] v"

definition binding_value :: "json \<Rightarrow> inspect_Binding \<Rightarrow> bool" where
  "binding_value v b \<longleftrightarrow> object_value binding_fields [(''HostPort'', \<lambda>v. text_value v (ibd_HostPort b))] v"

definition networks_value :: "json \<Rightarrow> inspect_NetworkSettings \<Rightarrow> bool" where
  "networks_value v n \<longleftrightarrow> object_value network_fields
     [(''Ports'', \<lambda>v. map_of_members (slice_of binding_value) v (ins_Ports n)),
      (''Networks'', \<lambda>v. map_of_members (\<lambda>v _. object_value ([] :: (string \<times> unit decoder) list) [] v) v (ins_Networks n))] v"

definition mount_value :: "json \<Rightarrow> inspect_Mount \<Rightarrow> bool" where
  "mount_value v m \<longleftrightarrow> object_value mount_fields
     [(''Source'', \<lambda>v. text_value v (imt_Source m)), (''Destination'', \<lambda>v. text_value v (imt_Destination m)),
      (''Mode'', \<lambda>v. text_value v (imt_Mode m))] v"

definition inspect_value :: "json \<Rightarrow> containerInspect \<Rightarrow> bool" where
  "inspect_value v ins \<longleftrightarrow> object_value inspect_fields
     [(''Id'', \<lambda>v. text_value v (ci_ID ins)), (''Created'', \<lambda>v. text_value v (ci_Created ins)),
      (''State'', \<lambda>v. state_value v (ci_State ins)), (''Image'', \<lambda>v. text_value v (ci_Image ins)),
      (''Name'', \<lambda>v. text_value v (ci_Name ins)), (''RestartCount'', \<lambda>v. int_value v (ci_RestartCount ins)),
      (''Mounts'', \<lambda>v. slice_of mount_value v (ci_Mounts ins)), (''Config'', \<lambda>v. config_value v (ci_Config ins)),
      (''NetworkSettings'', \<lambda>v. networks_value v (ci_NetworkSettings ins))] v"

lemma decode_map_of_members:
  assumes "map_of_members is_value v m" and "\<And>v y. is_value v y \<Longrightarrow> dec v zero = (y, Fine)"
  shows "decode_map_of dec zero v fmempty = (m, Fine)"
proof (cases v)
  case (JObject kvs)
  with assms(1) obtain kys where kys: "list_all2 (\<lambda>(k, v) (key, y). unquote k = Some key \<and> is_value v y) kvs kys"
    and m: "m = fold (\<lambda>(key, y). fmupd key y) kys fmempty" by (auto simp: map_of_members_def)
  have "decode_members (\<lambda>key. Some (map_entry dec zero key)) kvs x = (fold (\<lambda>(key, y). fmupd key y) kys x, Fine)" for x
    using kys by (induction arbitrary: x rule: list_all2_induct) (auto simp: map_entry_def assms(2))
  then show ?thesis by (simp add: JObject decode_map_of_def m)
qed (use assms(1) in \<open>auto simp: map_of_members_def decode_map_of_def\<close>)

lemma plain_inspect_tags [simp]:
  "plain_name ''Name''" "plain_name ''RestartCount''" "plain_name ''Mounts''" "plain_name ''Config''"
  "plain_name ''NetworkSettings''" "plain_name ''Env''" "plain_name ''Cmd''" "plain_name ''HostPort''"
  "plain_name ''Ports''" "plain_name ''Networks''" "plain_name ''Source''" "plain_name ''Destination''" "plain_name ''Mode''"
  by code_simp+

lemma decode_state_value: "state_value v s \<Longrightarrow> decode_struct state_fields v x = (s, Fine)"
  by (drule decode_object_value [OF state_value_def [THEN iffD1]]) (auto simp: object_defs state_fields_def)

lemma decode_binding_value: "binding_value v b \<Longrightarrow> decode_struct binding_fields v x = (b, Fine)"
  by (drule decode_object_value [OF binding_value_def [THEN iffD1]]) (auto simp: object_defs binding_fields_def)

lemma decode_mount_value: "mount_value v m \<Longrightarrow> decode_struct mount_fields v x = (m, Fine)"
  by (drule decode_object_value [OF mount_value_def [THEN iffD1]]) (auto simp: object_defs mount_fields_def)

lemma decode_config_value:
  assumes "config_value v c"
  shows "decode_struct config_fields v \<lparr>icf_Image = s, icf_Cmd = NilSlice, icf_Env = NilSlice\<rparr> = (c, Fine)"
  using decode_object_value [OF assms [unfolded config_value_def]]
    decode_slice_of [of text_value _ _ decode_string "''''", OF _ decode_text_value]
  by (auto simp: object_defs config_fields_def)

lemma decode_networks_value:
  assumes "networks_value v n"
  shows "decode_struct network_fields v \<lparr>ins_Ports = fmempty, ins_Networks = fmempty\<rparr> = (n, Fine)"
proof -
  have unit: "decode_struct [] v () = (y, Fine)" if "object_value ([] :: (string \<times> unit decoder) list) [] v" for v y
    using decode_object_value [OF that] by auto
  have nets: "decode_map_of (decode_struct []) () v fmempty = (m, Fine)"
    if "map_of_members (\<lambda>v _. object_value ([] :: (string \<times> unit decoder) list) [] v) v m" for v m
    using that by (rule decode_map_of_members) (rule unit)
  have bindings: "decode_slice (decode_struct binding_fields) b v NilSlice = (s, Fine)" if "slice_of binding_value v s" for b v s
    using that by (rule decode_slice_of) (rule decode_binding_value)
  have ports: "decode_map_of (decode_slice (decode_struct binding_fields) b) NilSlice v fmempty = (m, Fine)"
    if "map_of_members (slice_of binding_value) v m" for b v m
    using that by (rule decode_map_of_members) (rule bindings)
  show ?thesis
    using decode_object_value [OF assms [unfolded networks_value_def]] nets ports
    by (auto simp: object_defs network_fields_def)
qed

lemma decode_inspect_value:
  assumes "inspect_value v ins"
  shows "decode_struct inspect_fields v zero_inspect = (ins, Fine)"
  using decode_object_value [OF assms [unfolded inspect_value_def]]
    decode_slice_of [of mount_value _ "ci_Mounts ins", OF _ decode_mount_value]
  by (auto simp: object_defs inspect_fields_def zero_inspect_def decode_state_value decode_config_value decode_networks_value)

text \<open>The creation times that have a text: those of the years 0 to 9999.\<close>

definition printable_unix :: "int \<Rightarrow> bool" where
  "printable_unix sec \<longleftrightarrow> - 62167219200 \<le> sec \<and> sec < 253402300800"

lemma format_time_Unix:
  assumes "int64 sec"
  shows "format_time 0 (time_Unix sec) \<noteq> None \<longleftrightarrow> printable_unix sec"
proof -
  have day: "calendar_day (time_Unix sec) = i64 (sec + 62135596800) div 86400 + 366"
    by (simp add: calendar_day_def time_Unix_def day_def)
  have "i64 (sec + 62135596800) =
      (if sec < 2 ^ 63 - 62135596800 then sec + 62135596800 else sec + 62135596800 - 2 ^ 64)"
  proof (cases "sec < 2 ^ 63 - 62135596800")
    case False
    have "(sec + 62135596800 + 2 ^ 63) mod 2 ^ 64 = (sec + 62135596800 + 2 ^ 63 - 2 ^ 64) mod 2 ^ 64" by (rule minus_mod_self2 [symmetric])
    also have "\<dots> = sec + 62135596800 + 2 ^ 63 - 2 ^ 64" using False assms by (intro mod_pos_pos_trivial) (auto simp: int64_def)
    finally show ?thesis using False by (simp add: i64_def)
  qed (use assms i64_id in \<open>simp add: int64_def\<close>)
  with assms show ?thesis
    by (simp add: format_time_def Let_def day zone_minutes_def cycle_days_def printable_unix_def int64_def) linarith
qed

section \<open>Containers, from the daemon's bytes to the answer's\<close>

lemma dispatch_list_containers:
  assumes "rq_Kind req = ''LIST_CONTAINERS''"
  shows "Dispatch (newDispatcher v m rt) req =
    (case rt_ListContainers rt of
       Inl err \<Rightarrow> failure (rq_ID req) (error_text err)
     | Inr cs \<Rightarrow> (payload_response ''containers'' (marshal_list cs))\<lparr>rs_CommandID := rq_ID req\<rparr>)"
proof -
  have "fmlookup (disp_executors (newDispatcher v m rt)) ''LIST_CONTAINERS'' = Some (listContainersExecutor rt)"
    using newDispatcher_get [of "''LIST_CONTAINERS''" v m rt] by (simp add: disp_get_def agent_executor_def)
  then show ?thesis
    by (simp add: Dispatch_def assms listContainersExecutor_def ExecutorFunc_def failure_def split: sum.split)
qed

text \<open>
  One container of the answer: its name is the first one without its slash, its creation time
  the seconds since 1970.
\<close>

definition unslashed :: "string \<Rightarrow> string" where
  "unslashed n = (if take 1 n = ''/'' then tl n else n)"

lemma trim_slash: "trim_prefix n ''/'' = unslashed n"
  by (cases n) (auto simp: trim_prefix_def unslashed_def)

definition listed_container :: "containerSummary \<Rightarrow> json \<Rightarrow> bool" where
  "listed_container s w \<longleftrightarrow>
     (let names = slice_items (cs_Names s);
          name = (if names = [] then '''' else unslashed (hd names)) in
      case format_time 0 ((cs_Created s + 62135596800) * second) of
        None \<Rightarrow> False
      | Some t \<Rightarrow> w = JObject
          [(''id'', encode_string (cs_ID s)), (''name'', encode_string name),
           (''image'', encode_string (cs_Image s)), (''status'', encode_string (cs_Status s)),
           (''state'', encode_string (cs_State s)), (''created'', JString t)])"

lemma containerName_first: "containerName names = (if names = [] then '''' else unslashed (hd names))"
  by (cases names) (simp_all add: containerName_def trim_slash)

lemma listed_container_members:
  assumes "container_members (container_of_summary s) = Some kvs" and "int64 (cs_Created s)"
  shows "listed_container s (JObject kvs)"
proof -
  from assms(1) obtain t where t: "format_time 0 (time_Unix (cs_Created s)) = Some t"
    by (auto simp: container_members_def encode_time_def container_of_summary_def)
  with format_time_Unix [OF assms(2)] have "time_Unix (cs_Created s) = (cs_Created s + 62135596800) * second"
    by (simp add: printable_unix_def time_Unix_def i64_id)
  with t assms(1) show ?thesis
    by (auto simp: container_members_def encode_time_def container_of_summary_def listed_container_def Let_def
        containerName_first)
qed

lemma summary_values_int64: "list_all2 summary_value vs ss \<Longrightarrow> s \<in> set ss \<Longrightarrow> int64 (cs_Created s)"
  by (auto simp: in_set_conv_nth list_all2_conv_all_nth dest: summary_value_int64)

lemma marshalled_summaries:
  assumes "list_all2 summary_value vs ss" and "marshal_list (map container_of_summary ss) = Inr payload"
  shows "\<exists>ws. read_value payload = Some (JArray ws) \<and> list_all2 listed_container ss ws"
proof -
  from marshal_list_outcome(2) [OF assms(2)] obtain ws where ws: "read_value payload = Some (JArray ws)"
      "list_all2 (\<lambda>s w. \<exists>kvs. container_members (container_of_summary s) = Some kvs \<and> w = JObject kvs) ss ws"
    by (auto simp: list_all2_map1)
  from ws(2) have "list_all2 listed_container ss ws"
    by (rule list.rel_mono_strong) (use summary_values_int64 [OF assms(1)] listed_container_members in blast)
  with ws(1) show ?thesis by blast
qed

lemma marshalled_iff_printable:
  assumes "list_all2 summary_value vs ss"
  shows "(\<exists>payload. marshal_list (map container_of_summary ss) = Inr payload) \<longleftrightarrow>
    (\<forall>s \<in> set ss. printable_unix (cs_Created s))"
  using format_time_Unix summary_values_int64 [OF assms] by (simp add: marshal_list_outcome(1) container_of_summary_def)

text \<open>
  \<^bold>\<open>C33.\<close> \<^verbatim>\<open>LIST_CONTAINERS\<close>, from the daemon's text to the answer's: when the Docker daemon answers
  the one request of the command with 200 and the text of an array, whose entries hold an
  identifier, names, image, creation time, state and status among any other members, the answer
  reports exactly these containers in their order, under the first name without its slash, in
  a text that reads back as an array with one object per container; a creation time outside of
  the years 0 to 9999 makes the whole command fail, and nothing else does. A daemon that cannot
  be asked, or answers with another status, is reported as a failure.
\<close>

theorem containers_listed:
  assumes "rq_Kind req = ''LIST_CONTAINERS''"
    and "ans = Dispatch (newDispatcher v m (docker_as_runtime dk (NewRuntime socket))) req"
    and "dk_newRequest dk ''http://unix/containers/json?all=true'' = None"
  shows "(\<forall>resp vs ss. dk_do dk ''http://unix/containers/json?all=true'' = Inr resp \<and> dr_StatusCode resp = 200 \<and>
        read_value (dr_Body resp) = Some (JArray vs) \<and> list_all2 summary_value vs ss \<longrightarrow>
      (if \<forall>s \<in> set ss. printable_unix (cs_Created s)
       then \<exists>text ws. ans = \<lparr>rs_CommandID = rq_ID req, rs_Success = True, rs_Message = '''',
              rs_Details = fmupd ''containers'' text fmempty\<rparr> \<and>
            read_value text = Some (JArray ws) \<and> list_all2 listed_container ss ws
       else \<not> rs_Success ans)) \<and>
    (case dk_do dk ''http://unix/containers/json?all=true'' of
       Inl err \<Rightarrow> \<not> rs_Success ans
     | Inr resp \<Rightarrow> dr_StatusCode resp \<noteq> 200 \<longrightarrow> \<not> rs_Success ans)"
proof -
  let ?rt = "docker_as_runtime dk (NewRuntime socket)"
  have url: "drt_baseURL (NewRuntime socket) @ ''/containers/json?all=true'' = ''http://unix/containers/json?all=true''"
    by (simp add: NewRuntime_def)
  note ans = assms(2) [unfolded dispatch_list_containers [OF assms(1)]]
  have refused: "\<not> rs_Success ans" if "rt_ListContainers ?rt = Inl err" for err
    using that by (simp add: ans failure_def)
  have listed: "if \<forall>s \<in> set ss. printable_unix (cs_Created s)
      then \<exists>text ws. ans = \<lparr>rs_CommandID = rq_ID req, rs_Success = True, rs_Message = '''',
             rs_Details = fmupd ''containers'' text fmempty\<rparr> \<and>
           read_value text = Some (JArray ws) \<and> list_all2 listed_container ss ws
      else \<not> rs_Success ans"
    if answer: "dk_do dk ''http://unix/containers/json?all=true'' = Inr resp" "dr_StatusCode resp = 200"
      "read_value (dr_Body resp) = Some (JArray vs)" and vals: "list_all2 summary_value vs ss" for resp vs ss
  proof -
    have rt: "rt_ListContainers ?rt = Inr (map container_of_summary ss)"
      unfolding docker_as_runtime_def
      using list_containers_value [of "dk_newRequest dk" "NewRuntime socket" "dk_do dk" resp vs ss] assms(3) answer vals
      by (simp add: url [simplified])
    from marshalled_iff_printable [OF vals] marshalled_summaries [OF vals] show ?thesis
      by (cases "marshal_list (map container_of_summary ss)")
        (auto simp: ans rt payload_response_def ok_response_def failure_def)
  qed
  have "case dk_do dk ''http://unix/containers/json?all=true'' of
      Inl err \<Rightarrow> \<not> rs_Success ans | Inr resp \<Rightarrow> dr_StatusCode resp \<noteq> 200 \<longrightarrow> \<not> rs_Success ans"
    using list_containers_refused [of "dk_do dk" "NewRuntime socket" "dk_newRequest dk"] refused
    by (fastforce simp: docker_as_runtime_def url [simplified] split: sum.split)
  with listed show ?thesis by blast
qed

section \<open>The answer to INSPECT_CONTAINER\<close>

lemma inspect_executor:
  "fmlookup (disp_executors (newDispatcher v m rt)) ''INSPECT_CONTAINER'' = Some (inspectContainerExecutor rt)"
  using newDispatcher_get [of "''INSPECT_CONTAINER''" v m rt] by (simp add: disp_get_def agent_executor_def)

lemma dispatch_inspect_container:
  assumes "rq_Kind req = ''INSPECT_CONTAINER''" and "fmlookup (rq_Arguments req) ''id'' = Some i" and "i \<noteq> ''''"
  shows "Dispatch (newDispatcher v m rt) req =
    (case rt_InspectContainer rt i of
       Inl err \<Rightarrow> failure (rq_ID req) (error_text err)
     | Inr d \<Rightarrow> (payload_response ''container'' (marshal_details d))\<lparr>rs_CommandID := rq_ID req\<rparr>)"
  using assms
  by (simp add: Dispatch_def inspect_executor inspectContainerExecutor_def ExecutorFunc_def failure_def split: sum.split)

lemma dispatch_inspect_unnamed:
  assumes "rq_Kind req = ''INSPECT_CONTAINER''" and "fmlookup (rq_Arguments req) ''id'' \<in> {None, Some ''''}"
  shows "Dispatch (newDispatcher v m rt) req = failure (rq_ID req) ''missing required argument: id''"
  using assms by (auto simp: Dispatch_def inspect_executor inspectContainerExecutor_def ExecutorFunc_def failure_def)

text \<open>The ports of a container, one per binding, in an order of the map of ports.\<close>

definition reported_port :: "string \<Rightarrow> inspect_Binding \<Rightarrow> Port" where
  "reported_port spec b =
     \<lparr>port_ContainerPort = fst (splitPortSpec spec), port_HostPort = fst (atoi (ibd_HostPort b)),
      port_Protocol = snd (splitPortSpec spec)\<rparr>"

definition reported_ports :: "(string, inspect_Binding slice) fmap \<Rightarrow> string list \<Rightarrow> Port list" where
  "reported_ports m ks = concat (map (\<lambda>spec. map (reported_port spec) (slice_items (the (fmlookup m spec)))) ks)"

definition inspected_container :: "containerInspect \<Rightarrow> string \<Rightarrow> json \<Rightarrow> bool" where
  "inspected_container ins t w \<longleftrightarrow>
     (\<exists>pk nk. range_order (ins_Ports (ci_NetworkSettings ins)) pk \<and> range_order (ins_Networks (ci_NetworkSettings ins)) nk \<and>
      w = JObject
        [(''id'', encode_string (ci_ID ins)), (''name'', encode_string (unslashed (ci_Name ins))),
         (''image'', encode_string (icf_Image (ci_Config ins))), (''status'', encode_string (ist_Status (ci_State ins))),
         (''state'', encode_string (ist_Status (ci_State ins))), (''created'', JString t),
         (''command'', encode_slice encode_string (slice_value (icf_Cmd (ci_Config ins)))),
         (''env'', encode_slice encode_string (slice_value (icf_Env (ci_Config ins)))),
         (''mounts'', JArray (map (\<lambda>m. JObject [(''source'', encode_string (imt_Source m)),
            (''destination'', encode_string (imt_Destination m)), (''mode'', encode_string (imt_Mode m))])
            (slice_items (ci_Mounts ins)))),
         (''ports'', JArray (map encode_port (reported_ports (ins_Ports (ci_NetworkSettings ins)) pk))),
         (''networks'', JArray (map encode_string nk)),
         (''restart_count'', encode_int (ci_RestartCount ins))])"

text \<open>The instant and offset of the daemon's text; a text that is no time stands for the first instant of year 1.\<close>

definition inspected_time :: "containerInspect \<Rightarrow> Time \<times> int" where
  "inspected_time ins = (case parse_time (ci_Created ins) of None \<Rightarrow> (0, 0) | Some tz \<Rightarrow> tz)"

lemma encode_slice_fits:
  assumes "\<And>x. json_fits (d - 1) (enc x)" and "d \<noteq> 0"
  shows "json_fits d (encode_slice enc xs)"
  using assms by (auto simp: encode_slice_def list_all_iff split: option.split)

lemma plain_details_tags:
  "list_all plain_name [''command'', ''env'', ''mounts'', ''ports'', ''networks'', ''restart_count'', ''source'',
     ''destination'', ''mode'', ''container_port'', ''host_port'', ''protocol'']"
  by code_simp

lemma details_members_fit:
  assumes "(k, v) \<in> set (details_members d)" and "2 \<le> n"
  shows "raw_text k \<and> json_fits n v"
proof -
  note names = plain_details_tags [simplified]
  have "json_fits n (encode_slice encode_string xs)" "json_fits n (encode_slice encode_mount ys)"
    "json_fits n (encode_slice encode_port zs)" for xs ys zs
    using assms(2) names
    by (auto intro!: encode_slice_fits simp: encode_mount_def encode_port_def raw_text_plain_name)
  with assms(1) names show ?thesis by (auto simp: details_members_def raw_text_plain_name)
qed

lemma marshal_details_outcome:
  "(\<exists>payload. marshal_details d = Inr payload) \<longleftrightarrow> container_members (cd_Container d) \<noteq> None"
  "marshal_details d = Inr payload \<Longrightarrow>
     \<exists>kvs. container_members (cd_Container d) = Some kvs \<and> read_value payload = Some (JObject (kvs @ details_members d))"
proof -
  show "(\<exists>payload. marshal_details d = Inr payload) \<longleftrightarrow> container_members (cd_Container d) \<noteq> None"
    by (auto simp: marshal_details_def split: option.split)
  assume "marshal_details d = Inr payload"
  then obtain kvs where kvs: "container_members (cd_Container d) = Some kvs"
    and payload: "payload = json_text (JObject (kvs @ details_members d))"
    by (auto simp: marshal_details_def split: option.splits)
  have "json_fits maxNestingDepth (JObject (kvs @ details_members d))"
    using container_members_fit [OF kvs] details_members_fit [of _ _ d "maxNestingDepth - 1"]
    by (fastforce simp: list_all_iff maxNestingDepth_def)
  from parse_json_text [OF this, of "[]"] kvs show "\<exists>kvs. container_members (cd_Container d) = Some kvs \<and>
      read_value payload = Some (JObject (kvs @ details_members d))"
    by (simp add: read_value_def payload number_end_def del: json_text.simps)
qed

text \<open>The result of \<^verbatim>\<open>InspectContainer\<close>, with the orders of the two range loops.\<close>

definition inspected_details :: "string list \<Rightarrow> string list \<Rightarrow> containerInspect \<Rightarrow> ContainerDetails" where
  "inspected_details pk nk ins =
    \<lparr>cd_Container =
       \<lparr>c_ID = ci_ID ins, c_Name = unslashed (ci_Name ins), c_Image = icf_Image (ci_Config ins),
        c_Status = ist_Status (ci_State ins), c_State = ist_Status (ci_State ins),
        c_Created = fst (inspected_time ins), c_CreatedZone = snd (inspected_time ins)\<rparr>,
     cd_Command = slice_value (icf_Cmd (ci_Config ins)), cd_Env = slice_value (icf_Env (ci_Config ins)),
     cd_Mounts = inspectMounts ins, cd_Ports = inspectPorts pk ins, cd_Networks = inspectNetworks nk ins,
     cd_RestartCount = ci_RestartCount ins\<rparr>"

lemma inspect_container_value:
  assumes "newRequest (drt_baseURL r @ ''/containers/'' @ path_escape i @ ''/json'') = None"
    and "do (drt_baseURL r @ ''/containers/'' @ path_escape i @ ''/json'') = Inr resp" and "dr_StatusCode resp = 200"
    and "read_value (dr_Body resp) = Some v" and "inspect_value v ins"
  shows "InspectContainer newRequest do pk nk r i = Inr (inspected_details pk nk ins)"
  using assms
  by (simp add: InspectContainer_def docker_get_def decode_body_def decode_inspect_value inspected_time_def trim_slash Let_def
      inspected_details_def)

lemma inspectPorts_reported: "inspectPorts pk ins = reported_ports (ins_Ports (ci_NetworkSettings ins)) pk"
  by (simp add: inspectPorts_def reported_ports_def range_pairs_def reported_port_def [abs_def] o_def case_prod_beta)

lemma inspectNetworks_order: "inspectNetworks nk ins = nk"
  by (simp add: inspectNetworks_def range_pairs_def o_def)

lemma inspect_container_404:
  assumes "newRequest (drt_baseURL r @ ''/containers/'' @ path_escape i @ ''/json'') = None"
    and "do (drt_baseURL r @ ''/containers/'' @ path_escape i @ ''/json'') = Inr resp" and "dr_StatusCode resp = 404"
  shows "InspectContainer newRequest do pk nk r i = Inl (Wrapf '''' ErrContainerNotFound ('': '' @ i))"
  using assms by (simp add: InspectContainer_def docker_get_404)

text \<open>What the answer holds where the daemon's value stands for \<open>ins\<close>.\<close>

lemma inspect_answer:
  assumes "range_order (ins_Ports (ci_NetworkSettings ins)) pk" and "range_order (ins_Networks (ci_NetworkSettings ins)) nk"
  shows "case format_time (snd (inspected_time ins)) (fst (inspected_time ins)) of
      None \<Rightarrow> \<exists>err. marshal_details (inspected_details pk nk ins) = Inl err
    | Some t \<Rightarrow> \<exists>payload w. marshal_details (inspected_details pk nk ins) = Inr payload \<and> read_value payload = Some w \<and>
        inspected_container ins t w"
proof -
  define d where d: "d = inspected_details pk nk ins"
  note d_def = d [unfolded inspected_details_def inspectPorts_reported inspectNetworks_order]
  have members: "container_members (cd_Container d) = map_option (\<lambda>t.
      [(''id'', encode_string (ci_ID ins)), (''name'', encode_string (unslashed (ci_Name ins))),
       (''image'', encode_string (icf_Image (ci_Config ins))), (''status'', encode_string (ist_Status (ci_State ins))),
       (''state'', encode_string (ist_Status (ci_State ins))), (''created'', JString t)])
      (format_time (snd (inspected_time ins)) (fst (inspected_time ins)))"
    by (simp add: d_def container_members_def encode_time_def option.map_comp o_def)
  show ?thesis
  proof (cases "format_time (snd (inspected_time ins)) (fst (inspected_time ins))")
    case None
    with members marshal_details_outcome(1) [of d] show ?thesis by (cases "marshal_details d") (auto simp flip: d)
  next
    case (Some t)
    with members marshal_details_outcome(1) [of d] obtain payload where p: "marshal_details d = Inr payload" by auto
    from marshal_details_outcome(2) [OF this] members Some obtain w where w: "read_value payload = Some w"
        "w = JObject ([(''id'', encode_string (ci_ID ins)), (''name'', encode_string (unslashed (ci_Name ins))),
         (''image'', encode_string (icf_Image (ci_Config ins))), (''status'', encode_string (ist_Status (ci_State ins))),
         (''state'', encode_string (ist_Status (ci_State ins))), (''created'', JString t)] @ details_members d)"
      by auto
    have "inspected_container ins t w"
      unfolding inspected_container_def w(2)
      by (rule exI [of _ pk], rule exI [of _ nk])
        (use assms(1,2) in \<open>simp add: d_def details_members_def encode_slice_def inspectMounts_def encode_mount_def\<close>)
    with Some p w(1) show ?thesis by (auto simp flip: d)
  qed
qed

text \<open>
  \<^bold>\<open>C34.\<close> \<^verbatim>\<open>INSPECT_CONTAINER\<close>, from the daemon's text to the answer's: the one request asks for the
  container named in the arguments, whatever characters the name holds; when the daemon answers
  it with 200 and the text of an object that holds a container's members among any others, the
  answer reports exactly this container, under its name without the slash, with command,
  environment, mounts, one port per binding, networks and restarts, in a text that reads back;
  only a creation time that has no text makes the command fail. A 404 is answered with a failure
  that says the container was not found and names it, and without a name nothing is asked.
\<close>

theorem container_inspected:
  assumes "rq_Kind req = ''INSPECT_CONTAINER''"
    and "ans = Dispatch (newDispatcher v m (docker_as_runtime dk (NewRuntime socket))) req"
    and "url = ''http://unix/containers/'' @ path_escape i @ ''/json''" and "dk_newRequest dk url = None"
  shows "(fmlookup (rq_Arguments req) ''id'' = Some i \<and> i \<noteq> '''' \<longrightarrow>
      (\<forall>resp j ins. dk_do dk url = Inr resp \<and> dr_StatusCode resp = 200 \<and> read_value (dr_Body resp) = Some j \<and>
          inspect_value j ins \<and> range_order (ins_Ports (ci_NetworkSettings ins)) (dk_portOrder dk) \<and>
          range_order (ins_Networks (ci_NetworkSettings ins)) (dk_networkOrder dk) \<longrightarrow>
        (case format_time (snd (inspected_time ins)) (fst (inspected_time ins)) of
           None \<Rightarrow> \<not> rs_Success ans
         | Some t \<Rightarrow> \<exists>payload w. ans = \<lparr>rs_CommandID = rq_ID req, rs_Success = True, rs_Message = '''',
               rs_Details = fmupd ''container'' payload fmempty\<rparr> \<and>
             read_value payload = Some w \<and> inspected_container ins t w)) \<and>
      (\<forall>resp. dk_do dk url = Inr resp \<and> dr_StatusCode resp = 404 \<longrightarrow>
        ans = failure (rq_ID req) (''container not found: '' @ i))) \<and>
    (fmlookup (rq_Arguments req) ''id'' \<in> {None, Some ''''} \<longrightarrow>
      ans = failure (rq_ID req) ''missing required argument: id'')"
proof -
  let ?r = "NewRuntime socket"
  let ?inspect = "InspectContainer (dk_newRequest dk) (dk_do dk) (dk_portOrder dk) (dk_networkOrder dk) ?r"
  have url: "drt_baseURL ?r @ ''/containers/'' @ path_escape i @ ''/json'' = url" by (simp add: NewRuntime_def assms(3))
  have rt: "rt_InspectContainer (docker_as_runtime dk ?r) = ?inspect" by (simp add: docker_as_runtime_def)
  have ans: "ans = (case ?inspect i of Inl err \<Rightarrow> failure (rq_ID req) (error_text err)
      | Inr d \<Rightarrow> (payload_response ''container'' (marshal_details d))\<lparr>rs_CommandID := rq_ID req\<rparr>)"
    if "fmlookup (rq_Arguments req) ''id'' = Some i \<and> i \<noteq> ''''"
    using that assms(2) dispatch_inspect_container [OF assms(1), of i] by (simp add: rt)
  note inspected = inspect_container_value [of "dk_newRequest dk" ?r i "dk_do dk", unfolded url, OF assms(4)]
  have found: "case format_time (snd (inspected_time ins)) (fst (inspected_time ins)) of
      None \<Rightarrow> \<not> rs_Success ans
    | Some t \<Rightarrow> \<exists>payload w. ans = \<lparr>rs_CommandID = rq_ID req, rs_Success = True, rs_Message = '''',
          rs_Details = fmupd ''container'' payload fmempty\<rparr> \<and>
        read_value payload = Some w \<and> inspected_container ins t w"
    if named: "fmlookup (rq_Arguments req) ''id'' = Some i \<and> i \<noteq> ''''"
      and answer: "dk_do dk url = Inr resp" "dr_StatusCode resp = 200" "read_value (dr_Body resp) = Some j" "inspect_value j ins"
      and orders: "range_order (ins_Ports (ci_NetworkSettings ins)) (dk_portOrder dk)"
        "range_order (ins_Networks (ci_NetworkSettings ins)) (dk_networkOrder dk)" for resp j ins
    using inspect_answer [OF orders] ans [OF named, unfolded inspected [OF answer]]
    by (auto simp: payload_response_def ok_response_def failure_def split: option.split) blast
  have missing: "ans = failure (rq_ID req) (''container not found: '' @ i)"
    if "fmlookup (rq_Arguments req) ''id'' = Some i \<and> i \<noteq> ''''" "dk_do dk url = Inr resp" "dr_StatusCode resp = 404" for resp
    using ans [OF that(1)] inspect_container_404 [of "dk_newRequest dk" ?r i "dk_do dk" resp, unfolded url, OF assms(4) that(2,3)]
    by (simp add: ErrContainerNotFound_def)
  have "ans = failure (rq_ID req) ''missing required argument: id''" if "fmlookup (rq_Arguments req) ''id'' \<in> {None, Some ''''}"
    using that assms(2) dispatch_inspect_unnamed [OF assms(1)] by simp
  with found missing show ?thesis by blast
qed

section \<open>A concrete list of containers\<close>

text \<open>A daemon that knows one container and reports a member the program does not read.\<close>

definition demo_summary :: containerSummary where
  "demo_summary = \<lparr>cs_ID = ''c1'', cs_Names = Slice 1 [''/web''], cs_Image = ''nginx'', cs_Created = 1700000000,
     cs_State = ''running'', cs_Status = ''Up''\<rparr>"

definition demo_listing :: json where
  "demo_listing = JArray [JObject [(''Id'', encode_string ''c1''), (''Names'', JArray [encode_string ''/web'']),
     (''Image'', encode_string ''nginx''), (''ImageID'', encode_string ''sha256:1''), (''Created'', encode_int 1700000000),
     (''State'', encode_string ''running''), (''Status'', encode_string ''Up'')]]"

definition demo_docker_up :: docker_host where
  "demo_docker_up = \<lparr>dk_newRequest = (\<lambda>_. None),
     dk_do = (\<lambda>_. Inr \<lparr>dr_StatusCode = 200, dr_Body = json_text demo_listing, dr_DecodeError = anon ''''\<rparr>),
     dk_portOrder = [], dk_networkOrder = []\<rparr>"

lemma demo_listing_read: "read_value (json_text demo_listing) = Some demo_listing"
proof -
  have "plain_name ''ImageID''" by code_simp
  then have "json_fits maxNestingDepth demo_listing"
    by (simp add: demo_listing_def maxNestingDepth_def raw_text_plain_name)
  from parse_json_text [OF this, of "[]"] show ?thesis by (simp add: read_value_def number_end_def)
qed

lemma demo_listing_value: "\<exists>v. demo_listing = JArray [v] \<and> summary_value v demo_summary"
proof -
  have unknown: "field_for summary_fields ''ImageID'' = None" by code_simp
  have known: "field_for summary_fields ''Id'' \<noteq> None" "field_for summary_fields ''Names'' \<noteq> None"
    "field_for summary_fields ''Image'' \<noteq> None" "field_for summary_fields ''Created'' \<noteq> None"
    "field_for summary_fields ''State'' \<noteq> None" "field_for summary_fields ''Status'' \<noteq> None"
    by (simp_all add: field_for_def summary_fields_def)
  have ascii: "text_value (encode_string s) s" if "valid_utf8 s" for s
    using that by (simp add: text_value_def encode_string_def unquote_json_quote)
  have plain: "unquote ''ImageID'' = Some ''ImageID''" by (rule unquote_plain) code_simp
  show ?thesis
    using known ascii unfolding demo_listing_def
    by (simp add: summary_value_def object_value_def known_members_def plain unquote_plain unknown demo_summary_def
        slice_of_def slice_items_def int_value_def int64_def ascii_valid_utf8)
qed

theorem containers_listed_witness:
  "\<exists>ws. (\<exists>payload. fmlookup (rs_Details (Dispatch (newDispatcher ''dev'' demo_machine
      (docker_as_runtime demo_docker_up (NewRuntime ''/var/run/docker.sock'')))
      \<lparr>rq_ID = ''id1'', rq_Kind = ''LIST_CONTAINERS'', rq_Arguments = fmempty\<rparr>)) ''containers'' = Some payload \<and>
      read_value payload = Some (JArray ws)) \<and> list_all2 listed_container [demo_summary] ws"
proof -
  let ?req = "\<lparr>rq_ID = ''id1'', rq_Kind = ''LIST_CONTAINERS'', rq_Arguments = fmempty\<rparr>"
  let ?ans = "Dispatch (newDispatcher ''dev'' demo_machine
    (docker_as_runtime demo_docker_up (NewRuntime ''/var/run/docker.sock''))) ?req"
  obtain v where v: "demo_listing = JArray [v]" "summary_value v demo_summary" using demo_listing_value by blast
  let ?resp = "\<lparr>dr_StatusCode = 200, dr_Body = json_text demo_listing, dr_DecodeError = anon ''''\<rparr>"
  have answer: "dk_do demo_docker_up ''http://unix/containers/json?all=true'' = Inr ?resp \<and> dr_StatusCode ?resp = 200 \<and>
      read_value (dr_Body ?resp) = Some (JArray [v]) \<and> list_all2 summary_value [v] [demo_summary]"
    using demo_listing_read v by (simp add: demo_docker_up_def)
  have start: "rq_Kind ?req = ''LIST_CONTAINERS''"
    "dk_newRequest demo_docker_up ''http://unix/containers/json?all=true'' = None" by (simp_all add: demo_docker_up_def)
  have "\<forall>s \<in> set [demo_summary]. printable_unix (cs_Created s)" by (simp add: printable_unix_def demo_summary_def)
  then obtain payload ws where "?ans = \<lparr>rs_CommandID = rq_ID ?req, rs_Success = True, rs_Message = '''',
      rs_Details = fmupd ''containers'' payload fmempty\<rparr>"
    and "read_value payload = Some (JArray ws)" "list_all2 listed_container [demo_summary] ws"
    using containers_listed [OF start(1) refl start(2), of "''dev''" demo_machine "''/var/run/docker.sock''",
        THEN conjunct1, THEN spec, THEN spec, THEN spec, THEN mp, OF answer]
    by (auto simp del: list_all2_Cons1 list.set)
  then show ?thesis by auto
qed

section \<open>A concrete container\<close>

text \<open>A container with a published port and a creation time that is no time.\<close>

definition demo_inspect :: containerInspect where
  "demo_inspect =
     \<lparr>ci_ID = ''c1'', ci_Name = ''/web'', ci_Image = ''sha256:1'', ci_State = \<lparr>ist_Status = ''running''\<rparr>, ci_Created = ''?'',
      ci_Config = \<lparr>icf_Image = ''nginx'', icf_Cmd = NilSlice, icf_Env = Slice 1 [''A=1'']\<rparr>, ci_RestartCount = 2,
      ci_NetworkSettings = \<lparr>ins_Ports = fmupd ''80/tcp'' (Slice 1 [\<lparr>ibd_HostPort = ''8080''\<rparr>]) fmempty,
        ins_Networks = fmupd ''bridge'' () fmempty\<rparr>,
      ci_Mounts = Slice 1 [\<lparr>imt_Source = ''/srv'', imt_Destination = ''/data'', imt_Mode = ''rw''\<rparr>]\<rparr>"

definition demo_inspect_json :: json where
  "demo_inspect_json = JObject
     [(''Id'', encode_string ''c1''), (''Created'', encode_string ''?''), (''Path'', encode_string ''sh''),
      (''State'', JObject [(''Status'', encode_string ''running''), (''Running'', JBool True)]),
      (''Image'', encode_string ''sha256:1''), (''Name'', encode_string ''/web''), (''RestartCount'', encode_int 2),
      (''Mounts'', JArray [JObject [(''Source'', encode_string ''/srv''), (''Destination'', encode_string ''/data''),
         (''Mode'', encode_string ''rw'')]]),
      (''Config'', JObject [(''Env'', JArray [encode_string ''A=1'']), (''Cmd'', JNull), (''Image'', encode_string ''nginx'')]),
      (''NetworkSettings'', JObject
         [(''Ports'', JObject [(''80/tcp'', JArray [JObject [(''HostPort'', encode_string ''8080'')]])]),
          (''Networks'', JObject [(''bridge'', JObject [])])])]"

definition demo_docker_inspect :: docker_host where
  "demo_docker_inspect = \<lparr>dk_newRequest = (\<lambda>_. None),
     dk_do = (\<lambda>_. Inr \<lparr>dr_StatusCode = 200, dr_Body = json_text demo_inspect_json, dr_DecodeError = anon ''''\<rparr>),
     dk_portOrder = [''80/tcp''], dk_networkOrder = [''bridge'']\<rparr>"

lemma demo_inspect_tags:
  "plain_name ''Path''" "plain_name ''Running''" "plain_name ''80/tcp''" "plain_name ''bridge''"
  by code_simp+

lemma demo_inspect_read: "read_value (json_text demo_inspect_json) = Some demo_inspect_json"
proof -
  have "json_fits maxNestingDepth demo_inspect_json"
    by (simp add: demo_inspect_json_def maxNestingDepth_def raw_text_plain_name demo_inspect_tags)
  from parse_json_text [OF this, of "[]"] show ?thesis by (simp add: read_value_def number_end_def)
qed

lemma field_for_tag: "k \<in> fst ` set tags \<Longrightarrow> field_for tags k \<noteq> None"
  using weak_map_of_SomeI [of k _ tags] by (fastforce simp: field_for_def)

lemma object_valueI:
  assumes "list_all (\<lambda>(k, v). plain_name k) kvs"
    and "list_all2 (\<lambda>(k, v) (name, is_value). k = name \<and> is_value v) (filter (\<lambda>(k, v). field_for tags k \<noteq> None) kvs) members"
  shows "object_value tags members (JObject kvs)"
proof -
  have "known_members tags kvs = filter (\<lambda>(k, v). field_for tags k \<noteq> None) kvs"
    unfolding known_members_def using assms(1) by (intro filter_cong refl) (auto simp: list_all_iff unquote_plain)
  with assms show ?thesis by (auto simp: object_value_def list_all_iff unquote_plain)
qed

lemma ascii_text_value: "list_all (\<lambda>c. byte c < 0x80) s \<Longrightarrow> text_value (encode_string s) s"
  by (simp add: text_value_def encode_string_def unquote_json_quote ascii_valid_utf8)

lemma demo_parts_value:
  "state_value (JObject [(''Status'', encode_string ''running''), (''Running'', JBool True)]) (ci_State demo_inspect)"
  "config_value (JObject [(''Env'', JArray [encode_string ''A=1'']), (''Cmd'', JNull), (''Image'', encode_string ''nginx'')])
     (ci_Config demo_inspect)"
  "networks_value (JObject [(''Ports'', JObject [(''80/tcp'', JArray [JObject [(''HostPort'', encode_string ''8080'')]])]),
     (''Networks'', JObject [(''bridge'', JObject [])])]) (ci_NetworkSettings demo_inspect)"
  "slice_of mount_value (JArray [JObject [(''Source'', encode_string ''/srv''), (''Destination'', encode_string ''/data''),
     (''Mode'', encode_string ''rw'')]]) (ci_Mounts demo_inspect)"
proof -
  have fields: "field_for state_fields ''Running'' = None" "field_for state_fields ''Status'' \<noteq> None" by code_simp+
  show "state_value (JObject [(''Status'', encode_string ''running''), (''Running'', JBool True)]) (ci_State demo_inspect)"
    unfolding state_value_def
    by (rule object_valueI)
      (simp_all add: demo_inspect_tags fields demo_inspect_def ascii_text_value)
  show "config_value (JObject [(''Env'', JArray [encode_string ''A=1'']), (''Cmd'', JNull), (''Image'', encode_string ''nginx'')])
     (ci_Config demo_inspect)"
    unfolding config_value_def
    by (rule object_valueI)
      (simp_all add: field_for_tag config_fields_def demo_inspect_def ascii_text_value slice_of_def slice_items_def)
  show "slice_of mount_value (JArray [JObject [(''Source'', encode_string ''/srv''), (''Destination'', encode_string ''/data''),
     (''Mode'', encode_string ''rw'')]]) (ci_Mounts demo_inspect)"
    by (simp add: slice_of_def slice_items_def demo_inspect_def mount_value_def)
      (rule object_valueI; simp add: field_for_tag mount_fields_def ascii_text_value)
  have binding: "binding_value (JObject [(''HostPort'', encode_string ''8080'')]) \<lparr>ibd_HostPort = ''8080''\<rparr>"
    unfolding binding_value_def by (rule object_valueI) (simp_all add: field_for_tag binding_fields_def ascii_text_value)
  have net: "object_value ([] :: (string \<times> unit decoder) list) [] (JObject [])" by (rule object_valueI) simp_all
  have "map_of_members (slice_of binding_value) (JObject [(''80/tcp'', JArray [JObject [(''HostPort'', encode_string ''8080'')]])])
      (ins_Ports (ci_NetworkSettings demo_inspect))"
    by (auto simp: map_of_members_def demo_inspect_def slice_of_def slice_items_def binding demo_inspect_tags unquote_plain
        list_all2_Cons1 intro!: exI [of _ "[(''80/tcp'', Slice 1 [\<lparr>ibd_HostPort = ''8080''\<rparr>])]"])
  moreover have "map_of_members (\<lambda>v _. object_value ([] :: (string \<times> unit decoder) list) [] v)
      (JObject [(''bridge'', JObject [])]) (ins_Networks (ci_NetworkSettings demo_inspect))"
    by (auto simp: map_of_members_def demo_inspect_def net demo_inspect_tags unquote_plain intro!: exI [of _ "[(''bridge'', ())]"])
  ultimately show "networks_value (JObject [(''Ports'', JObject [(''80/tcp'', JArray [JObject [(''HostPort'', encode_string ''8080'')]])]),
     (''Networks'', JObject [(''bridge'', JObject [])])]) (ci_NetworkSettings demo_inspect)"
    unfolding networks_value_def by (intro object_valueI) (simp_all add: field_for_tag network_fields_def)
qed

lemma demo_inspect_value: "inspect_value demo_inspect_json demo_inspect"
proof -
  have unknown: "field_for inspect_fields ''Path'' = None" by code_simp
  have known: "field_for inspect_fields k \<noteq> None"
    if "k \<in> {''Id'', ''Name'', ''Image'', ''State'', ''Created'', ''Config'', ''RestartCount'', ''NetworkSettings'', ''Mounts''}" for k
    using that by (intro field_for_tag) (simp add: inspect_fields_def)
  show ?thesis
    unfolding inspect_value_def demo_inspect_json_def
    by (rule object_valueI)
      (simp_all add: demo_inspect_tags unknown known demo_parts_value ascii_text_value int_value_def int64_def,
       simp_all add: demo_inspect_def ascii_text_value)
qed

theorem container_inspected_witness:
  "\<exists>t payload w. fmlookup (rs_Details (Dispatch (newDispatcher ''dev'' demo_machine
      (docker_as_runtime demo_docker_inspect (NewRuntime ''/var/run/docker.sock'')))
      \<lparr>rq_ID = ''id1'', rq_Kind = ''INSPECT_CONTAINER'', rq_Arguments = fmupd ''id'' ''web'' fmempty\<rparr>)) ''container'' = Some payload \<and>
    read_value payload = Some w \<and> inspected_container demo_inspect t w"
proof -
  let ?req = "\<lparr>rq_ID = ''id1'', rq_Kind = ''INSPECT_CONTAINER'', rq_Arguments = fmupd ''id'' ''web'' fmempty\<rparr>"
  let ?ans = "Dispatch (newDispatcher ''dev'' demo_machine
    (docker_as_runtime demo_docker_inspect (NewRuntime ''/var/run/docker.sock''))) ?req"
  let ?url = "''http://unix/containers/'' @ path_escape ''web'' @ ''/json''"
  let ?resp = "\<lparr>dr_StatusCode = 200, dr_Body = json_text demo_inspect_json, dr_DecodeError = anon ''''\<rparr>"
  have start: "rq_Kind ?req = ''INSPECT_CONTAINER''" "dk_newRequest demo_docker_inspect ?url = None"
    "fmlookup (rq_Arguments ?req) ''id'' = Some ''web'' \<and> ''web'' \<noteq> ''''"
    by (simp_all add: demo_docker_inspect_def)
  have answer: "dk_do demo_docker_inspect ?url = Inr ?resp \<and> dr_StatusCode ?resp = 200 \<and>
      read_value (dr_Body ?resp) = Some demo_inspect_json \<and> inspect_value demo_inspect_json demo_inspect \<and>
      range_order (ins_Ports (ci_NetworkSettings demo_inspect)) (dk_portOrder demo_docker_inspect) \<and>
      range_order (ins_Networks (ci_NetworkSettings demo_inspect)) (dk_networkOrder demo_docker_inspect)"
    using demo_inspect_read demo_inspect_value by (simp add: demo_docker_inspect_def demo_inspect_def range_order_def)
  have "parse_time ''?'' = None" by code_simp
  then have "inspected_time demo_inspect = (0, 0)" by (simp add: inspected_time_def demo_inspect_def)
  then have "\<exists>t. format_time (snd (inspected_time demo_inspect)) (fst (inspected_time demo_inspect)) = Some t"
    by (simp add: format_time_def Let_def calendar_day_def day_def zone_minutes_def cycle_days_def)
  then show ?thesis
    using container_inspected [OF start(1) refl refl start(2), of "''dev''" demo_machine "''/var/run/docker.sock''",
        THEN conjunct1, THEN mp, OF start(3), THEN conjunct1, THEN spec, THEN spec, THEN spec, THEN mp, OF answer]
    by auto blast
qed

end
