(* ===== verification/Control_Plane.thy ===== *)
theory Control_Plane
  imports Connection_Server Commandbus_Service
begin

text \<open>
  The connection server and the Command Bus together, as \<^verbatim>\<open>cmd/server/main.go\<close> wires them: the
  server is the service's \<^verbatim>\<open>Sender\<close>, and the service's \<^verbatim>\<open>HandleResult\<close> is the server's handler for
  incoming messages. A \<^verbatim>\<open>Service.Send\<close> call goes through \<^verbatim>\<open>Server.Send\<close> before it waits, and the
  goroutine that reads a stream runs \<^verbatim>\<open>HandleResult\<close> to its end before it reads on. What arrives on
  a stream is arbitrary.
\<close>

section \<open>The composed system\<close>

text \<open>
  What the reading goroutine of a stream is doing in its handler: about to look for the
  pending request, or about to write to the channel it took.
\<close>

datatype conn_busy = Handling AgentID ConnectionEnvelope | Writing nat

record control_plane_state =
  cps_server :: Server
  cps_service :: Service
  cps_busy :: "nat \<Rightarrow> conn_busy option"

definition cp_init :: control_plane_state where
  "cp_init = \<lparr>cps_server = srv_init True, cps_service = NewService, cps_busy = (\<lambda>_. None)\<rparr>"

text \<open>
  \<open>CpConnect\<close> is a step of a \<^verbatim>\<open>Connect\<close> call other than receiving a message. \<open>CpRecv\<close>, \<open>CpTake\<close>
  and \<open>CpPut\<close> are the receipt of a message and the two halves of its handling. \<open>CpSend\<close> begins
  a \<^verbatim>\<open>Service.Send\<close>, \<open>CpLookup\<close> and \<open>CpWrite\<close> are \<^verbatim>\<open>Server.Send\<close> inside it, \<open>CpSent\<close> its return;
  \<open>CpReturn\<close> is one of the last steps of \<^verbatim>\<open>Service.Send\<close>.
\<close>

datatype cp_event =
    CpConnect srv_event
  | CpRecv nat ConnectionEnvelope
  | CpTake nat nat
  | CpPut nat
  | CpSend nat AgentID Request string
  | CpLookup nat
  | CpWrite nat "error option"
  | CpSent nat
  | CpReturn svc_event

text \<open>The stream whose goroutine takes a step, for the steps of \<^verbatim>\<open>Connect\<close> covered by \<open>CpConnect\<close>.\<close>

fun connect_stream :: "srv_event \<Rightarrow> nat option" where
  "connect_stream (EvOpen i) = Some i"
| "connect_stream (EvAuthenticate i now recv err) = Some i"
| "connect_stream (EvSetStream i) = Some i"
| "connect_stream (EvAdd i sid now) = Some i"
| "connect_stream (EvRespond i err) = Some i"
| "connect_stream (EvRecv i recv) = (case recv of Inl e \<Rightarrow> Some i | Inr env \<Rightarrow> None)"
| "connect_stream (EvDeferRemove i) = Some i"
| "connect_stream (EvDeferStream i) = Some i"
| "connect_stream (EvSend k d env) = None"
| "connect_stream (EvSendStream k err) = None"

fun send_return :: "svc_event \<Rightarrow> bool" where
  "send_return (SendReceive k) = True"
| "send_return (SendCtxDone k err) = True"
| "send_return (SendCleanup k) = True"
| "send_return _ = False"

definition on_server :: "(Server \<Rightarrow> Server option) \<Rightarrow> control_plane_state \<Rightarrow> control_plane_state option" where
  "on_server f s = map_option (\<lambda>t. s\<lparr>cps_server := t\<rparr>) (f (cps_server s))"

definition on_service :: "(Service \<Rightarrow> Service option) \<Rightarrow> control_plane_state \<Rightarrow> control_plane_state option" where
  "on_service f s = map_option (\<lambda>t. s\<lparr>cps_service := t\<rparr>) (f (cps_service s))"

abbreviation set_busy :: "nat \<Rightarrow> conn_busy option \<Rightarrow> control_plane_state \<Rightarrow> control_plane_state" where
  "set_busy i b s \<equiv> s\<lparr>cps_busy := (cps_busy s)(i := b)\<rparr>"

text \<open>What a reading goroutine does after \<^verbatim>\<open>HandleResult\<close> released its mutex.\<close>

definition after_take :: "nat \<Rightarrow> Service \<Rightarrow> conn_busy option" where
  "after_take j t = (case handlers t j of Some (HandlerPut k r) \<Rightarrow> Some (Writing j) | _ \<Rightarrow> None)"

fun cp_exec :: "(Time \<Rightarrow> verifier) \<Rightarrow> control_plane_state \<Rightarrow> cp_event \<Rightarrow> control_plane_state option" where
  "cp_exec verify s (CpConnect e) =
     (case connect_stream e of
        Some i \<Rightarrow> if cps_busy s i = None then on_server (\<lambda>srv. srv_exec verify srv e) s else None
      | None \<Rightarrow> None)"
| "cp_exec verify s (CpRecv i env) =
     (case (cps_busy s i, conns (cps_server s) i) of
        (None, Some (PcServing d u sid)) \<Rightarrow>
          on_server (\<lambda>srv. srv_exec verify srv (EvRecv i (Inr env))) (set_busy i (Some (Handling d env)) s)
      | _ \<Rightarrow> None)"
| "cp_exec verify s (CpTake i j) =
     (case cps_busy s i of
        Some (Handling d env) \<Rightarrow>
          (case svc_exec (cps_service s) (HandleTake j d (Some env)) of
             Some t \<Rightarrow> Some (set_busy i (after_take j t) (s\<lparr>cps_service := t\<rparr>))
           | None \<Rightarrow> None)
      | _ \<Rightarrow> None)"
| "cp_exec verify s (CpPut i) =
     (case cps_busy s i of
        Some (Writing j) \<Rightarrow> on_service (\<lambda>svc. svc_exec svc (HandlePut j)) (set_busy i None s)
      | _ \<Rightarrow> None)"
| "cp_exec verify s (CpSend k d req i) = on_service (\<lambda>svc. svc_exec svc (SendBegin k d req i)) s"
| "cp_exec verify s (CpLookup k) =
     (case calls (cps_service s) k of
        Some c \<Rightarrow> on_server (\<lambda>srv. srv_exec verify srv
                   (EvSend k (call_device c) (command_envelope (call_id c) (call_request c)))) s
      | None \<Rightarrow> None)"
| "cp_exec verify s (CpWrite k err) = on_server (\<lambda>srv. srv_exec verify srv (EvSendStream k err)) s"
| "cp_exec verify s (CpSent k) =
     (case sends (cps_server s) k of
        Some (SendReturned d env err) \<Rightarrow> on_service (\<lambda>svc. svc_exec svc (SendDeliver k err)) s
      | _ \<Rightarrow> None)"
| "cp_exec verify s (CpReturn e) =
     (if send_return e then on_service (\<lambda>svc. svc_exec svc e) s else None)"

text \<open>The identifiers of new calls are fresh, as for the service alone.\<close>

definition cp_fresh :: "control_plane_state \<Rightarrow> cp_event \<Rightarrow> bool" where
  "cp_fresh s e \<longleftrightarrow> (\<forall>k d r i. e = CpSend k d r i \<longrightarrow> fresh_id (cps_service s) (SendBegin k d r i))"

definition cp_step :: "(Time \<Rightarrow> verifier) \<Rightarrow> control_plane_state \<Rightarrow> cp_event \<Rightarrow> control_plane_state \<Rightarrow> bool" where
  "cp_step verify s e t \<longleftrightarrow> cp_exec verify s e = Some t \<and> cp_fresh s e"

section \<open>The parts of the composed system\<close>

lemma on_server_Some: "on_server f s = Some t \<longleftrightarrow> (\<exists>x. f (cps_server s) = Some x \<and> t = s\<lparr>cps_server := x\<rparr>)"
  by (auto simp: on_server_def)

lemma on_service_Some: "on_service f s = Some t \<longleftrightarrow> (\<exists>x. f (cps_service s) = Some x \<and> t = s\<lparr>cps_service := x\<rparr>)"
  by (auto simp: on_service_def)

text \<open>The steps as cases, with the step of the part each one makes.\<close>

lemma cp_execE:
  assumes "cp_exec verify s e = Some t"
  obtains
    (connect) e' i x where "e = CpConnect e'" "connect_stream e' = Some i" "cps_busy s i = None"
      "srv_exec verify (cps_server s) e' = Some x" "t = s\<lparr>cps_server := x\<rparr>"
  | (recv) i env d u sid x where "e = CpRecv i env" "cps_busy s i = None"
      "conns (cps_server s) i = Some (PcServing d u sid)"
      "srv_exec verify (cps_server s) (EvRecv i (Inr env)) = Some x"
      "t = set_busy i (Some (Handling d env)) (s\<lparr>cps_server := x\<rparr>)"
  | (take_msg) i j d env x where "e = CpTake i j" "cps_busy s i = Some (Handling d env)"
      "svc_exec (cps_service s) (HandleTake j d (Some env)) = Some x"
      "t = set_busy i (after_take j x) (s\<lparr>cps_service := x\<rparr>)"
  | (put_msg) i j x where "e = CpPut i" "cps_busy s i = Some (Writing j)"
      "svc_exec (cps_service s) (HandlePut j) = Some x" "t = set_busy i None (s\<lparr>cps_service := x\<rparr>)"
  | (send) k d r i x where "e = CpSend k d r i" "svc_exec (cps_service s) (SendBegin k d r i) = Some x"
      "t = s\<lparr>cps_service := x\<rparr>"
  | (lookup) k c x where "e = CpLookup k" "calls (cps_service s) k = Some c"
      "srv_exec verify (cps_server s) (EvSend k (call_device c) (command_envelope (call_id c) (call_request c))) = Some x"
      "t = s\<lparr>cps_server := x\<rparr>"
  | (written) k err x where "e = CpWrite k err" "srv_exec verify (cps_server s) (EvSendStream k err) = Some x"
      "t = s\<lparr>cps_server := x\<rparr>"
  | (sent) k d env err x where "e = CpSent k" "sends (cps_server s) k = Some (SendReturned d env err)"
      "svc_exec (cps_service s) (SendDeliver k err) = Some x" "t = s\<lparr>cps_service := x\<rparr>"
  | (return) e' x where "e = CpReturn e'" "send_return e'" "svc_exec (cps_service s) e' = Some x"
      "t = s\<lparr>cps_service := x\<rparr>"
proof (cases e)
  case (CpConnect e')
  with assms show thesis by (auto simp: on_server_Some split: option.splits if_splits intro: connect)
next
  case (CpRecv i env)
  with assms obtain d u sid where "conns (cps_server s) i = Some (PcServing d u sid)" "cps_busy s i = None"
    by (auto split: option.splits conn_pc.splits)
  moreover from this obtain x where "srv_exec verify (cps_server s) (EvRecv i (Inr env)) = Some x"
      "t = set_busy i (Some (Handling d env)) (s\<lparr>cps_server := x\<rparr>)"
    using CpRecv assms by (auto simp: on_server_Some simp del: srv_exec.simps)
  ultimately show thesis using CpRecv by (intro recv)
next
  case (CpTake i j)
  with assms show thesis by (auto simp del: svc_exec.simps split: option.splits conn_busy.splits intro: take_msg)
next
  case (CpPut i)
  with assms obtain j where "cps_busy s i = Some (Writing j)" by (auto split: option.splits conn_busy.splits)
  moreover from this obtain x where "svc_exec (cps_service s) (HandlePut j) = Some x"
      "t = set_busy i None (s\<lparr>cps_service := x\<rparr>)"
    using CpPut assms by (auto simp: on_service_Some simp del: svc_exec.simps)
  ultimately show thesis using CpPut by (intro put_msg)
next
  case (CpSend k d r i)
  with assms show thesis by (auto simp: on_service_Some simp del: svc_exec.simps intro: send)
next
  case (CpLookup k)
  with assms show thesis by (auto simp: on_server_Some simp del: srv_exec.simps split: option.splits intro: lookup)
next
  case (CpWrite k err)
  with assms show thesis by (auto simp: on_server_Some simp del: srv_exec.simps intro: written)
next
  case (CpSent k)
  with assms show thesis by (auto simp: on_service_Some simp del: svc_exec.simps split: option.splits send_pc.splits intro: sent)
next
  case (CpReturn e')
  with assms show thesis by (auto simp: on_service_Some split: if_splits intro: return)
qed

lemma cp_part_steps:
  assumes "cp_step verify s e t"
  shows "cps_server t = cps_server s \<or> (\<exists>l. srv_step verify (cps_server s) l (cps_server t))"
    "cps_service t = cps_service s \<or> (\<exists>l. svc_step (cps_service s) l (cps_service t))"
proof -
  from assms have x: "cp_exec verify s e = Some t" and f: "cp_fresh s e" by (simp_all add: cp_step_def)
  from x show "cps_server t = cps_server s \<or> (\<exists>l. srv_step verify (cps_server s) l (cps_server t))"
    by (cases rule: cp_execE) (auto simp: srv_step_def simp del: srv_exec.simps)
  have fresh: "fresh_id svc l" if "\<And>k d r i. l \<noteq> SendBegin k d r i" for svc l
    using that by (simp add: fresh_id_def)
  from x show "cps_service t = cps_service s \<or> (\<exists>l. svc_step (cps_service s) l (cps_service t))"
  proof (cases rule: cp_execE)
    case (send k d r i x)
    with f show ?thesis by (auto simp: svc_step_def cp_fresh_def simp del: svc_exec.simps)
  next
    case (return e' x)
    then have "fresh_id (cps_service s) e'" by (intro fresh) auto
    with return show ?thesis by (auto simp: svc_step_def simp del: svc_exec.simps)
  qed (auto simp: svc_step_def fresh simp del: svc_exec.simps)
qed

interpretation cp_server: projection "cp_step verify" cp_init "srv_step verify" "srv_init True" cps_server for verify
  by unfold_locales (simp add: cp_init_def, rule cp_part_steps)

interpretation cp_service: projection "cp_step verify" cp_init svc_step NewService cps_service for verify
  by unfold_locales (simp add: cp_init_def, rule cp_part_steps)

section \<open>What links the parts\<close>

lemma out_mono: "srv_exec verify s e = Some t \<Longrightarrow> m \<in> set (out s i) \<Longrightarrow> m \<in> set (out t i)"
proof -
  have fold_mono: "m \<in> set (out s i) \<Longrightarrow> m \<in> set (out (fold (\<lambda>m. handle_send j m err) ms s) i)" for j err ms s
    by (induction ms arbitrary: s) (auto simp: set_out_handle_send)
  show "srv_exec verify s e = Some t \<Longrightarrow> m \<in> set (out s i) \<Longrightarrow> m \<in> set (out t i)"
    by (erule srv_execE) (auto simp: set_out_handle_send fold_mono)
qed

lemma received_mono: "srv_exec verify s e = Some t \<Longrightarrow> m \<in> set (received s) \<Longrightarrow> m \<in> set (received t)"
  by (erule srv_execE) auto

lemma call_kept:
  assumes "svc_exec s e = Some t" and "calls s k = Some c"
  shows "\<exists>c'. calls t k = Some c' \<and> call_device c' = call_device c \<and> call_id c' = call_id c \<and>
    call_request c' = call_request c"
  using assms(1) by (cases rule: svc_execE) (use assms(2) in \<open>auto split: if_splits\<close>)

text \<open>The command of a call, as \<^verbatim>\<open>Send\<close> hands it to the connection server.\<close>

definition command_of :: "Service \<Rightarrow> nat \<Rightarrow> (AgentID \<times> ConnectionEnvelope) option" where
  "command_of s k = map_option (\<lambda>c. (call_device c, command_envelope (call_id c) (call_request c))) (calls s k)"

lemma command_of_kept: "svc_exec s e = Some t \<Longrightarrow> command_of s k = Some m \<Longrightarrow> command_of t k = Some m"
  by (auto simp: command_of_def dest: call_kept)

text \<open>
  The server's \<^verbatim>\<open>Send\<close> calls are those of the service; what it accepted was written to a stream
  of the device; what the service counts as delivered was accepted; what the service handled
  was received.
\<close>

fun send_msg :: "send_pc \<Rightarrow> AgentID \<times> ConnectionEnvelope" where
  "send_msg (SendLooked d env i) = (d, env)"
| "send_msg (SendReturned d env err) = (d, env)"

definition sends_linked :: "control_plane_state \<Rightarrow> bool" where
  "sends_linked s \<longleftrightarrow>
     (\<forall>k p. sends (cps_server s) k = Some p \<longrightarrow> command_of (cps_service s) k = Some (send_msg p))"

definition written_linked :: "Server \<Rightarrow> bool" where
  "written_linked s \<longleftrightarrow>
     (\<forall>k d env. sends s k = Some (SendReturned d env None) \<longrightarrow>
        (\<exists>i. conn_device (conn_of s i) = Some d \<and> env \<in> set (out s i)))"

definition delivered_linked :: "control_plane_state \<Rightarrow> bool" where
  "delivered_linked s \<longleftrightarrow>
     (\<forall>m \<in> set (delivered (cps_service s)). \<exists>k. sends (cps_server s) k = Some (SendReturned (fst m) (snd m) None))"

definition handled_linked :: "control_plane_state \<Rightarrow> bool" where
  "handled_linked s \<longleftrightarrow>
     (\<forall>i d env. cps_busy s i = Some (Handling d env) \<longrightarrow> (d, env) \<in> set (received (cps_server s))) \<and>
     (\<forall>d r. (d, r) \<in> set (handled (cps_service s)) \<longrightarrow>
        (\<exists>env. (d, env) \<in> set (received (cps_server s)) \<and> GetCommandResponse (Some env) = Some r))"

definition writing_linked :: "control_plane_state \<Rightarrow> bool" where
  "writing_linked s \<longleftrightarrow>
     (\<forall>i j. cps_busy s i = Some (Writing j) \<longrightarrow> (\<exists>k r. handlers (cps_service s) j = Some (HandlerPut k r))) \<and>
     (\<forall>i i' j. cps_busy s i = Some (Writing j) \<longrightarrow> cps_busy s i' = Some (Writing j) \<longrightarrow> i' = i) \<and>
     finite (dom (handlers (cps_service s)))"

lemma srv_sends_step:
  assumes "srv_exec verify s e = Some t" and "sends t k = Some p"
  shows "(\<exists>p'. sends s k = Some p' \<and> send_msg p' = send_msg p) \<or> (\<exists>d env. e = EvSend k d env \<and> send_msg p = (d, env))"
  using assms(1) by (cases rule: srv_execE) (use assms(2) in \<open>auto split: if_splits\<close>)

text \<open>
  The same steps seen from the parts: a step of the server or of the service, with what the
  other part has to do with it.
\<close>

lemma cp_partE:
  assumes "cp_exec verify s e = Some t"
  obtains
    (server) e' x b where "srv_exec verify (cps_server s) e' = Some x" "t = s\<lparr>cps_server := x, cps_busy := b\<rparr>"
      "\<And>k d env. e' = EvSend k d env \<Longrightarrow> command_of (cps_service s) k = Some (d, env)"
      "\<And>i d env. b i = Some (Handling d env) \<Longrightarrow>
         cps_busy s i = Some (Handling d env) \<or>
         (e = CpRecv i env \<and> e' = EvRecv i (Inr env) \<and> (\<exists>u sid. conns (cps_server s) i = Some (PcServing d u sid)))"
      "\<And>i j. b i = Some (Writing j) \<Longrightarrow> cps_busy s i = Some (Writing j)"
      "\<And>i env. e' = EvRecv i (Inr env) \<Longrightarrow> e = CpRecv i env"
  | (service) e' x b where "svc_exec (cps_service s) e' = Some x" "t = s\<lparr>cps_service := x, cps_busy := b\<rparr>"
      "\<And>k err. e' = SendDeliver k err \<Longrightarrow> \<exists>d env. sends (cps_server s) k = Some (SendReturned d env err)"
      "\<And>j d env. e' = HandleTake j d env \<Longrightarrow> \<exists>i m. cps_busy s i = Some (Handling d m) \<and> env = Some m"
      "\<And>i d env. b i = Some (Handling d env) \<Longrightarrow> cps_busy s i = Some (Handling d env)"
  using assms
proof (cases rule: cp_execE)
  case (connect e' i x)
  then show thesis by (intro server [of e' x "cps_busy s"]) (auto split: sum.splits)
next
  case (recv i env d u sid x)
  then show thesis
    by (intro server [of "EvRecv i (Inr env)" x "(cps_busy s)(i \<mapsto> Handling d env)"]) (auto split: if_splits)
next
  case (lookup k c x)
  then show thesis by (intro server [OF lookup(3), of "cps_busy s"]) (auto simp: command_of_def)
next
  case (written k err x)
  then show thesis by (intro server [of "EvSendStream k err" x "cps_busy s"]) auto
next
  case (take_msg i j d env x)
  then show thesis
    by (intro service [of "HandleTake j d (Some env)" x "(cps_busy s)(i := after_take j x)"])
       (auto simp: after_take_def split: if_splits option.splits handler_pc.splits)
next
  case (put_msg i j x)
  then show thesis
    by (intro service [of "HandlePut j" x "(cps_busy s)(i := None)"]) (auto split: if_splits)
next
  case (send k d r i x)
  then show thesis by (intro service [of "SendBegin k d r i" x "cps_busy s"]) auto
next
  case (sent k d env err x)
  then show thesis by (intro service [of "SendDeliver k err" x "cps_busy s"]) auto
next
  case (return e' x)
  then show thesis by (intro service [of e' x "cps_busy s"]) auto
qed

lemma sends_linked_step:
  assumes "cp_exec verify s e = Some t" and "sends_linked s"
  shows "sends_linked t"
  using assms(1)
proof (cases rule: cp_partE)
  case (server e' x b)
  have "command_of (cps_service s) k = Some (send_msg p)" if "sends x k = Some p" for k p
    using srv_sends_step [OF server(1) that]
  proof
    assume "\<exists>p'. sends (cps_server s) k = Some p' \<and> send_msg p' = send_msg p"
    with assms(2) show ?thesis by (auto simp: sends_linked_def)
  next
    assume "\<exists>d env. e' = EvSend k d env \<and> send_msg p = (d, env)"
    with server(3) show ?thesis by auto
  qed
  with server(2) show ?thesis by (simp add: sends_linked_def)
next
  case (service e' x b)
  with assms(2) command_of_kept [OF service(1)] show ?thesis by (simp add: sends_linked_def)
qed

lemma written_linked_step:
  assumes "srv_exec verify s e = Some t" and "written_linked s" and "send_inv s"
  shows "written_linked t"
  unfolding written_linked_def
proof (intro allI impI)
  fix k d env
  assume k: "sends t k = Some (SendReturned d env None)"
  have "\<exists>i. conn_device (conn_of s i) = Some d \<and> env \<in> set (out t i)"
  proof (cases "sends s k = Some (SendReturned d env None)")
    case True
    with assms(2) out_mono [OF assms(1)] show ?thesis by (fastforce simp: written_linked_def)
  next
    case False
    with assms(1) k obtain i where "sends s k = Some (SendLooked d env i)" "env \<in> set (out t i)"
      by (cases rule: srv_execE) (auto simp: set_out_handle_send split: if_splits)
    with assms(3) show ?thesis unfolding send_inv_def by blast
  qed
  with conn_device_stable [OF assms(1)] show "\<exists>i. conn_device (conn_of t i) = Some d \<and> env \<in> set (out t i)" by blast
qed

lemma delivered_step:
  assumes "svc_exec s e = Some t" and "m \<in> set (delivered t)"
  shows "m \<in> set (delivered s) \<or> (\<exists>k. e = SendDeliver k None \<and> command_of s k = Some m)"
  using assms(1) by (cases rule: svc_execE) (use assms(2) in \<open>auto simp: command_of_def\<close>)

lemma handled_step:
  assumes "svc_exec s e = Some t" and "(d, r) \<in> set (handled t)"
  shows "(d, r) \<in> set (handled s) \<or> (\<exists>j env. e = HandleTake j d env \<and> GetCommandResponse env = Some r)"
  using assms(1) by (cases rule: svc_execE) (use assms(2) in auto)

lemma delivered_linked_step:
  assumes "cp_exec verify s e = Some t" and "delivered_linked s" and "sends_linked s"
  shows "delivered_linked t"
  using assms(1)
proof (cases rule: cp_partE)
  case (server e' x b)
  with assms(2) SendReturned_stable [OF server(1)] show ?thesis by (fastforce simp: delivered_linked_def)
next
  case (service e' x b)
  have "\<exists>k. sends (cps_server s) k = Some (SendReturned (fst m) (snd m) None)"
    if "m \<in> set (delivered x)" for m
  proof (cases "m \<in> set (delivered (cps_service s))")
    case True
    with assms(2) show ?thesis by (simp add: delivered_linked_def)
  next
    case False
    with delivered_step [OF service(1) that] service(3) obtain k d env where
      "command_of (cps_service s) k = Some m" "sends (cps_server s) k = Some (SendReturned d env None)" by blast
    with assms(3) show ?thesis by (fastforce simp: sends_linked_def)
  qed
  with service(2) show ?thesis by (simp add: delivered_linked_def)
qed

lemma handled_linked_step:
  assumes "cp_exec verify s e = Some t" and "handled_linked s" and "srv_onMessage (cps_server s)"
  shows "handled_linked t"
  using assms(1)
proof (cases rule: cp_partE)
  case (server e' x b)
  have "(d, env) \<in> set (received x)" if "b i = Some (Handling d env)" for i d env
    using server(4) [OF that]
  proof
    assume "cps_busy s i = Some (Handling d env)"
    with assms(2) received_mono [OF server(1)] show ?thesis by (auto simp: handled_linked_def)
  next
    assume "e = CpRecv i env \<and> e' = EvRecv i (Inr env) \<and> (\<exists>u sid. conns (cps_server s) i = Some (PcServing d u sid))"
    with server(1) assms(3) show ?thesis by auto
  qed
  with assms(2) server(2) received_mono [OF server(1)] show ?thesis by (fastforce simp: handled_linked_def)
next
  case (service e' x b)
  have "\<exists>env. (d, env) \<in> set (received (cps_server s)) \<and> GetCommandResponse (Some env) = Some r"
    if "(d, r) \<in> set (handled x)" for d r
    using handled_step [OF service(1) that] service(4) assms(2) unfolding handled_linked_def by blast
  with assms(2) service(2,5) show ?thesis by (simp add: handled_linked_def) blast
qed

lemma handlers_step:
  assumes "svc_exec s e = Some t"
  shows "(\<exists>j h. handlers t = (handlers s)(j \<mapsto> h) \<and> (e = HandlePut j \<or> (\<exists>d env. e = HandleTake j d env))) \<or>
    handlers t = handlers s \<and> (\<forall>j. e \<noteq> HandlePut j) \<and> (\<forall>j d env. e \<noteq> HandleTake j d env)"
  using assms by (cases rule: svc_execE) (simp_all, blast+)

lemma writing_linked_step:
  assumes "cp_exec verify s e = Some t" and inv: "writing_linked s"
  shows "writing_linked t"
  using assms(1)
proof (cases rule: cp_execE)
  case (take_msg i j d env x)
  from take_msg(3) have "handlers (cps_service s) j = None" by (auto split: option.splits)
  with inv have unused: "cps_busy s i' \<noteq> Some (Writing j)" for i' by (fastforce simp: writing_linked_def)
  from handlers_step [OF take_msg(3)] obtain h where h: "handlers x = (handlers (cps_service s))(j \<mapsto> h)" by blast
  with inv unused take_msg(4) show ?thesis
    by (auto simp: writing_linked_def after_take_def split: if_splits handler_pc.splits)
next
  case (put_msg i j x)
  from handlers_step [OF put_msg(3)] obtain h where h: "handlers x = (handlers (cps_service s))(j \<mapsto> h)" by blast
  from inv put_msg(2) have "j' \<noteq> j" if "cps_busy s i' = Some (Writing j')" "i' \<noteq> i" for i' j'
    using that unfolding writing_linked_def by blast
  with inv h put_msg(4) show ?thesis by (auto simp: writing_linked_def)
next
  case (return e' x)
  with handlers_step [OF return(3)] have "handlers x = handlers (cps_service s)" by auto
  with return inv show ?thesis by (simp add: writing_linked_def)
next
  case (sent k d env err x)
  with handlers_step [OF sent(3)] inv show ?thesis by (simp add: writing_linked_def)
next
  case (send k d r i x)
  with handlers_step [OF send(2)] inv show ?thesis by (simp add: writing_linked_def)
next
  case (recv i env d u sid x)
  with inv show ?thesis by (auto simp: writing_linked_def split: if_splits)
qed (use inv in \<open>simp_all add: writing_linked_def\<close>)

definition cp_inv :: "(Time \<Rightarrow> verifier) \<Rightarrow> control_plane_state \<Rightarrow> bool" where
  "cp_inv verify s \<longleftrightarrow>
     srv_inv verify (cps_server s) \<and> srv_onMessage (cps_server s) \<and> written_linked (cps_server s) \<and>
     svc_inv (cps_service s) \<and> live_inv (cps_service s) \<and>
     sends_linked s \<and> delivered_linked s \<and> handled_linked s \<and> writing_linked s"

lemma onMessage_kept: "srv_exec verify s e = Some t \<Longrightarrow> srv_onMessage t = srv_onMessage s"
  by (erule srv_execE) auto

lemma cp_inv_step:
  assumes inv: "cp_inv verify s" and step: "cp_step verify s e t"
  shows "cp_inv verify t"
proof -
  from step have x: "cp_exec verify s e = Some t" by (simp add: cp_step_def)
  from inv have "sends_linked t" "delivered_linked t" "handled_linked t" "writing_linked t"
    unfolding cp_inv_def
    by (blast intro: sends_linked_step [OF x] delivered_linked_step [OF x] handled_linked_step [OF x]
        writing_linked_step [OF x])+
  moreover have "srv_inv verify (cps_server t) \<and> srv_onMessage (cps_server t) \<and> written_linked (cps_server t)"
    using cp_part_steps(1) [OF step]
  proof
    assume "\<exists>l. srv_step verify (cps_server s) l (cps_server t)"
    then obtain l where l: "srv_step verify (cps_server s) l (cps_server t)" ..
    then have "srv_exec verify (cps_server s) l = Some (cps_server t)" by (simp add: srv_step_def)
    from onMessage_kept [OF this] written_linked_step [OF this] srv.inv_step [OF _ l] inv show ?thesis
      by (simp add: cp_inv_def srv_inv_def)
  qed (use inv in \<open>simp add: cp_inv_def\<close>)
  moreover have "svc_inv (cps_service t) \<and> live_inv (cps_service t)"
    using cp_part_steps(2) [OF step] svc.inv_step [of "cps_service s"] inv unfolding cp_inv_def by metis
  ultimately show ?thesis by (simp add: cp_inv_def)
qed

lemma cp_inv_init: "cp_inv verify cp_init"
  using srv.inv_init [of verify True] svc.inv_init
  by (simp add: cp_inv_def cp_init_def written_linked_def sends_linked_def delivered_linked_def handled_linked_def
      writing_linked_def NewService_def)

interpretation cp: inductive_invariant "cp_step verify" cp_init "cp_inv verify" for verify
  by unfold_locales (rule cp_inv_init, rule cp_inv_step)

section \<open>Who answers\<close>

text \<open>
  A device that only answers what it was asked: a result that arrives on a stream carries the
  identifier of a command written to this stream before. The agent's client does no more:
  it answers the commands it receives, under their identifiers.
\<close>

definition knows_command :: "Server \<Rightarrow> nat \<Rightarrow> string \<Rightarrow> bool" where
  "knows_command s i cid \<longleftrightarrow>
     (\<exists>m cmd. m \<in> set (out s i) \<and> GetCommandRequest (Some m) = Some cmd \<and> cmd_Id cmd = cid)"

definition answers_known :: "control_plane_state \<Rightarrow> cp_event \<Rightarrow> bool" where
  "answers_known s e \<longleftrightarrow>
     (\<forall>i env r. e = CpRecv i env \<longrightarrow> GetCommandResponse (Some env) = Some r \<longrightarrow>
        knows_command (cps_server s) i (res_CommandId r))"

definition cp_step_known :: "(Time \<Rightarrow> verifier) \<Rightarrow> control_plane_state \<Rightarrow> cp_event \<Rightarrow> control_plane_state \<Rightarrow> bool" where
  "cp_step_known verify s e t \<longleftrightarrow> cp_step verify s e t \<and> answers_known s e"

definition known_inv :: "control_plane_state \<Rightarrow> bool" where
  "known_inv s \<longleftrightarrow>
     (\<forall>d env r. (d, env) \<in> set (received (cps_server s)) \<longrightarrow> GetCommandResponse (Some env) = Some r \<longrightarrow>
        (\<exists>i. conn_device (conn_of (cps_server s) i) = Some d \<and> knows_command (cps_server s) i (res_CommandId r)))"

lemma knows_command_kept: "srv_exec verify s e = Some t \<Longrightarrow> knows_command s i cid \<Longrightarrow> knows_command t i cid"
  unfolding knows_command_def using out_mono by metis

lemma received_from:
  assumes "srv_exec verify s e = Some t" and "(d, env) \<in> set (received t)"
  shows "(d, env) \<in> set (received s) \<or> (\<exists>i. e = EvRecv i (Inr env) \<and> conn_device (conn_of s i) = Some d)"
  using assms(1)
proof (cases rule: srv_execE)
  case (recv_msg i env' d' u sid)
  with assms(2) show ?thesis by (auto dest: conn_of_Some split: if_splits)
qed (use assms(2) in \<open>auto split: if_splits\<close>)

lemma known_inv_step:
  assumes "cp_step_known verify s e t" and "known_inv s"
  shows "known_inv t"
proof -
  from assms(1) have x: "cp_exec verify s e = Some t" and known: "answers_known s e"
    by (simp_all add: cp_step_known_def cp_step_def)
  from x show ?thesis
  proof (cases rule: cp_partE)
    case (server e' y b)
    have "\<exists>i. conn_device (conn_of (cps_server s) i) = Some d \<and> knows_command (cps_server s) i (res_CommandId r)"
      if "(d, env) \<in> set (received y)" "GetCommandResponse (Some env) = Some r" for d env r
      using received_from [OF server(1) that(1)]
    proof
      assume "(d, env) \<in> set (received (cps_server s))"
      with assms(2) that(2) show ?thesis by (simp add: known_inv_def)
    next
      assume "\<exists>i. e' = EvRecv i (Inr env) \<and> conn_device (conn_of (cps_server s) i) = Some d"
      with server(6) known that(2) show ?thesis unfolding answers_known_def by blast
    qed
    with server(2) conn_device_stable [OF server(1)] knows_command_kept [OF server(1)] show ?thesis
      by (simp add: known_inv_def) blast
  next
    case (service e' y b)
    with assms(2) show ?thesis by (simp add: known_inv_def)
  qed
qed

interpretation known: inductive_invariant "cp_step_known verify" cp_init "\<lambda>s. cp_inv verify s \<and> known_inv s" for verify
proof unfold_locales
  show "cp_inv verify cp_init \<and> known_inv cp_init"
    by (simp add: cp_inv_init) (simp add: known_inv_def cp_init_def)
next
  fix s e t
  assume "cp_inv verify s \<and> known_inv s" and "cp_step_known verify s e t"
  then show "cp_inv verify t \<and> known_inv t"
    using known_inv_step cp_inv_step unfolding cp_step_known_def [of verify s e t] by (metis cp_step_known_def)
qed

text \<open>Every handled result with a call's identifier came from the device the call was for.\<close>

lemma handled_from_addressee:
  assumes inv: "cp_inv verify s" and known: "known_inv s"
    and "(d, r) \<in> set (handled (cps_service s))" and c: "calls (cps_service s) k = Some c"
    and rid: "res_CommandId r = call_id c"
  shows "d = call_device c"
proof -
  from inv assms(3) obtain env where "(d, env) \<in> set (received (cps_server s))" "GetCommandResponse (Some env) = Some r"
    unfolding cp_inv_def handled_linked_def by blast
  with known obtain i where i: "conn_device (conn_of (cps_server s) i) = Some d"
      and "knows_command (cps_server s) i (res_CommandId r)" unfolding known_inv_def by blast
  then obtain m cmd where m: "m \<in> set (out (cps_server s) i)" "GetCommandRequest (Some m) = Some cmd"
      and cid: "cmd_Id cmd = call_id c" using rid by (auto simp: knows_command_def)
  from m(2) have "\<not> is_auth_response m"
    by (simp add: is_auth_response_def GetCommandRequest_SomeD)
  with inv m(1) i obtain k' where "sends (cps_server s) k' = Some (SendReturned d m None)"
    unfolding cp_inv_def srv_inv_def send_inv_def by fastforce
  with inv have "command_of (cps_service s) k' = Some (d, m)" by (fastforce simp: cp_inv_def sends_linked_def)
  then obtain c' where c': "calls (cps_service s) k' = Some c'" "call_device c' = d"
      "m = command_envelope (call_id c') (call_request c')" by (auto simp: command_of_def)
  with m(2) cid have "call_id c' = call_id c" by (auto simp: command_envelope_def)
  with inv c c'(1) have "k' = k" unfolding cp_inv_def svc_inv_def ids_inv_def by blast
  with c c' show ?thesis by simp
qed


text \<open>
  \<^bold>\<open>C12.\<close> A device's read loop is never held up by the Command Bus: in every reachable state, with
  devices sending anything at any time and callers giving up whenever they like, a stream whose
  message is being handled can go on at once, and after at most two steps of its own it is back
  at reading.
\<close>

theorem read_loop_never_blocked:
  assumes "reachable (cp_step verify) cp_init s" and "cps_busy s i \<noteq> None"
  shows "\<exists>es t. run (cp_step verify) s es t \<and> length es \<le> 2 \<and> set es \<subseteq> {CpTake i j | j. True} \<union> {CpPut i} \<and>
    cps_busy t i = None \<and> cps_server t = cps_server s"
proof -
  have put: "\<exists>t. cp_step verify s (CpPut i) t \<and> cps_busy t i = None \<and> cps_server t = cps_server s"
    if r: "reachable (cp_step verify) cp_init s" and b: "cps_busy s i = Some (Writing j)" for s j
  proof -
    from cp.reachable_inv [OF r] b obtain k x where h: "handlers (cps_service s) j = Some (HandlerPut k x)"
      unfolding cp_inv_def writing_linked_def by blast
    moreover from this cp.reachable_inv [OF r] have "chan (cps_service s) k = []"
      unfolding cp_inv_def svc_inv_def taken_inv_def by blast
    ultimately show ?thesis using b by (simp add: cp_step_def cp_fresh_def on_service_def)
  qed
  show ?thesis
  proof (cases "cps_busy s i")
    case (Some b)
    then show ?thesis
    proof (cases b)
      case (Writing j)
      with put [OF assms(1)] Some obtain t where "cp_step verify s (CpPut i) t" "cps_busy t i = None"
        "cps_server t = cps_server s" by blast
      then show ?thesis by (intro exI [of _ "[CpPut i]"] exI [of _ t]) (auto simp: run_Cons_iff)
    next
      case (Handling d env)
      from cp.reachable_inv [OF assms(1)] have "finite (dom (handlers (cps_service s)))"
        by (simp add: cp_inv_def writing_linked_def)
      then obtain j where "j \<notin> dom (handlers (cps_service s))" using ex_new_if_finite infinite_UNIV_nat by blast
      then have j: "handlers (cps_service s) j = None" by auto
      let ?x = "HandleResult j d (Some env) (cps_service s)"
      let ?t = "set_busy i (after_take j ?x) (s\<lparr>cps_service := ?x\<rparr>)"
      have take: "cp_step verify s (CpTake i j) ?t"
        using Some Handling j by (simp add: cp_step_def cp_fresh_def)
      show ?thesis
      proof (cases "after_take j ?x")
        case None
        with take show ?thesis by (intro exI [of _ "[CpTake i j]"] exI [of _ ?t]) (auto simp: run_Cons_iff)
      next
        case (Some w)
        then have "cps_busy ?t i = Some (Writing j)"
          by (auto simp: after_take_def split: option.splits handler_pc.splits)
        from put [OF reachable_step [OF assms(1) take] this] obtain u where
          "cp_step verify ?t (CpPut i) u" "cps_busy u i = None" "cps_server u = cps_server s" by auto
        with take show ?thesis
          by (intro exI [of _ "[CpTake i j, CpPut i]"] exI [of _ u]) (auto simp: run_Cons_iff)
      qed
    qed
  qed (use assms(2) in simp)
qed

text \<open>
  \<^bold>\<open>C13.\<close> Without that restraint any device may answer: the device a result comes from is not
  compared with the device the command was sent to, so for two connected devices, whoever
  their owners are, there is a run in which a command is written to the first one's stream only
  and the \<^verbatim>\<open>Send\<close> call returns, as its response, what the second one sent under the command's
  identifier.
\<close>

theorem any_device_may_answer:
  assumes "verify now tok = Inr (d, u)" and "verify now tok' = Inr (d', u')" and "d \<noteq> ''''" and "d' \<noteq> ''''" and "d \<noteq> d'"
    and "res_CommandId r = i"
  shows "\<exists>es s. run (cp_step verify) cp_init es s \<and>
    calls (cps_service s) 0 = Some \<lparr>call_device = d, call_request = req, call_id = i, call_state = Returned (Inr (response_of r))\<rparr> \<and>
    conn_of (cps_server s) 0 = PcServing d u sid \<and> conn_of (cps_server s) 1 = PcServing d' u' sid' \<and>
    out (cps_server s) 0 = [authSuccess sid, command_envelope i req] \<and> out (cps_server s) 1 = [authSuccess sid'] \<and>
    received (cps_server s) = [(d', envelope (Payload_CommandResponse (Some r)))]"
proof -
  let ?es = "map CpConnect (connect_events 0 now d tok sid) @ map CpConnect (connect_events 1 now d' tok' sid') @
    [CpSend 0 d req i, CpLookup 0, CpWrite 0 None, CpSent 0, CpRecv 1 (envelope (Payload_CommandResponse (Some r))),
     CpTake 1 0, CpPut 1, CpReturn (SendReceive 0)]"
  have "\<exists>s. run (cp_step verify) cp_init ?es s \<and>
      calls (cps_service s) 0 = Some \<lparr>call_device = d, call_request = req, call_id = i, call_state = Returned (Inr (response_of r))\<rparr> \<and>
      conn_of (cps_server s) 0 = PcServing d u sid \<and> conn_of (cps_server s) 1 = PcServing d' u' sid' \<and>
      out (cps_server s) 0 = [authSuccess sid, command_envelope i req] \<and> out (cps_server s) 1 = [authSuccess sid'] \<and>
      received (cps_server s) = [(d', envelope (Payload_CommandResponse (Some r)))]"
    using assms
    by (simp add: run_Cons_iff cp_step_def cp_fresh_def fresh_id_def cp_init_def srv_run_defs NewService_def on_server_def
        on_service_def HandleResult_def Let_def after_take_def CommandResult_GetCommandId_def)
  then show ?thesis by blast
qed

section \<open>A concrete control plane\<close>

definition demo_cp_start :: "cp_event list" where
  "demo_cp_start = map CpConnect (connect_events 0 5 ''dev'' ''tok'' ''sess'') @
     [CpSend 0 ''dev'' demo_request ''id1'', CpLookup 0, CpWrite 0 None, CpSent 0,
      CpRecv 0 (envelope (Payload_CommandResponse (Some demo_result)))]"

definition demo_cp_end :: "cp_event list" where
  "demo_cp_end = [CpTake 0 0, CpPut 0, CpReturn (SendReceive 0)]"

lemmas cp_run_defs = run_Cons_iff cp_step_def cp_fresh_def fresh_id_def cp_init_def srv_run_defs NewService_def on_server_def
  on_service_def HandleResult_def Let_def after_take_def CommandResult_GetCommandId_def


theorem read_loop_never_blocked_witness:
  "\<exists>s es t. run (cp_step demo_verify) cp_init demo_cp_start s \<and> cps_busy s 0 \<noteq> None \<and>
    run (cp_step demo_verify) s es t \<and> length es \<le> 2 \<and> cps_busy t 0 = None"
proof -
  obtain s where s: "run (cp_step demo_verify) cp_init demo_cp_start s" and b: "cps_busy s 0 \<noteq> None"
    by (simp add: demo_cp_start_def cp_run_defs demo_verify_ok)
  from read_loop_never_blocked [OF reachableI [OF s] b] s b show ?thesis by blast
qed

definition demo_verify_two :: "Time \<Rightarrow> verifier" where
  "demo_verify_two now tok =
     (if tok = ''tok'' then Inr (''dev'', ''user'') else if tok = ''tok2'' then Inr (''other'', ''eve'')
      else Inl (anon ''bad token''))"

theorem any_device_may_answer_witness:
  "\<exists>es s. run (cp_step demo_verify_two) cp_init es s \<and>
    calls (cps_service s) 0 = Some \<lparr>call_device = ''dev'', call_request = demo_request, call_id = ''id1'',
      call_state = Returned (Inr (response_of demo_result))\<rparr> \<and>
    received (cps_server s) = [(''other'', envelope (Payload_CommandResponse (Some demo_result)))]"
  using any_device_may_answer [of demo_verify_two 0 "''tok''" "''dev''" "''user''" "''tok2''" "''other''" "''eve''"
      demo_result "''id1''" demo_request "''a''" "''b''"]
  by (simp add: demo_verify_two_def demo_result_def) blast

end
