(* ===== verification/Spec2Isabelle.thy ===== *)
theory Spec2Isabelle
  imports Applications Server_Main Commands Commandbus_Spec Agent_Process Agent_Containers Control_Plane
begin

text \<open>
  A verification of deployOS, a control plane and a node agent that manage containers on many
  machines. Go values are HOL values, errors are values of a sum type, and every concurrent
  part is a step system whose runs are all interleavings.

  \<^bold>\<open>The program.\<close> The control plane (\<^verbatim>\<open>cmd/server\<close>) serves an HTTP interface for operators and a
  gRPC service to which agents connect. An agent (\<^verbatim>\<open>cmd/agent\<close>) registers its machine over HTTP,
  receives a device token, stores it, and keeps a stream open on which the control plane sends
  it commands. The CLI (\<^verbatim>\<open>cmd/cli\<close>) only prints. A command takes this way: the HTTP handler
  checks that the caller owns the device and calls \<^verbatim>\<open>Service.Send\<close>; this registers a channel
  under a fresh identifier and hands an envelope to the connection server, which writes it to
  the device's stream; the agent's client gives it to the dispatcher, which runs an executor;
  the answer comes back on the stream, and \<^verbatim>\<open>HandleResult\<close> puts it into the channel.

  \<^bold>\<open>The theories, in the order of their imports.\<close>

  \<^item> \<open>Prelude\<close>: errors and their wrapping, 64-bit wrap-around, finite maps, runs of a step
    relation, and the locales \<open>registry\<close> (put and get), \<open>inductive_invariant\<close>, \<open>simulation\<close> and
    \<open>projection\<close> (a part of a composed system) that several components interpret. \<open>Go_Text\<close>,
    \<open>Go_Path\<close>, \<open>Go_UTF8\<close>, \<open>Go_JSON\<close>, \<open>Go_Time\<close>: the functions of Go's standard library the
    program uses on strings, paths, UTF-8, JSON text and times.
  \<^item> \<open>Json_Codec\<close>: how \<^verbatim>\<open>encoding/json\<close> fills Go variables from a parsed value and prints them, and
    the locale \<open>json_codec\<close> of a type whose encoding is read back.
  \<^item> \<open>Contracts\<close> (\<^verbatim>\<open>pkg/types\<close>, \<^verbatim>\<open>pkg/protocol\<close>, \<^verbatim>\<open>pkg/api\<close>) and \<open>Proto\<close> (the messages of
    \<^verbatim>\<open>gen/go/deployos/v1\<close>): the data the parts exchange. \<open>Wire_Bodies\<close>: the HTTP bodies as JSON text
    along their field tags, with an interpretation of \<open>json_codec\<close> for each of them.
  \<^item> \<open>Applications\<close> (\<^verbatim>\<open>internal/applications\<close>): the Application resource, its validation and its
    life cycle; what runs of \<^verbatim>\<open>TransitionTo\<close> can and must pass through.
  \<^item> \<open>Auth\<close>, \<open>Devices\<close>, \<open>Device_Tokens\<close>, \<open>Device_Handler\<close> (\<^verbatim>\<open>internal/auth\<close>, \<^verbatim>\<open>internal/devices\<close>):
    authentication of operators, the devices table with its SQL statements, device tokens and
    the two HTTP endpoints; ownership of a device never changes hands.
  \<^item> \<open>Connection_Manager\<close>, \<open>Connection_Server\<close>, \<open>Connection_Client\<close> (\<^verbatim>\<open>internal/connection\<close>): the
    registry of connected devices, \<^verbatim>\<open>Connect\<close> and \<^verbatim>\<open>Send\<close> over any number of streams, one
    connection attempt and the reconnect loop with its back-off.
  \<^item> \<open>Commandbus_Dispatcher\<close>, \<open>Commandbus_Service\<close>, \<open>Commandbus_Spec\<close>, \<open>Commandbus_Handler\<close>
    (\<^verbatim>\<open>internal/commandbus\<close>): the agent's dispatcher, the control plane's service with its
    pending map and channels, an abstract machine the service refines, the HTTP endpoint.
  \<^item> \<open>Control_Plane\<close>: the connection server and the Command Bus as \<^verbatim>\<open>cmd/server\<close> wires them, one
    step system whose parts are runs of \<open>srv_exec\<close> and \<open>svc_exec\<close>.
  \<^item> \<open>Containers_Docker\<close> (\<^verbatim>\<open>internal/containers\<close>), \<open>Agent_Identity\<close>, \<open>Agent\<close>, \<open>Agent_Process\<close>
    (\<^verbatim>\<open>internal/agent\<close>): the Docker runtime, the files that hold identity and token, start-up,
    registration and executors, and the running agent. \<open>Agent_Containers\<close>: what the agent answers
    about its containers, for the values a Docker daemon can report.
  \<^item> \<open>Monitoring\<close>, \<open>Logging\<close>, \<open>Config\<close>: health checks, the request middleware, the layered
    configuration.
  \<^item> \<open>Tasks\<close>, \<open>Runtime_Servers\<close> (\<^verbatim>\<open>internal/runtime\<close>), \<open>Serve_Mux\<close>, \<open>Server_Main\<close> (\<^verbatim>\<open>cmd/server\<close>),
    \<open>Commands\<close> (\<^verbatim>\<open>cmd/agent\<close>, \<^verbatim>\<open>cmd/cli\<close>): the contract \<open>task\<close> of a process that stops when its
    context is cancelled and the \<open>group\<close> of two such tasks, the life cycles of the HTTP and the
    gRPC server, routing, and the binaries.
  \<^item> this theory: properties of the control plane and the agent together.

  \<^bold>\<open>How state and concurrency are modelled.\<close> A struct is a record, a method a function of it. A
  method that holds a mutex for its whole body is one step. The connection server
  (\<open>srv_exec\<close>), the command service (\<open>svc_exec\<close>), the two server life cycles (\<open>http_exec\<close>,
  \<open>grpc_exec\<close>) and the agent's reconnect loop (\<open>client_exec\<close>) are step functions with one
  program counter per goroutine; the labels of the steps carry what the network, the clock and
  the libraries answer, so that a theorem about all runs holds for all of their behaviour.
  Invariants are proved by induction over runs, through the locales of \<open>Prelude\<close> and \<open>Tasks\<close>.

  \<^bold>\<open>What the theorems show.\<close> For the whole: what an HTTP request may change (C1), that a
  registered agent connects, over the text on the wire (C3), that an operator's command is carried
  from the text of its request to the agent and back to the text of its answer (C7), from the
  device it was sent to (C6), that the two sides of every HTTP body agree (C8), that whatever bytes arrive only well-typed rows are
  stored (C10), and how the processes end (C14 for the control plane, C15 for the agent). For
  the Command Bus: refinement (C2), correlation (C5), no leaks (C11), read loops that are never
  held up (C12); a result is accepted from any device that knows a command's identifier (C13).
  For connections: messages reach only their addressee (C4), what the manager reports, and two
  races in which it is wrong or a connection is lost (C18, C19). For devices: owners are never
  replaced (C9), the endpoints' answers on every branch, tokens verify exactly until they
  expire. For applications: validity is kept and \<^verbatim>\<open>running\<close> is reached only by a full
  deployment. For the agent: identity, commands (what is told about containers, from the
  Docker daemon's bytes to the answer's), back-off, start-up, health. For the binaries:
  precedence of the configuration, required settings, routes.

  \<^bold>\<open>Code outside the repository\<close> is an argument of the definitions that use it. What is relied
  on is a named hypothesis: \<open>jwt_ok\<close> (golang-jwt verifies what it signed, until it expires),
  \<open>compact\<close> (a signed token is text without outer white space), \<open>fresh_id\<close> (\<^verbatim>\<open>uuid.NewString\<close>
  never repeats an identifier), \<open>uuid_ok\<close> (Postgres prints no UUID as the empty text),
  \<open>viper_ok\<close> and \<open>godotenv_ok\<close> (the precedence they document), \<open>errgroup_ok\<close> (the first
  error cancels the group and is what \<^verbatim>\<open>Wait\<close> returns), \<open>rounding\<close> (floating-point results are
  off by at most half a unit in the last place). Postgres, Supabase, the Docker daemon, the
  file system and the gRPC transport answer arbitrarily through arguments or labels; where a
  property needs that one of them did not fail, it says so.

  \<^bold>\<open>Termination and bounds.\<close> All functions are total. Three functions carry a step counter, the loop of
  \<^verbatim>\<open>time.ParseDuration\<close> in \<open>Config\<close>, the trimming of white space in \<open>Prelude\<close> and the items of a
  bracket in \<open>Go_JSON\<close>; each gets the length of its text, since every round consumes a character
  (lemmas \<open>strip_fuel_enough\<close> and \<open>parse_list_fuel\<close>). JSON values nest at most 10000 deep, the
  limit of Go's scanner. That the processes stop is proved with ranks: once its context is
  cancelled, the control plane takes at most seventeen steps and the agent at most eleven, a
  step being a library call that returns or a move between two of them.

  \<^bold>\<open>Not modelled.\<close> The text of log lines and of decoding errors (their presence is modelled),
  the table of unprintable runes beyond Latin-1 that \<^verbatim>\<open>%q\<close> consults in two error texts, the
  HTTP headers other than \<^verbatim>\<open>Authorization\<close>, the reflection and gRPC glue that \<^verbatim>\<open>protoc\<close> generates, the interfaces without implementation
  (\<^verbatim>\<open>internal/applications/interfaces.go\<close>, \<^verbatim>\<open>internal/scheduler\<close>), the packages that consist
  of a comment (\<^verbatim>\<open>internal/secrets\<close>, \<^verbatim>\<open>internal/discovery\<close>), the SQL migrations and the web
  front end under \<^verbatim>\<open>apps\<close>. Durations of calls are not modelled beyond their order: a timeout is
  a label that may occur.
\<close>

section \<open>The control plane as the agent sees it\<close>

text \<open>
  The control plane behind the agent's HTTP client: the call becomes a request to the server's
  routes, and what the handler answers is read from the text of its body. \<open>zone\<close> is the offset
  of the control plane's location. An empty body is reported as \<^verbatim>\<open>EOF\<close>.
\<close>

definition register_http :: "register_call \<Rightarrow> server_request" where
  "register_http call =
     \<lparr>sreq_Method = ''POST'', sreq_Path = ''/api/v1/devices/register'', sreq_Authorization = rq_Authorization call,
      sreq_Body = rq_Body call\<rparr>"

fun register_reply_of :: "(Time \<Rightarrow> int) \<Rightarrow> reply \<Rightarrow> register_reply" where
  "register_reply_of zone (Answer resp) =
     \<lparr>rp_StatusCode = http_status resp, rp_Body = response_text zone resp, rp_DecodeError = anon ''EOF''\<rparr>"
| "register_reply_of zone (PlainStatus n) = \<lparr>rp_StatusCode = n, rp_Body = '''', rp_DecodeError = anon ''EOF''\<rparr>"
| "register_reply_of zone (RedirectTo p) = \<lparr>rp_StatusCode = 301, rp_Body = '''', rp_DecodeError = anon ''EOF''\<rparr>"

definition control_plane ::
  "(Time \<Rightarrow> int) \<Rightarrow> 'w handlers \<Rightarrow> table \<times> 'w \<Rightarrow> register_call \<Rightarrow> error + register_reply" where
  "control_plane zone hs st call = Inr (register_reply_of zone (fst (server_serve hs st (register_http call))))"

lemma control_plane_endpoint:
  "control_plane zone (wired_handlers parts newReq do uuidParse p ks lib now m send ping version) (tab, w)
     (register_request_of rg token req) =
   Inr (register_reply_of zone (Answer (fst (register_endpoint (Authenticate newReq do (cp_authenticator parts)) uuidParse p
     lib now (cp_tokenIssuer parts) tab \<lparr>hreq_Authorization = ''Bearer '' @ token, hreq_PathValue = (\<lambda>_. '''')\<rparr>
     (json_text (encode_register_request req))))))"
  by (simp add: control_plane_def register_http_def register_request_of_def server_serve_def register_route
      handler_request_def path_value_def [abs_def] wired_handlers_eq Let_def split: prod.split)

text \<open>A token string as the library makes it: not empty, without outer white space, and text.\<close>

definition compact :: "jwt \<Rightarrow> bool" where
  "compact lib \<longleftrightarrow> (\<forall>key c tok. jwt_SignedString lib key c = Inr tok \<longrightarrow> tok \<noteq> '''' \<and> untrimmed tok \<and> valid_utf8 tok)"

lemma registered_token_loaded:
  assumes "registrar_register newRequest do (newRegistrar (cfg_APIBaseURL cfg)) (cfg_UserAccessToken cfg)
      (register_request_for v d info) = Inr rb"
    and "resp_Token rb \<noteq> ''''" and "untrimmed (resp_Token rb)"
    and "io_mkdir io = None" and "io_write io = None" and "io_read io' = None"
  shows "loadToken io' (registerWithControlPlane newRequest do io v cfg files d info) cfg = Inr (resp_Token rb)"
proof -
  have "persistDeviceToken io files (cfg_DataDir cfg) (resp_Token rb) =
      (None, fmupd (cfg_DataDir cfg, deviceTokenFileName) (resp_Token rb) files)"
    using assms(4,5) by (simp add: persistDeviceToken_def writeFile_def)
  with assms(1) have "registerWithControlPlane newRequest do io v cfg files d info =
      fmupd (cfg_DataDir cfg, deviceTokenFileName) (resp_Token rb) files"
    by (simp add: registerWithControlPlane_def)
  moreover have "loadDeviceToken io' (fmupd (cfg_DataDir cfg, deviceTokenFileName) (resp_Token rb) files)
      (cfg_DataDir cfg) = Inr (Some (resp_Token rb))"
    using assms(2,3,6) by (intro token_persistence [OF \<open>persistDeviceToken io files _ _ = _\<close>])
  ultimately show ?thesis by (simp add: loadToken_def)
qed

lemma authenticate_own_request:
  assumes "verify tok = Inr (di_ID dev, u)" and "di_ID dev \<noteq> ''''"
  shows "authenticate verify (Inr (authenticate_request dev tok)) = ([], Inr (di_ID dev, u))"
  using assms by (simp add: authenticate_def authenticate_request_def getter_defs)

lemma register_endpoint_token_signed:
  assumes "table_inv tab" and "register_endpoint authn uuidParse p lib now j tab r body = (resp, tab')"
    and "http_status resp = 201" and "http_body resp = RegisterBody rb"
  shows "(\<exists>c. jwt_SignedString lib (jti_secret j) c = Inr (resp_Token rb)) \<and>
    resp_ExpiresAt rb = now + jti_ttl j"
proof -
  from Handler_Register_201 [OF assms(2)[unfolded register_endpoint_def] assms(3)] obtain user :: User and req :: DeviceRegisterRequest and result :: RegisterResult where
    reg: "Register uuidParse (Upsert p) (Issue lib now j) tab (usr_ID user) (input_of_request req) = (Inr result, tab')"
    and "http_body resp = RegisterBody \<lparr>resp_DeviceID = dev_ID (rr_Device result),
        resp_Token = rr_Token result, resp_ExpiresAt = rr_ExpiresAt result\<rparr>" by auto
  with assms(4) have "resp_Token rb = rr_Token result" "resp_ExpiresAt rb = rr_ExpiresAt result" by auto
  moreover from postgres.Register_stored [OF assms(1) reg]
  have "Issue lib now j (rr_Device result) = Inr (rr_Token result, rr_ExpiresAt result)" by blast
  ultimately show ?thesis by (auto simp: Issue_def Let_def split: sum.splits)
qed

section \<open>Properties across components\<close>

text \<open>
  \<^bold>\<open>C3.\<close> From registration to connection, over the text on the wire: when an agent whose device
  identifier is canonical and text posts its registration to the control plane's routes, the
  answer is 201 and its expiry can be written, and the disk works, then the token the agent
  reads from the answer, stores and loads lets it authenticate its stream: until less than a
  second before the token's lifetime is over, the connection server accepts the agent's
  authentication request as this device, owned by the user whose access token the agent was
  configured with. What else the request says, a host name that is no text included, does not
  matter.
\<close>

theorem registered_agent_connects:
  fixes parts newReq do uuidParse p ks lib now m send ping version zone tab w
  defines "cp \<equiv> control_plane zone (wired_handlers parts newReq do uuidParse p ks lib now m send ping version) (tab, w)"
  assumes "jwt_ok lib" and "compact lib" and "table_inv tab" and "uuid_ok p"
    and "pg_uuid p (di_ID dev) = Some (di_ID dev)" and "valid_utf8 (di_ID dev)" and "int64 (si_CPUCores info)"
    and "newRequest (rgr_baseURL (newRegistrar (cfg_APIBaseURL cfg)) @ ''/api/v1/devices/register'') = None"
    and "cp (register_request_of (newRegistrar (cfg_APIBaseURL cfg)) (cfg_UserAccessToken cfg)
        (register_request_for v (di_ID dev) info)) = Inr reply"
    and "rp_StatusCode reply = 201"
    and "encode_time zone (now + jti_ttl (cp_tokenIssuer parts)) \<noteq> None"
    and "io_mkdir io = None" and "io_write io = None" and "io_read io' = None"
  shows "\<exists>tok user exp.
    loadToken io' (registerWithControlPlane newRequest cp io v cfg files (di_ID dev) info) cfg = Inr tok \<and>
    (\<exists>t. BearerToken \<lparr>hreq_Authorization = ''Bearer '' @ cfg_UserAccessToken cfg, hreq_PathValue = (\<lambda>_. '''')\<rparr> = Some t \<and>
      Authenticate newReq do (cp_authenticator parts) t = Inr user) \<and>
    now + jti_ttl (cp_tokenIssuer parts) - second < exp \<and>
    (\<forall>t < exp. authenticate (Verify lib (cp_tokenIssuer parts) t) (Inr (authenticate_request dev tok)) =
       ([], Inr (di_ID dev, pg_canon p (usr_ID user))))"
proof -
  let ?authn = "Authenticate newReq do (cp_authenticator parts)" and ?j = "cp_tokenIssuer parts"
  let ?r = "\<lparr>hreq_Authorization = ''Bearer '' @ cfg_UserAccessToken cfg, hreq_PathValue = (\<lambda>_. '''')\<rparr>"
  let ?req = "register_request_for v (di_ID dev) info"
  obtain resp tab' where ep: "register_endpoint ?authn uuidParse p lib now ?j tab ?r (json_text (encode_register_request ?req)) =
      (resp, tab')" by fastforce
  with assms(10) have reply: "reply = register_reply_of zone (Answer resp)" by (simp add: cp_def control_plane_endpoint)
  with assms(11) have st: "http_status resp = 201" by simp
  have read: "read_register_request (json_text (encode_register_request ?req)) = Some (coerced_register_request ?req)"
    using assms(8) by (intro read_written(1)) (simp add: register_request_for_def)
  from register_endpoint_201 [OF assms(2,4,5) ep st] read obtain t and user :: User and rb :: DeviceRegisterResponse and exp where
    auth: "BearerToken ?r = Some t" "?authn t = Inr user" and rb: "http_body resp = RegisterBody rb"
    and rid: "resp_DeviceID rb = pg_canon p (req_DeviceID (coerced_register_request ?req))" and exp: "resp_ExpiresAt rb - second < exp"
    and ver: "\<forall>t < exp. Verify lib ?j t (resp_Token rb) = Inr (resp_DeviceID rb, pg_canon p (usr_ID user))" by auto
  from rid assms(6,7) have rdev: "resp_DeviceID rb = di_ID dev"
    by (simp add: pg_canon_def register_request_for_def coerced_register_request_def)
  from register_endpoint_token_signed [OF assms(4) ep st rb] assms(3)
  have tok: "resp_Token rb \<noteq> ''''" "untrimmed (resp_Token rb)" "valid_utf8 (resp_Token rb)"
    and ex: "resp_ExpiresAt rb = now + jti_ttl ?j" by (auto simp: compact_def)
  have "read_register_response (response_text zone resp) = Some (coerced_register_response zone rb)"
    using assms(12) read_written(3) [of zone rb] ex rb by (auto simp: response_text_def encode_register_response_def)
  then have reg: "registrar_register newRequest cp (newRegistrar (cfg_APIBaseURL cfg)) (cfg_UserAccessToken cfg) ?req =
      Inr (coerced_register_response zone rb)"
    using assms(9,10) st reply by (simp add: registrar_register_def register_request_of_def)
  have same: "resp_Token (coerced_register_response zone rb) = resp_Token rb"
    using tok(3) by (simp add: coerced_register_response_def)
  from registered_token_loaded [OF reg _ _ assms(13-15)] tok same
  have "loadToken io' (registerWithControlPlane newRequest cp io v cfg files (di_ID dev) info) cfg = Inr (resp_Token rb)" by simp
  moreover have "di_ID dev \<noteq> ''''" using assms(5,6) by (auto simp: uuid_ok_def)
  then have "\<forall>t < exp. authenticate (Verify lib ?j t) (Inr (authenticate_request dev (resp_Token rb))) =
      ([], Inr (di_ID dev, pg_canon p (usr_ID user)))"
    using ver rdev by (auto intro: authenticate_own_request)
  ultimately show ?thesis using auth exp ex by (intro exI [of _ "resp_Token rb"] exI [of _ user] exI [of _ exp]) auto
qed

text \<open>
  \<^bold>\<open>C19.\<close> A command sent too early breaks the connection: the connection server publishes a stream
  before it sends the authentication response, so a command for the device can reach the
  stream first. In such a run the server goes on to serve the session and lists the device as
  connected, while the client, which takes the first message for the answer to its request,
  gives the attempt up as not authenticated and answers nothing.
\<close>

theorem early_command_breaks_connection:
  assumes "verify now tok = Inr (di_ID dev, u)" and "di_ID dev \<noteq> ''''"
    and "at_token a = Inr tok" and "at_dial a = None" and "at_open a = None" and "at_send a = None"
  shows "\<exists>es s. run (srv_step verify) (srv_init h) es s \<and> conn_of s 0 = PcServing (di_ID dev) u sid \<and>
    Manager_IsConnected (di_ID dev) (srv_manager s) \<and>
    out s 0 = [command_envelope i req, authSuccess sid] \<and>
    connectOnce c dev (a\<lparr>at_first := Inr (hd (out s 0)), at_incoming := tl (out s 0)\<rparr>) =
      failed_attempt (anon ''expected an authenticate response as the first message'')
        [authenticate_request dev tok]"
proof -
  obtain es s where "run (srv_step verify) (srv_init h) es s" "conn_of s 0 = PcServing (di_ID dev) u sid"
      "out s 0 = [command_envelope i req, authSuccess sid]" "Manager_IsConnected (di_ID dev) (srv_manager s)"
    using send_before_authenticate_response [of verify now tok "di_ID dev" u h sid "command_envelope i req"] assms(1,2)
    by blast
  moreover have "GetAuthenticateResponse (Some (command_envelope i req)) = None"
    by (simp add: command_envelope_def)
  ultimately show ?thesis using assms(3-)
    by (intro exI [of _ es] exI [of _ s]) (simp add: connectOnce_def)
qed

theorem early_command_breaks_connection_witness:
  "\<exists>es s. run (srv_step demo_verify) (srv_init True) es s \<and> conn_of s 0 = PcServing ''dev'' ''user'' ''sess'' \<and>
    Manager_IsConnected ''dev'' (srv_manager s) \<and>
    out s 0 = [command_envelope ''id1'' demo_request, authSuccess ''sess''] \<and>
    connectOnce demo_client (demo_device_info\<lparr>di_ID := ''dev''\<rparr>)
      (demo_attempt\<lparr>at_first := Inr (hd (out s 0)), at_incoming := tl (out s 0)\<rparr>) =
      failed_attempt (anon ''expected an authenticate response as the first message'')
        [authenticate_request (demo_device_info\<lparr>di_ID := ''dev''\<rparr>) ''tok'']"
  using early_command_breaks_connection [of demo_verify 5 "''tok''" "demo_device_info\<lparr>di_ID := ''dev''\<rparr>" "''user''"
      demo_attempt True "''sess''" "''id1''" demo_request demo_client]
  by (simp add: demo_verify_ok demo_attempt_def)

text \<open>What the agent receives is what the operator asked for, under the identifier \<^verbatim>\<open>Send\<close> gave it.\<close>

lemma request_crosses_wire:
  "GetCommandRequest (Some (command_envelope i req)) = Some cmd \<Longrightarrow>
     requestFromProto (Some cmd) = req\<lparr>rq_ID := i\<rparr>"
  by (auto simp: command_envelope_def requestFromProto_def Command_GetId_def Command_GetKind_def
      Command_GetArguments_def)

lemma response_crosses_wire: "response_of (responseToProto resp) = resp"
  by (simp add: response_of_def responseToProto_def CommandResult_GetCommandId_def CommandResult_GetSuccess_def
      CommandResult_GetMessage_def CommandResult_GetDetails_def)

lemma agent_answer:
  assumes "answers (Some (WireHandler d)) [command_envelope i req] = [answer]"
  shows "GetCommandResponse (Some answer) = Some (responseToProto (Dispatch d (req\<lparr>rq_ID := i\<rparr>)))"
proof -
  obtain cmd where cmd: "GetCommandRequest (Some (command_envelope i req)) = Some cmd"
    by (simp add: command_envelope_def)
  from request_crosses_wire [OF cmd] cmd assms show ?thesis by (auto simp: WireHandler_def)
qed

text \<open>The agent's client only answers what it was asked, as \<open>response_from_addressee\<close> requires.\<close>

lemma agent_answers_known:
  assumes "set envs \<subseteq> set (out s i)" and "a \<in> set (answers (Some (WireHandler disp)) envs)"
    and "GetCommandResponse (Some a) = Some r"
  shows "knows_command s i (res_CommandId r)"
proof -
  from assms(2) obtain cmd env where "env \<in> set envs" "GetCommandRequest (Some env) = Some cmd"
      and "a = envelope (Payload_CommandResponse (Some (WireHandler disp (Some cmd))))"
    unfolding set_answers by blast
  moreover from this(3) assms(3) have "res_CommandId r = cmd_Id cmd"
    by (auto simp: WireHandler_def responseToProto_def requestFromProto_def Command_GetId_def)
  ultimately show ?thesis using assms(1) by (auto simp: knows_command_def)
qed

text \<open>
  A command's way to the agent and back: when a device's stream is served and free, a new
  \<^verbatim>\<open>Send\<close> for this device writes its command to the stream, the agent's dispatcher answers the
  envelope, the read loop hands the answer to \<^verbatim>\<open>HandleResult\<close>, and the call returns what
  dispatching the request on the agent gives.
\<close>

lemma command_crosses_bus:
  assumes "reachable (cp_step verify) cp_init s"
    and "fmlookup (srv_streams (cps_server s)) d = Some i" and "conns (cps_server s) i = Some (PcServing d u sid)"
    and "cps_busy s i = None"
    and "calls (cps_service s) k = None" and "fresh_id (cps_service s) (SendBegin k d req cid)"
    and "handlers (cps_service s) j = None"
  shows "\<exists>t. run (cp_step verify) s
      [CpSend k d req cid, CpLookup k, CpWrite k None, CpSent k,
       CpRecv i (hd (answers (Some (WireHandler disp)) [command_envelope cid req])), CpTake i j, CpPut i,
       CpReturn (SendReceive k)] t \<and>
    calls (cps_service t) k = Some \<lparr>call_device = d, call_request = req, call_id = cid,
      call_state = Returned (Inr (Dispatch disp (req\<lparr>rq_ID := cid\<rparr>)))\<rparr> \<and>
    out (cps_server t) i = out (cps_server s) i @ [command_envelope cid req] \<and>
    fmlookup (pending (cps_service t)) cid = None \<and> cps_busy t i = None"
proof -
  let ?answer = "hd (answers (Some (WireHandler disp)) [command_envelope cid req])"
  let ?r = "responseToProto (Dispatch disp (req\<lparr>rq_ID := cid\<rparr>))"
  have "\<exists>a. answers (Some (WireHandler disp)) [command_envelope cid req] = [a]" by (simp add: command_envelope_def)
  then have answer: "GetCommandResponse (Some ?answer) = Some ?r" using agent_answer by fastforce
  have rid: "CommandResult_GetCommandId (Some ?r) = cid"
    by (simp add: CommandResult_GetCommandId_def responseToProto_def)
  from cp.reachable_inv [OF assms(1)] have inv: "cp_inv verify s" .
  then have "chan (cps_service s) k = []"
    using unused_call(1) [of "cps_service s" k] assms(5) by (simp add: cp_inv_def svc_inv_def)
  moreover have "sends (cps_server s) k = None"
    using inv assms(5) by (cases "sends (cps_server s) k") (fastforce simp: cp_inv_def sends_linked_def command_of_def)+
  moreover have "srv_onMessage (cps_server s)" using inv by (simp add: cp_inv_def)
  moreover have "cp_fresh s (CpSend k d req cid)" using assms(6) by (simp add: cp_fresh_def fresh_id_def)
  ultimately show ?thesis using assms(2-5,7) answer
    by (simp add: run_Cons_iff cp_step_def on_server_def on_service_def cp_fresh_def Send_lookup_def handle_send_def
        HandleResult_def Let_def rid after_take_def response_crosses_wire del: answers.simps)
qed

text \<open>The answer to a command, as the operator reads it.\<close>

abbreviation read_answer :: "string \<Rightarrow> SendCommandResponse \<times> decode_status" where
  "read_answer \<equiv> decode_body (decode_struct command_response_fields) zero_command_response"

lemma read_command_answer:
  assumes "valid_keys (rs_Details resp)"
  shows "read_answer (response_text zone (command_reply (Inr resp))) =
    (\<lparr>scp_CommandID = coerce_utf8 (rs_CommandID resp), scp_Success = rs_Success resp,
      scp_Message = coerce_utf8 (rs_Message resp), scp_Details = fmmap coerce_utf8 (rs_Details resp)\<rparr>, Fine)"
  using command_response.decode_written [of "\<lparr>scp_CommandID = rs_CommandID resp, scp_Success = rs_Success resp,
      scp_Message = rs_Message resp, scp_Details = rs_Details resp\<rparr>"] assms
  by (simp add: response_text_def command_reply_def coerced_command_response_def)

text \<open>What the handler asks the Command Bus for.\<close>

abbreviation bus_request :: "SendCommandRequest \<Rightarrow> Request" where
  "bus_request c \<equiv> \<lparr>rq_ID = '''', rq_Kind = scr_Kind c, rq_Arguments = scr_Arguments c\<rparr>"


text \<open>A verifier that knows one device, the one of the table \<open>demo_table\<close>.\<close>

definition demo_verify_d1 :: "Time \<Rightarrow> verifier" where
  "demo_verify_d1 now tok = Inr (''d1'', ''u1'')"


section \<open>A concrete registration and connection\<close>

definition demo_config :: agent_Config where
  "demo_config = \<lparr>cfg_HTTPAddr = '':8081'', cfg_DataDir = ''/data'', cfg_APIBaseURL = ''http://localhost:8080'',
     cfg_GRPCServerAddr = ''localhost:9090'', cfg_UserAccessToken = ''good'', cfg_DockerSocket = ''''\<rparr>"

definition demo_control_plane :: "register_call \<Rightarrow> error + register_reply" where
  "demo_control_plane = control_plane (\<lambda>_. 0) (wired_handlers demo_parts (\<lambda>_. None) demo_supabase_user (\<lambda>_. None)
     (demo_pg_strict 5) [] demo_jwt 0 NewManager demo_send None ''dev'') (fmempty, 0)"

lemma untrimmed_tok: "untrimmed ''tok''"
  by (simp add: untrimmed_def strip_one_None space_seqs_def)

lemma demo_compact: "compact demo_jwt"
  by (auto simp: compact_def demo_jwt_def untrimmed_tok ascii_valid_utf8 split: if_splits)

lemma demo_control_plane_reply:
  "demo_control_plane (register_request_of (newRegistrar (cfg_APIBaseURL demo_config))
      (cfg_UserAccessToken demo_config) (register_request_for ''dev'' (di_ID demo_device_info) demo_info)) =
    Inr (register_reply_of (\<lambda>_. 0) (Answer (writeJSON 201
      (RegisterBody \<lparr>resp_DeviceID = ''d1'', resp_Token = ''tok'', resp_ExpiresAt = demo_exp\<rparr>))))"
proof -
  let ?r = "\<lparr>hreq_Authorization = ''Bearer good'', hreq_PathValue = (\<lambda>_. '''')\<rparr>"
  have "BearerToken ?r = Some ''good''"
    using demo_bearer by (simp add: BearerToken_def demo_operator_request_def)
  then have "register_endpoint demo_authn (\<lambda>_. None) (demo_pg_strict 5) demo_jwt 0 demo_issuer fmempty ?r body =
      register_endpoint demo_authn (\<lambda>_. None) (demo_pg_strict 5) demo_jwt 0 demo_issuer fmempty
        demo_operator_request body" for body
    by (simp add: register_endpoint_def Handler_Register_def Handler_authenticate_def demo_bearer)
  moreover have "register_request_for ''dev'' (di_ID demo_device_info) demo_info = demo_register_request"
    by (simp add: register_request_for_def demo_device_info_def demo_info_def demo_register_request_def)
  ultimately show ?thesis
    using demo_register_endpoint
    by (simp add: demo_control_plane_def control_plane_endpoint demo_parts_def demo_authn_def demo_config_def
        demo_register_body_def)
qed

theorem registered_agent_connects_witness:
  "\<exists>tok user exp.
    loadToken no_faults (registerWithControlPlane (\<lambda>_. None) demo_control_plane no_faults ''dev'' demo_config
      fmempty (di_ID demo_device_info) demo_info) demo_config = Inr tok \<and>
    (\<exists>t. BearerToken \<lparr>hreq_Authorization = ''Bearer '' @ cfg_UserAccessToken demo_config,
        hreq_PathValue = (\<lambda>_. '''')\<rparr> = Some t \<and>
      Authenticate (\<lambda>_. None) demo_supabase_user (cp_authenticator demo_parts) t = Inr user) \<and>
    0 + jti_ttl demo_issuer - second < exp \<and>
    authenticate (Verify demo_jwt demo_issuer 0) (Inr (authenticate_request demo_device_info tok)) =
      ([], Inr (di_ID demo_device_info, pg_canon (demo_pg_strict 5) (usr_ID user)))"
proof -
  have strict: "uuid_ok (demo_pg_strict 5)"
    "pg_uuid (demo_pg_strict 5) (di_ID demo_device_info) = Some (di_ID demo_device_info)"
    "valid_utf8 (di_ID demo_device_info)" "int64 (si_CPUCores demo_info)"
    by (simp_all add: uuid_ok_def demo_pg_strict_def demo_device_info_def ascii_valid_utf8 demo_info_def int64_def)
  have io: "io_mkdir no_faults = None" "io_write no_faults = None" "io_read no_faults = None"
    by (simp_all add: no_faults_def)
  have issuer: "cp_tokenIssuer demo_parts = demo_issuer" by (simp add: demo_parts_def)
  have "encode_time (\<lambda>_. 0) (0 + jti_ttl demo_issuer) \<noteq> None"
    by (simp add: encode_time_def format_time_def Let_def calendar_day_def day_def zone_minutes_def cycle_days_def
        demo_issuer_def NewJWTTokenIssuer_def)
  note connects = registered_agent_connects [OF demo_jwt_ok demo_compact table_inv_empty strict refl
      demo_control_plane_reply [unfolded demo_control_plane_def] _ this [folded issuer] io]
  have "0 < exp" if "0 + jti_ttl demo_issuer - second < exp" for exp
    using that by (simp add: demo_issuer_def NewJWTTokenIssuer_def)
  with connects show ?thesis unfolding demo_control_plane_def issuer by fastforce
qed

end
